(* ===== verification/Prelude.thy ===== *)
theory Prelude
  imports Complex_Main "HOL-Library.Multiset" "HOL-Library.Word"
begin

text \<open>
  Shared vocabulary of the development: the names of Go's machine types, wrap-around of
  signed integers, truncated division, the rule collections the component theories extend,
  and the list facts that several components use (the loop ``return the first element that
  satisfies a test'' occurs in the webhook, the eviction handler, the resolver and the
  controllers).
\<close>

named_theorems go_arith \<open>machine integers: wrap-around, truncated division, saturation\<close>
named_theorems f64 \<open>evaluation of binary64 operations on finite operands\<close>
named_theorems f64_mono \<open>monotonicity of binary64 operations\<close>
named_theorems wf_preserve \<open>operations keep the well-formedness invariant of their component\<close>

type_synonym int64 = int
type_synonym int32 = int
type_synonym uint64 = "64 word"

section \<open>Machine integers\<close>

text \<open>Two's complement wrap-around at width \<open>w\<close>.\<close>

definition wrap :: "nat \<Rightarrow> int \<Rightarrow> int" where
  "wrap w n = (n + 2 ^ (w - 1)) mod 2 ^ w - 2 ^ (w - 1)"

abbreviation wrap32 :: "int \<Rightarrow> int32" where
  "wrap32 \<equiv> wrap 32"

abbreviation wrap64 :: "int \<Rightarrow> int64" where
  "wrap64 \<equiv> wrap 64"

definition in_width :: "nat \<Rightarrow> int \<Rightarrow> bool" where
  "in_width w n \<longleftrightarrow> - (2 ^ (w - 1)) \<le> n \<and> n < 2 ^ (w - 1)"

abbreviation is_int32 :: "int \<Rightarrow> bool" where
  "is_int32 \<equiv> in_width 32"

abbreviation is_int64 :: "int \<Rightarrow> bool" where
  "is_int64 \<equiv> in_width 64"

lemma wrap_id [go_arith]: "0 < w \<Longrightarrow> in_width w n \<Longrightarrow> wrap w n = n"
proof -
  assume w: "0 < w" and n: "in_width w n"
  have "(2::int) ^ w = 2 * 2 ^ (w - 1)"
    using w by (cases w) simp_all
  with n have "(n + 2 ^ (w - 1)) mod 2 ^ w = n + 2 ^ (w - 1)"
    by (intro mod_pos_pos_trivial) (auto simp: in_width_def)
  then show ?thesis by (simp add: wrap_def)
qed

lemma wrap_in_width: "0 < w \<Longrightarrow> in_width w (wrap w n)"
proof -
  assume w: "0 < w"
  have e: "(2::int) ^ w = 2 * 2 ^ (w - 1)"
    using w by (cases w) simp_all
  have "0 \<le> (n + 2 ^ (w - 1)) mod 2 ^ w" and "(n + 2 ^ (w - 1)) mod 2 ^ w < 2 ^ w"
    by simp_all
  with e show ?thesis by (simp add: wrap_def in_width_def)
qed

text \<open>Go's \<open>/\<close> and \<open>%\<close> on integers truncate towards zero.\<close>

definition quot_go :: "int \<Rightarrow> int \<Rightarrow> int" where
  "quot_go a b = sgn a * sgn b * (\<bar>a\<bar> div \<bar>b\<bar>)"

definition rem_go :: "int \<Rightarrow> int \<Rightarrow> int" where
  "rem_go a b = a - quot_go a b * b"

lemma quot_go_nonneg [go_arith]: "0 \<le> a \<Longrightarrow> 0 < b \<Longrightarrow> quot_go a b = a div b"
  by (cases "a = 0") (simp_all add: quot_go_def)

lemma rem_go_nonneg [go_arith]: "0 \<le> a \<Longrightarrow> 0 < b \<Longrightarrow> rem_go a b = a mod b"
  by (simp add: rem_go_def quot_go_nonneg minus_div_mult_eq_mod)

section \<open>Errors and panics\<close>

text \<open>
  Go's \<open>error\<close> values: a message of \<open>errors.New\<close> or of a library call, a status of the
  Kubernetes API server with its reason, and \<open>fmt.Errorf("...: %w", err)\<close>, which wraps.
  The \<open>apierrors.Is...\<close> tests look through wrapping.
\<close>

datatype api_reason =
    NotFound | AlreadyExists | Forbidden | Invalid | TooManyRequests | OtherReason string

datatype go_error = Err string | ApiErr api_reason | Wrap string go_error

fun has_reason :: "api_reason \<Rightarrow> go_error \<Rightarrow> bool" where
  "has_reason r (Err _) = False"
| "has_reason r (ApiErr r') = (r = r')"
| "has_reason r (Wrap _ e) = has_reason r e"

text \<open>
  A call either returns or panics. A Go function that returns \<open>(T, error)\<close> has the type
  \<open>(go_error + T) go\<close>, one that returns \<open>error\<close> and changes its receiver returns the pair.
\<close>

datatype 'a go = Ret 'a | Panic

fun go_bind :: "'a go \<Rightarrow> ('a \<Rightarrow> 'b go) \<Rightarrow> 'b go" where
  "go_bind (Ret x) f = f x"
| "go_bind Panic f = Panic"

lemma go_bind_Ret: "go_bind m f = Ret y \<longleftrightarrow> (\<exists>x. m = Ret x \<and> f x = Ret y)"
  by (cases m) simp_all

lemma go_bind_RetE:
  assumes "go_bind m f = Ret y"
  obtains x where "m = Ret x" "f x = Ret y"
  using assms by (cases m) simp_all

text \<open>\<open>xs[i] = f(xs[i])\<close> on a slice: out of range panics.\<close>

definition slice_update :: "'a list \<Rightarrow> int \<Rightarrow> ('a \<Rightarrow> 'a) \<Rightarrow> 'a list go" where
  "slice_update xs i f =
     (if 0 \<le> i \<and> i < int (length xs) then Ret (xs[nat i := f (xs ! nat i)]) else Panic)"

lemma slice_update_in_range [simp]:
  "0 \<le> i \<Longrightarrow> i < int (length xs) \<Longrightarrow> slice_update xs i f = Ret (xs[nat i := f (xs ! nat i)])"
  by (simp add: slice_update_def)

section \<open>Loops that return the first match\<close>

lemma find_Some_set: "List.find P xs = Some x \<Longrightarrow> x \<in> set xs \<and> P x"
  by (auto simp: find_Some_iff)

lemma find_None_all: "List.find P xs = None \<longleftrightarrow> (\<forall>x \<in> set xs. \<not> P x)"
  by (auto simp: find_None_iff)

end
