(* ===== verification/Float64.thy ===== *)
theory Float64
  imports Prelude
begin

text \<open>
  Go's \<open>float64\<close>: IEEE-754 binary64 with rounding to nearest, ties to even.
  A finite value carries the rational number it stands for; every arithmetic operation
  computes the exact rational result and rounds it once (\<open>rnd\<close>), with gradual underflow
  at \<open>2\<^sup>-\<^sup>1\<^sup>0\<^sup>7\<^sup>4\<close> and overflow to an infinity from \<open>2\<^sup>1\<^sup>0\<^sup>2\<^sup>4\<close> on.
  The two zeros are one value: the program never divides by a quantity that can be a zero
  of either sign without testing it first, takes no sign bit and prints no float, so the
  sign of zero is not observable. The source has no product whose result is an operand of
  a sum, so the fused multiply-add that Go permits does not arise.
\<close>

section \<open>Binary exponents\<close>

function nlog2 :: "int \<Rightarrow> int" where
  "nlog2 n = (if n < 2 then 0 else nlog2 (n div 2) + 1)"
  by pat_completeness auto
termination
  by (relation "measure nat") auto

declare nlog2.simps [simp del]

definition clog2 :: "int \<Rightarrow> int" where
  "clog2 n = (if n \<le> 1 then 0 else nlog2 (n - 1) + 1)"

text \<open>\<open>expo x\<close> is the exponent of the binade of \<open>x > 0\<close>.\<close>

definition expo :: "rat \<Rightarrow> int" where
  "expo x = (if 1 \<le> x then nlog2 \<lfloor>x\<rfloor> else - clog2 \<lceil>1 / x\<rceil>)"

lemma nlog2_nonneg [simp]: "0 \<le> nlog2 n"
  by (induction n rule: nlog2.induct) (subst nlog2.simps, simp)

lemma nlog2_bounds: "0 < n \<Longrightarrow> 2 ^ nat (nlog2 n) \<le> n \<and> n < 2 * 2 ^ nat (nlog2 n)"
proof (induction n rule: nlog2.induct)
  case (1 n)
  show ?case
  proof (cases "n < 2")
    case True
    with "1.prems" have "n = 1" by simp
    then show ?thesis by (simp add: nlog2.simps)
  next
    case False
    with "1.IH" have "2 ^ nat (nlog2 (n div 2)) \<le> n div 2" "n div 2 < 2 * 2 ^ nat (nlog2 (n div 2))"
      by simp_all
    moreover have "nat (nlog2 n) = Suc (nat (nlog2 (n div 2)))"
      using False by (subst nlog2.simps) (simp add: nat_add_distrib)
    ultimately show ?thesis by simp linarith
  qed
qed

lemma clog2_bounds: "1 < n \<Longrightarrow> n \<le> 2 ^ nat (clog2 n) \<and> 2 ^ nat (clog2 n - 1) < n"
  using nlog2_bounds [of "n - 1"] by (auto simp: clog2_def nat_add_distrib)

lemma clog2_pos: "1 < n \<Longrightarrow> 0 < clog2 n"
  using nlog2_nonneg [of "n - 1"] by (simp add: clog2_def)

lemma powi2_neg: "(2::rat) powi (- int k) = 1 / 2 ^ k"
  by (simp add: power_int_minus divide_inverse)

lemma expo_bounds:
  assumes "0 < x"
  shows "2 powi expo x \<le> x" and "x < 2 powi (expo x + 1)"
proof -
  have "2 powi expo x \<le> x \<and> x < 2 powi (expo x + 1)"
  proof (cases "1 \<le> x")
    case True
    let ?k = "nat (nlog2 \<lfloor>x\<rfloor>)"
    have "0 < \<lfloor>x\<rfloor>" using True by simp
    from nlog2_bounds [OF this] have "2 ^ ?k \<le> \<lfloor>x\<rfloor>" "\<lfloor>x\<rfloor> + 1 \<le> 2 * 2 ^ ?k" by simp_all
    then have "of_int (2 ^ ?k) \<le> (of_int \<lfloor>x\<rfloor> :: rat)" "of_int (\<lfloor>x\<rfloor> + 1) \<le> (of_int (2 * 2 ^ ?k) :: rat)"
      by (simp_all only: of_int_le_iff)
    then have b: "2 ^ ?k \<le> x" "x < 2 * 2 ^ ?k"
      using floor_correct [of x] unfolding of_int_power of_int_numeral of_int_mult of_int_add of_int_1
      by linarith+
    have e: "expo x = int ?k" using True by (simp add: expo_def)
    have "(2::rat) powi expo x = 2 ^ ?k" unfolding e by (rule power_int_of_nat)
    moreover have "(2::rat) powi (expo x + 1) = 2 powi expo x * 2" by (simp add: power_int_add)
    ultimately show ?thesis using b by simp
  next
    case False
    let ?k = "clog2 \<lceil>1 / x\<rceil>"
    have "1 < 1 / x" using False assms by simp
    then have n: "1 < \<lceil>1 / x\<rceil>" by (simp add: less_ceiling_iff)
    have k: "0 < ?k" by (rule clog2_pos [OF n])
    have "of_int \<lceil>1 / x\<rceil> \<le> (of_int (2 ^ nat ?k) :: rat)" "of_int (2 ^ nat (?k - 1)) < 1 / x"
      using clog2_bounds [OF n] by (simp_all only: of_int_le_iff less_ceiling_iff)
    then have b: "1 / x \<le> 2 ^ nat ?k" "2 ^ nat (?k - 1) < 1 / x"
      using le_of_int_ceiling [of "1 / x"] unfolding of_int_power of_int_numeral by linarith+
    have e: "expo x = - int (nat ?k)" "expo x + 1 = - int (nat (?k - 1))"
      using False k by (simp_all add: expo_def)
    have p: "(2::rat) powi expo x = 1 / 2 ^ nat ?k" by (simp only: e(1) powi2_neg)
    have q: "(2::rat) powi (expo x + 1) = 1 / 2 ^ nat (?k - 1)" by (simp only: e(2) powi2_neg)
    show ?thesis using b assms unfolding p q by (simp add: field_simps)
  qed
  then show "2 powi expo x \<le> x" and "x < 2 powi (expo x + 1)" by simp_all
qed

lemma powi2_mono: "a \<le> b \<Longrightarrow> (2::rat) powi a \<le> 2 powi b"
  by (rule power_int_increasing) simp_all

lemma powi2_less_iff [simp]: "(2::rat) powi a < 2 powi b \<longleftrightarrow> a < b"
  using powi2_mono [of b a] power_int_strict_increasing [of a b "2::rat"] by force

lemma powi2_le_iff [simp]: "(2::rat) powi a \<le> 2 powi b \<longleftrightarrow> a \<le> b"
  using powi2_less_iff [of b a] by (simp add: not_less [symmetric] del: powi2_less_iff)

lemma powi2_pos [simp]: "0 < (2::rat) powi a"
  by simp

text \<open>Quotients of powers of two with a larger numerator are integers.\<close>

lemma powi2_div: "b \<le> a \<Longrightarrow> (2::rat) powi a / 2 powi b = of_int (2 ^ nat (a - b))"
proof -
  assume "b \<le> a"
  then have "(2::rat) powi a / 2 powi b = 2 powi int (nat (a - b))"
    by (simp add: power_int_diff)
  then show ?thesis by (simp only: power_int_of_nat of_int_power of_int_numeral)
qed

lemma expo_mono: "0 < x \<Longrightarrow> x \<le> y \<Longrightarrow> expo x \<le> expo y"
proof (rule ccontr)
  assume xy: "0 < x" "x \<le> y" and "\<not> expo x \<le> expo y"
  then have "expo y + 1 \<le> expo x" by simp
  then have "(2::rat) powi (expo y + 1) \<le> 2 powi expo x" by simp
  moreover have "2 powi expo x \<le> x" and "y < 2 powi (expo y + 1)"
    using xy expo_bounds by simp_all
  ultimately show False using xy by linarith
qed

lemma expo_ge: "0 < x \<Longrightarrow> 2 powi k \<le> x \<Longrightarrow> k \<le> expo x"
  using expo_bounds(2) [of x] powi2_less_iff [of k "expo x + 1"] by linarith

section \<open>Rounding to nearest, ties to even\<close>

definition round_even :: "rat \<Rightarrow> int" where
  "round_even x =
     (let f = \<lfloor>x\<rfloor>; r = x - of_int f
      in if r < 1 / 2 then f
         else if 1 / 2 < r then f + 1
         else if even f then f else f + 1)"

lemma round_even_bounds: "\<lfloor>x\<rfloor> \<le> round_even x" "round_even x \<le> \<lceil>x\<rceil>"
proof -
  show "\<lfloor>x\<rfloor> \<le> round_even x" by (simp add: round_even_def Let_def)
  have "\<lfloor>x\<rfloor> + 1 \<le> \<lceil>x\<rceil>" if "x \<noteq> of_int \<lfloor>x\<rfloor>"
    using that by (simp add: ceiling_altdef)
  moreover have "\<lfloor>x\<rfloor> \<le> \<lceil>x\<rceil>" by simp
  ultimately show "round_even x \<le> \<lceil>x\<rceil>"
    by (auto simp: round_even_def Let_def)
qed

lemma round_even_int [simp]: "round_even (of_int n) = n"
  by (simp add: round_even_def)

lemma round_even_mono: "x \<le> y \<Longrightarrow> round_even x \<le> round_even y"
proof -
  assume xy: "x \<le> y"
  show ?thesis
  proof (cases "\<lfloor>x\<rfloor> = \<lfloor>y\<rfloor>")
    case True
    then show ?thesis using xy by (auto simp: round_even_def Let_def)
  next
    case False
    with xy have "\<lfloor>x\<rfloor> + 1 \<le> \<lfloor>y\<rfloor>" using floor_mono by fastforce
    moreover have "round_even x \<le> \<lfloor>x\<rfloor> + 1" by (simp add: round_even_def Let_def)
    ultimately show ?thesis using round_even_bounds(1) [of y] by linarith
  qed
qed

lemma round_even_le_int: "x \<le> of_int n \<Longrightarrow> round_even x \<le> n"
  using round_even_mono [of x "of_int n"] by simp

lemma round_even_ge_int: "of_int n \<le> x \<Longrightarrow> n \<le> round_even x"
  using round_even_mono [of "of_int n" x] by simp

lemma round_even_minus: "round_even (- x) = - round_even x"
proof (cases "x = of_int \<lfloor>x\<rfloor>")
  case True
  then show ?thesis by (metis of_int_minus round_even_int)
next
  case False
  then have "\<lceil>x\<rceil> = \<lfloor>x\<rfloor> + 1" by (metis ceiling_altdef)
  then have fl: "\<lfloor>- x\<rfloor> = - \<lfloor>x\<rfloor> - 1" by (simp add: floor_minus)
  show ?thesis by (auto simp: round_even_def Let_def fl)
qed

text \<open>
  \<open>round_rat\<close> rounds to 53 significant bits, or to a multiple of \<open>2\<^sup>-\<^sup>1\<^sup>0\<^sup>7\<^sup>4\<close> below the
  normal range.
\<close>

definition ulp_exp :: "rat \<Rightarrow> int" where
  "ulp_exp x = max (expo \<bar>x\<bar> - 52) (- 1074)"

definition round_rat :: "rat \<Rightarrow> rat" where
  "round_rat x =
     (if x = 0 then 0
      else let u = 2 powi ulp_exp x in of_int (round_even (x / u)) * u)"

lemma round_rat_zero [simp]: "round_rat 0 = 0"
  by (simp add: round_rat_def)

lemma round_rat_minus: "round_rat (- x) = - round_rat x"
  by (simp add: round_rat_def ulp_exp_def Let_def round_even_minus)

lemma round_rat_nonneg: "0 \<le> x \<Longrightarrow> 0 \<le> round_rat x"
  using round_even_ge_int [of 0 "x / 2 powi ulp_exp x"] by (auto simp: round_rat_def Let_def)

lemma round_rat_mono_pos:
  assumes "0 < x" and "x \<le> y"
  shows "round_rat x \<le> round_rat y"
proof -
  have y: "0 < y" using assms by simp
  let ?u = "(2::rat) powi ulp_exp x" and ?v = "(2::rat) powi ulp_exp y"
  have le: "expo x \<le> expo y" using assms by (rule expo_mono)
  have rx: "round_rat x = of_int (round_even (x / ?u)) * ?u"
    and ry: "round_rat y = of_int (round_even (y / ?v)) * ?v"
    using assms y by (simp_all add: round_rat_def Let_def)
  show ?thesis
  proof (cases "ulp_exp x = ulp_exp y")
    case True
    have "round_even (x / ?u) \<le> round_even (y / ?u)"
      using assms by (intro round_even_mono divide_right_mono) simp_all
    then show ?thesis unfolding rx ry True [symmetric] by simp
  next
    case False
    then have uy: "ulp_exp y = expo y - 52" and ux: "ulp_exp x \<le> expo y" and lt: "expo x < expo y"
      using le assms y by (auto simp: ulp_exp_def max_def split: if_splits)
    let ?B = "(2::rat) powi expo y"
    have "x \<le> ?B"
      using expo_bounds(2) [OF assms(1)] powi2_mono [of "expo x + 1" "expo y"] lt by linarith
    then have "x / ?u \<le> of_int (2 ^ nat (expo y - ulp_exp x))"
      using powi2_div [OF ux] by (metis divide_right_mono less_imp_le powi2_pos)
    then have "round_even (x / ?u) \<le> 2 ^ nat (expo y - ulp_exp x)" by (rule round_even_le_int)
    then have "of_int (round_even (x / ?u)) \<le> ?B / ?u" unfolding powi2_div [OF ux] by linarith
    then have "round_rat x \<le> ?B" unfolding rx by (simp add: field_simps)
    moreover have "?B \<le> round_rat y"
    proof -
      have vB: "ulp_exp y \<le> expo y" using uy by simp
      have "?B / ?v \<le> y / ?v" using expo_bounds(1) [OF y] by (simp add: divide_right_mono)
      then have "2 ^ nat (expo y - ulp_exp y) \<le> round_even (y / ?v)"
        unfolding powi2_div [OF vB] by (rule round_even_ge_int)
      then have "?B / ?v \<le> of_int (round_even (y / ?v))" unfolding powi2_div [OF vB] by linarith
      then show ?thesis unfolding ry by (simp add: field_simps)
    qed
    ultimately show ?thesis by simp
  qed
qed

lemma round_rat_mono: "x \<le> y \<Longrightarrow> round_rat x \<le> round_rat y"
proof -
  assume xy: "x \<le> y"
  consider "0 < x" | "x \<le> 0" "0 \<le> y" | "y < 0" using xy by linarith
  then show ?thesis
  proof cases
    case 1
    then show ?thesis using xy by (rule round_rat_mono_pos)
  next
    case 2
    then have "0 \<le> round_rat (- x)" and "0 \<le> round_rat y" by (simp_all add: round_rat_nonneg)
    then show ?thesis by (simp add: round_rat_minus)
  next
    case 3
    then show ?thesis using round_rat_mono_pos [of "- y" "- x"] xy by (simp add: round_rat_minus)
  qed
qed

text \<open>A multiple of a power of two with at most 53 significant bits is not changed.\<close>

lemma round_rat_exact:
  assumes "\<bar>m\<bar> \<le> 2 ^ 53" and "- 1074 \<le> k"
  shows "round_rat (of_int m * 2 powi k) = of_int m * 2 powi k"
proof (cases "m = 0")
  case False
  let ?y = "of_int m * (2::rat) powi k"
  have y: "0 < \<bar>?y\<bar>" "?y \<noteq> 0" using False by simp_all
  have "\<exists>j. ?y = of_int j * 2 powi ulp_exp ?y"
  proof (cases "ulp_exp ?y \<le> k")
    case True
    have "?y = of_int (m * 2 ^ nat (k - ulp_exp ?y)) * 2 powi ulp_exp ?y"
      using powi2_div [OF True] by (simp add: field_simps)
    then show ?thesis by blast
  next
    case f: False
    then have u: "ulp_exp ?y = expo \<bar>?y\<bar> - 52" and "k + 53 \<le> expo \<bar>?y\<bar>"
      using assms(2) by (auto simp: ulp_exp_def max_def split: if_splits)
    then have "(2::rat) powi (k + 53) \<le> 2 powi expo \<bar>?y\<bar>" by simp
    also have "\<dots> \<le> \<bar>?y\<bar>" using y by (intro expo_bounds)
    finally have "2 ^ 53 * (2::rat) powi k \<le> of_int \<bar>m\<bar> * 2 powi k"
      by (simp add: power_int_add abs_mult)
    then have "(2::rat) ^ 53 \<le> of_int \<bar>m\<bar>" by simp
    then have "of_int (2 ^ 53) \<le> (of_int \<bar>m\<bar> :: rat)" by simp
    then have m: "\<bar>m\<bar> = 2 ^ 53" using assms(1) by (simp only: of_int_le_iff)
    then have ay: "\<bar>?y\<bar> = 2 powi (k + 53)" by (simp add: abs_mult power_int_add flip: of_int_abs)
    have "expo \<bar>?y\<bar> = k + 53"
      using expo_bounds [OF y(1)] ay by (simp add: ay)
    then have "ulp_exp ?y = k + 1" using u by simp
    moreover have "?y = of_int (m div 2) * 2 powi (k + 1)"
    proof -
      have "even m" using m by (metis dvd_abs_iff even_numeral even_power zero_less_numeral)
      then have "of_int m = (2::rat) * of_int (m div 2)" by auto
      then show ?thesis by (simp add: power_int_add)
    qed
    ultimately show ?thesis by metis
  qed
  then obtain j where j: "?y = of_int j * 2 powi ulp_exp ?y" ..
  then have "?y / 2 powi ulp_exp ?y = of_int j" by (metis nonzero_mult_div_cancel_right less_irrefl powi2_pos)
  then show ?thesis using y(2) j by (simp add: round_rat_def Let_def)
qed simp

lemma round_rat_int: "\<bar>m\<bar> \<le> 2 ^ 53 \<Longrightarrow> round_rat (of_int m) = of_int m"
  using round_rat_exact [of m 0] by simp

lemma round_rat_powi: "- 1074 \<le> k \<Longrightarrow> round_rat (2 powi k) = 2 powi k"
  using round_rat_exact [of 1 k] by simp

text \<open>Rounding a rounded value does nothing.\<close>

lemma round_rat_shape: "\<exists>m k. round_rat x = of_int m * 2 powi k \<and> \<bar>m\<bar> \<le> 2 ^ 53 \<and> - 1074 \<le> k"
proof (cases "x = 0")
  case True
  then show ?thesis by (intro exI [of _ 0] exI [of _ 0]) simp
next
  case False
  let ?u = "(2::rat) powi ulp_exp x"
  have "\<bar>x\<bar> \<le> 2 powi (ulp_exp x + 53)"
    using expo_bounds(2) [of "\<bar>x\<bar>"] False powi2_mono [of "expo \<bar>x\<bar> + 1" "ulp_exp x + 53"]
    by (simp add: ulp_exp_def del: powi2_le_iff) linarith
  then have b: "\<bar>x / ?u\<bar> \<le> 2 ^ 53" by (simp add: power_int_add abs_divide field_simps)
  have "\<bar>round_even (x / ?u)\<bar> \<le> 2 ^ 53"
    using b round_even_le_int [of "x / ?u" "2 ^ 53"] round_even_ge_int [of "- (2 ^ 53)" "x / ?u"]
    unfolding abs_le_iff of_int_minus of_int_power of_int_numeral by linarith
  then show ?thesis using False
    by (intro exI [of _ "round_even (x / ?u)"] exI [of _ "ulp_exp x"])
      (simp add: round_rat_def Let_def ulp_exp_def)
qed

lemma round_rat_idem [simp]: "round_rat (round_rat x) = round_rat x"
  using round_rat_shape [of x] round_rat_exact by metis

text \<open>
  What the arithmetic below uses of the rounding function: it is monotone, fixes zero and
  its own results. Every bound on a float expression comes from these laws.
\<close>

locale monotone_rounding =
  fixes round :: "rat \<Rightarrow> rat"
  assumes round_mono: "x \<le> y \<Longrightarrow> round x \<le> round y"
    and round_zero: "round 0 = 0"
    and round_idem: "round (round x) = round x"
begin

lemma round_le_fix: "x \<le> y \<Longrightarrow> round y = y \<Longrightarrow> round x \<le> y"
  using round_mono [of x y] by simp

lemma round_ge_fix: "x \<le> y \<Longrightarrow> round x = x \<Longrightarrow> x \<le> round y"
  using round_mono [of x y] by simp

lemma round_nonneg: "0 \<le> x \<Longrightarrow> 0 \<le> round x"
  using round_ge_fix [of 0 x] by (simp add: round_zero)

lemma round_scale_down: "0 \<le> c \<Longrightarrow> c \<le> 1 \<Longrightarrow> 0 \<le> x \<Longrightarrow> round x = x \<Longrightarrow> round (x * c) \<le> x"
  by (rule round_le_fix) (simp_all add: mult_left_le)

lemma round_scale_up: "1 \<le> c \<Longrightarrow> 0 \<le> x \<Longrightarrow> round x = x \<Longrightarrow> x \<le> round (x * c)"
  by (rule round_ge_fix) (simp_all add: mult_le_cancel_left1)

lemma round_add_nonneg: "0 \<le> w \<Longrightarrow> round x = x \<Longrightarrow> x \<le> round (x + w)"
  by (rule round_ge_fix) simp_all

end

interpretation ieee: monotone_rounding round_rat
  by unfold_locales (simp_all add: round_rat_mono)

section \<open>Values, comparison and arithmetic\<close>

datatype float64 = NaN | PosInf | NegInf | Fin rat

definition f64_limit :: rat where
  "f64_limit = 2 ^ 1024"

definition rnd :: "rat \<Rightarrow> float64" where
  "rnd x =
     (let y = round_rat x
      in if f64_limit \<le> y then PosInf else if y \<le> - f64_limit then NegInf else Fin y)"

fun f64_less_eq :: "float64 \<Rightarrow> float64 \<Rightarrow> bool" where
  "f64_less_eq NaN y = False"
| "f64_less_eq x NaN = False"
| "f64_less_eq NegInf y = True"
| "f64_less_eq x PosInf = True"
| "f64_less_eq (Fin a) (Fin b) = (a \<le> b)"
| "f64_less_eq x y = False"

fun f64_add :: "float64 \<Rightarrow> float64 \<Rightarrow> float64" where
  "f64_add NaN y = NaN"
| "f64_add x NaN = NaN"
| "f64_add PosInf NegInf = NaN"
| "f64_add NegInf PosInf = NaN"
| "f64_add PosInf y = PosInf"
| "f64_add NegInf y = NegInf"
| "f64_add x PosInf = PosInf"
| "f64_add x NegInf = NegInf"
| "f64_add (Fin a) (Fin b) = rnd (a + b)"

fun f64_neg :: "float64 \<Rightarrow> float64" where
  "f64_neg NaN = NaN"
| "f64_neg PosInf = NegInf"
| "f64_neg NegInf = PosInf"
| "f64_neg (Fin a) = Fin (- a)"

text \<open>An infinity carrying the sign of a rational; an indeterminate form for zero.\<close>

definition inf_sgn :: "rat \<Rightarrow> float64" where
  "inf_sgn a = (if a = 0 then NaN else if 0 < a then PosInf else NegInf)"

fun f64_mult :: "float64 \<Rightarrow> float64 \<Rightarrow> float64" where
  "f64_mult NaN y = NaN"
| "f64_mult x NaN = NaN"
| "f64_mult (Fin a) (Fin b) = rnd (a * b)"
| "f64_mult (Fin a) PosInf = inf_sgn a"
| "f64_mult (Fin a) NegInf = inf_sgn (- a)"
| "f64_mult PosInf (Fin b) = inf_sgn b"
| "f64_mult NegInf (Fin b) = inf_sgn (- b)"
| "f64_mult PosInf y = y"
| "f64_mult NegInf y = f64_neg y"

fun f64_div :: "float64 \<Rightarrow> float64 \<Rightarrow> float64" where
  "f64_div NaN y = NaN"
| "f64_div x NaN = NaN"
| "f64_div (Fin a) (Fin b) = (if b = 0 then inf_sgn a else rnd (a / b))"
| "f64_div (Fin a) y = Fin 0"
| "f64_div PosInf (Fin b) = (if 0 \<le> b then PosInf else NegInf)"
| "f64_div NegInf (Fin b) = (if 0 \<le> b then NegInf else PosInf)"
| "f64_div x y = NaN"

instantiation float64 :: "{zero, one, plus, minus, uminus, times, inverse, ord}"
begin

definition zero_float64 :: float64 where
  "zero_float64 = Fin 0"

definition one_float64 :: float64 where
  "one_float64 = Fin 1"

definition plus_float64 :: "float64 \<Rightarrow> float64 \<Rightarrow> float64" where
  "plus_float64 = f64_add"

definition uminus_float64 :: "float64 \<Rightarrow> float64" where
  "uminus_float64 = f64_neg"

definition minus_float64 :: "float64 \<Rightarrow> float64 \<Rightarrow> float64" where
  "minus_float64 x y = f64_add x (f64_neg y)"

definition times_float64 :: "float64 \<Rightarrow> float64 \<Rightarrow> float64" where
  "times_float64 = f64_mult"

definition divide_float64 :: "float64 \<Rightarrow> float64 \<Rightarrow> float64" where
  "divide_float64 = f64_div"

definition inverse_float64 :: "float64 \<Rightarrow> float64" where
  "inverse_float64 x = f64_div (Fin 1) x"

definition less_eq_float64 :: "float64 \<Rightarrow> float64 \<Rightarrow> bool" where
  "less_eq_float64 = f64_less_eq"

definition less_float64 :: "float64 \<Rightarrow> float64 \<Rightarrow> bool" where
  "less_float64 x y \<longleftrightarrow> f64_less_eq x y \<and> \<not> f64_less_eq y x"

instance ..

end

lemmas f64_ops =
  zero_float64_def one_float64_def plus_float64_def uminus_float64_def minus_float64_def
  times_float64_def divide_float64_def inverse_float64_def

lemmas f64_ord = less_eq_float64_def less_float64_def

abbreviation is_fin :: "float64 \<Rightarrow> bool" where
  "is_fin x \<equiv> (\<exists>a. x = Fin a)"

text \<open>\<open>repr x\<close>: \<open>x\<close> is a value of the type (a finite \<open>x\<close> is a fixed point of rounding).\<close>

fun repr :: "float64 \<Rightarrow> bool" where
  "repr (Fin a) = (rnd a = Fin a)"
| "repr _ = True"

subsection \<open>Comparison\<close>

lemma f64_le_Fin [simp]: "Fin a \<le> Fin b \<longleftrightarrow> a \<le> b"
  by (simp add: f64_ord)

lemma f64_less_Fin [simp]: "Fin a < Fin b \<longleftrightarrow> a < b"
  by (auto simp: f64_ord)

lemma f64_le_NaN [simp]: "\<not> NaN \<le> y" "\<not> x \<le> NaN" "\<not> NaN < y" "\<not> x < NaN"
  by (cases x; cases y; simp add: f64_ord)+

lemma f64_le_inf [simp]:
  "x \<le> PosInf \<longleftrightarrow> x \<noteq> NaN" "NegInf \<le> x \<longleftrightarrow> x \<noteq> NaN"
  "PosInf \<le> x \<longleftrightarrow> x = PosInf" "x \<le> NegInf \<longleftrightarrow> x = NegInf"
  "Fin a < PosInf" "NegInf < Fin a" "\<not> PosInf < x" "\<not> x < NegInf"
  by (cases x; simp add: f64_ord)+

lemma f64_le_refl: "x \<le> x \<longleftrightarrow> x \<noteq> (NaN :: float64)"
  by (cases x) simp_all

lemma f64_le_trans: "x \<le> y \<Longrightarrow> y \<le> z \<Longrightarrow> x \<le> (z :: float64)"
  by (cases x; cases y; cases z) auto

lemma f64_le_antisym: "x \<le> y \<Longrightarrow> y \<le> x \<Longrightarrow> x = (y :: float64)"
  by (cases x; cases y) auto

lemma f64_less_le: "x < y \<longleftrightarrow> x \<le> y \<and> x \<noteq> (y :: float64)"
  by (cases x; cases y) (auto simp: f64_ord)

lemma f64_less_imp_le: "x < y \<Longrightarrow> x \<le> (y :: float64)"
  by (simp add: f64_less_le)

lemma f64_not_less: "x \<noteq> NaN \<Longrightarrow> y \<noteq> NaN \<Longrightarrow> \<not> x < y \<longleftrightarrow> y \<le> (x :: float64)"
  by (cases x; cases y) (auto simp: f64_ord)

lemma f64_not_le: "x \<noteq> NaN \<Longrightarrow> y \<noteq> NaN \<Longrightarrow> \<not> x \<le> y \<longleftrightarrow> y < (x :: float64)"
  by (cases x; cases y) (auto simp: f64_ord)

lemma f64_le_imp_num: "x \<le> y \<Longrightarrow> x \<noteq> NaN \<and> y \<noteq> (NaN :: float64)"
  by (cases x; cases y) auto

lemma f64_le_less_trans: "x \<le> y \<Longrightarrow> y < z \<Longrightarrow> x < (z :: float64)"
  by (cases x; cases y; cases z) (auto simp: f64_ord)

lemma f64_less_le_trans: "x < y \<Longrightarrow> y \<le> z \<Longrightarrow> x < (z :: float64)"
  by (cases x; cases y; cases z) (auto simp: f64_ord)

subsection \<open>Rounding into the type\<close>

lemma rnd_not_NaN [simp]: "rnd x \<noteq> NaN"
  by (simp add: rnd_def Let_def)

lemma f64_limit_pos [simp]: "0 < f64_limit"
  by (simp add: f64_limit_def)

lemma rnd_zero [simp]: "rnd 0 = Fin 0"
  using f64_limit_pos by (simp add: rnd_def not_le)

lemma rnd_mono [f64_mono]: "x \<le> y \<Longrightarrow> rnd x \<le> rnd y"
  using ieee.round_mono [of x y] by (auto simp: rnd_def Let_def)

lemma rnd_fin: "rnd x = Fin y \<Longrightarrow> y = round_rat x \<and> \<bar>round_rat x\<bar> < f64_limit"
  by (auto simp: rnd_def Let_def abs_less_iff split: if_splits)

lemma rnd_exact: "\<bar>round_rat x\<bar> < f64_limit \<Longrightarrow> rnd x = Fin (round_rat x)"
  by (auto simp: rnd_def Let_def abs_less_iff)

lemma repr_rnd [simp]: "repr (rnd x)"
proof (cases "rnd x")
  case (Fin y)
  then have "y = round_rat x" "\<bar>round_rat x\<bar> < f64_limit" using rnd_fin by auto
  then show ?thesis using rnd_exact [of y] Fin by simp
qed simp_all

lemma repr_Fin: "repr (Fin a) \<Longrightarrow> round_rat a = a"
  using rnd_fin by auto

lemma rnd_int: "\<bar>n\<bar> \<le> 2 ^ 53 \<Longrightarrow> rnd (of_int n) = Fin (of_int n)"
proof -
  assume n: "\<bar>n\<bar> \<le> 2 ^ 53"
  have "of_int \<bar>n\<bar> \<le> (of_int (2 ^ 53) :: rat)" using n by (simp only: of_int_le_iff)
  also have "\<dots> < f64_limit" by (simp add: f64_limit_def)
  finally have "\<bar>round_rat (of_int n)\<bar> < f64_limit" using round_rat_int [OF n] by (simp only: of_int_abs)
  then show ?thesis using round_rat_int [OF n] by (simp add: rnd_exact)
qed

lemma rnd_nonneg: "0 \<le> x \<Longrightarrow> Fin 0 \<le> rnd x"
  using rnd_mono [of 0 x] by simp

lemma rnd_between:
  assumes "0 \<le> x" "x \<le> y" "rnd y = Fin y"
  shows "\<exists>z. rnd x = Fin z \<and> 0 \<le> z \<and> z \<le> y"
proof -
  have "Fin 0 \<le> rnd x" "rnd x \<le> Fin y" using assms rnd_nonneg rnd_mono [of x y] by simp_all
  then show ?thesis by (cases "rnd x") auto
qed

subsection \<open>Evaluation on finite operands\<close>

text \<open>Executable form: the range check looks at the exponent only.\<close>

lemma rnd_code [code]:
  "rnd x =
     (let y = round_rat x
      in if y \<noteq> 0 \<and> 1024 \<le> expo \<bar>y\<bar> then (if 0 < y then PosInf else NegInf) else Fin y)"
proof -
  have "f64_limit \<le> \<bar>y\<bar> \<longleftrightarrow> y \<noteq> 0 \<and> 1024 \<le> expo \<bar>y\<bar>" for y
  proof (cases "y = 0")
    case True
    then show ?thesis using f64_limit_pos by (simp add: not_le)
  next
    case False
    then have y: "0 < \<bar>y\<bar>" by simp
    have l: "f64_limit = 2 powi 1024" by (simp add: f64_limit_def power_int_numeral)
    show ?thesis
    proof
      assume "f64_limit \<le> \<bar>y\<bar>"
      then show "y \<noteq> 0 \<and> 1024 \<le> expo \<bar>y\<bar>" using expo_ge [OF y, of 1024] False l by simp
    next
      assume "y \<noteq> 0 \<and> 1024 \<le> expo \<bar>y\<bar>"
      then have "(2::rat) powi 1024 \<le> 2 powi expo \<bar>y\<bar>" by (simp only: powi2_le_iff)
      then show "f64_limit \<le> \<bar>y\<bar>" unfolding l using expo_bounds(1) [OF y] by (rule order_trans)
    qed
  qed
  from this [of "round_rat x"] show ?thesis
    using f64_limit_pos less_le_trans [of 0 f64_limit "round_rat x"]
    by (auto simp: rnd_def Let_def abs_if split: if_splits)
qed

lemma f64_Fin [f64]:
  "Fin a + Fin b = rnd (a + b)"
  "Fin a - Fin b = rnd (a - b)"
  "Fin a * Fin b = rnd (a * b)"
  "b \<noteq> 0 \<Longrightarrow> Fin a / Fin b = rnd (a / b)"
  "- Fin a = Fin (- a)"
  by (simp_all add: f64_ops)

lemma f64_consts [f64]: "(0 :: float64) = Fin 0" "(1 :: float64) = Fin 1"
  by (simp_all add: f64_ops)

lemma repr_ops [simp]: "repr (x + y)" "repr (x * y)" "repr (x / y)" "repr (x - y)"
  by (cases x; cases y; simp add: f64_ops inf_sgn_def)+

lemma repr_Fin_0 [simp]: "repr (Fin 0)"
  by simp

lemma repr_Fin_1 [simp]: "rnd 1 = Fin 1"
  using rnd_int [of 1] by simp

lemma f64_add_zero: "repr x \<Longrightarrow> Fin 0 + x = x"
  by (cases x) (simp_all add: f64_ops)

subsection \<open>Monotonicity\<close>

text \<open>A non-negative number: neither negative nor \<open>NaN\<close>, possibly infinite.\<close>

lemma f64_nonneg_cases:
  assumes "Fin 0 \<le> x"
  obtains (fin) a where "x = Fin a" "0 \<le> a" | (inf) "x = PosInf"
  using assms by (cases x) auto

lemma f64_add_nonneg [f64_mono]: "Fin 0 \<le> x \<Longrightarrow> Fin 0 \<le> y \<Longrightarrow> Fin 0 \<le> x + y"
  by (cases x; cases y) (auto simp: f64_ops intro: rnd_nonneg)

lemma f64_add_mono [f64_mono]:
  "x \<le> x' \<Longrightarrow> y \<le> y' \<Longrightarrow> Fin 0 \<le> x \<Longrightarrow> Fin 0 \<le> y \<Longrightarrow> x + y \<le> x' + y'"
  by (cases x; cases x'; cases y; cases y') (auto simp: f64_ops intro: rnd_mono)

lemma f64_le_add: "repr x \<Longrightarrow> Fin 0 \<le> x \<Longrightarrow> Fin 0 \<le> w \<Longrightarrow> x \<le> x + w"
proof (cases x; cases w)
  fix a b assume "x = Fin a" "w = Fin b" "repr x" "Fin 0 \<le> w"
  then show "x \<le> x + w" using rnd_mono [of a "a + b"] by (simp add: f64)
qed (simp_all add: f64_ops)

lemma f64_mult_nonneg [f64_mono]:
  "Fin 0 \<le> x \<Longrightarrow> Fin 0 \<le> y \<Longrightarrow> is_fin x \<Longrightarrow> is_fin y \<Longrightarrow> Fin 0 \<le> x * y"
  by (auto simp: f64 intro!: rnd_nonneg mult_nonneg_nonneg)

lemma f64_mult_mono [f64_mono]:
  "x \<le> Fin b \<Longrightarrow> Fin 0 \<le> x \<Longrightarrow> Fin 0 \<le> c \<Longrightarrow> is_fin c \<Longrightarrow> x * c \<le> Fin b * c"
  by (cases x) (auto simp: f64 intro!: rnd_mono mult_right_mono)

lemma f64_mult_mono_pos:
  "x \<le> y \<Longrightarrow> Fin 0 \<le> x \<Longrightarrow> 0 < c \<Longrightarrow> x * Fin c \<le> y * Fin c"
  by (cases x; cases y) (auto simp: f64_ops inf_sgn_def intro!: rnd_mono mult_right_mono)

lemma f64_mult_pos_nonneg [f64_mono]: "Fin 0 \<le> x \<Longrightarrow> 0 < c \<Longrightarrow> Fin 0 \<le> x * Fin c"
  by (cases x) (auto simp: f64_ops inf_sgn_def intro!: rnd_nonneg mult_nonneg_nonneg)

lemma f64_div_mono [f64_mono]: "x \<le> y \<Longrightarrow> 0 < c \<Longrightarrow> x / Fin c \<le> y / Fin c"
  by (cases x; cases y) (auto simp: f64_ops intro!: rnd_mono divide_right_mono)

lemma f64_sub_mono: "x \<le> y \<Longrightarrow> x - Fin c \<le> y - Fin c"
  by (cases x; cases y) (auto simp: f64_ops intro!: rnd_mono)

lemma f64_scale_up:
  assumes "repr x" "Fin 0 \<le> x" "1 \<le> c"
  shows "x \<le> x * Fin c"
proof (cases x)
  case (Fin a)
  then have "a \<le> a * c" using assms by (simp add: mult_le_cancel_left1)
  then show ?thesis using rnd_mono [of a "a * c"] assms Fin by (simp add: f64)
qed (use assms in \<open>simp_all add: f64_ops inf_sgn_def\<close>)

lemma f64_scale_down:
  assumes "repr (Fin a)" "0 \<le> a" "0 \<le> c" "c \<le> 1"
  shows "Fin a * Fin c \<le> Fin a"
proof -
  have "a * c \<le> a" using assms by (simp add: mult_left_le)
  then show ?thesis using rnd_mono [of "a * c" a] assms by (simp add: f64)
qed

subsection \<open>Differences\<close>

lemma repr_multiple: "repr (Fin a) \<Longrightarrow> \<exists>j. a = of_int j * 2 powi (- 1074)"
proof -
  assume "repr (Fin a)"
  then have "round_rat a = a" by (rule repr_Fin)
  then obtain m k where mk: "a = of_int m * 2 powi k" "- 1074 \<le> k"
    using round_rat_shape [of a] by metis
  have "(2::rat) powi k = of_int (2 ^ nat (k - - 1074)) * 2 powi (- 1074)"
    using powi2_div [OF mk(2)] by (simp add: field_simps)
  then have "a = of_int (m * 2 ^ nat (k - - 1074)) * 2 powi (- 1074)"
    unfolding mk(1) by simp
  then show ?thesis by blast
qed

text \<open>Two different values of the type differ by at least the smallest subnormal.\<close>

lemma repr_gap: "repr (Fin a) \<Longrightarrow> repr (Fin b) \<Longrightarrow> a < b \<Longrightarrow> 2 powi (- 1074) \<le> b - a"
proof -
  assume r: "repr (Fin a)" "repr (Fin b)" and ab: "a < b"
  obtain i j where ij: "a = of_int i * 2 powi (- 1074)" "b = of_int j * 2 powi (- 1074)"
    using r repr_multiple by metis
  then have "i < j" using ab by simp
  then have "1 \<le> j - i" by simp
  then have "(1::rat) \<le> of_int (j - i)" by (simp only: of_int_1_le_iff)
  then have "1 * (2::rat) powi (- 1074) \<le> of_int (j - i) * 2 powi (- 1074)"
    by (rule mult_right_mono) simp
  then show ?thesis unfolding ij by (simp add: algebra_simps)
qed

lemma f64_sub_pos:
  assumes "repr (Fin a)" "repr (Fin b)" "0 \<le> a" "a < b"
  obtains c where "Fin b - Fin a = Fin c" "0 < c" "c \<le> b" "rnd c = Fin c"
proof -
  have "0 \<le> b - a" "b - a \<le> b" using assms by simp_all
  then obtain c where c: "rnd (b - a) = Fin c" "0 \<le> c" "c \<le> b"
    using rnd_between [of "b - a" b] assms(2) by auto
  have "2 powi (- 1074) \<le> round_rat (b - a)"
    using repr_gap [OF assms(1,2,4)] round_rat_powi [of "- 1074"] by (intro ieee.round_ge_fix) simp_all
  then have "2 powi (- 1074) \<le> c" using rnd_fin [OF c(1)] by simp
  then have "0 < c" by (rule less_le_trans [rotated]) simp
  moreover have "rnd c = Fin c" using c(1) repr_rnd [of "b - a"] by simp
  ultimately show thesis using that c by (simp add: f64)
qed

lemma f64_mult_commute: "x * y = y * (x :: float64)"
  by (cases x; cases y) (simp_all add: f64_ops mult.commute)

section \<open>Conversions and the functions of package math\<close>

definition f64_of_int :: "int \<Rightarrow> float64" where
  "f64_of_int n = rnd (of_int n)"

lemma f64_of_int_mono [f64_mono]: "m \<le> n \<Longrightarrow> f64_of_int m \<le> f64_of_int n"
  by (simp add: f64_of_int_def rnd_mono)

lemma f64_of_int_exact: "\<bar>n\<bar> \<le> 2 ^ 53 \<Longrightarrow> f64_of_int n = Fin (of_int n)"
  by (simp add: f64_of_int_def rnd_int)

lemma repr_of_int [simp]: "repr (f64_of_int n)"
  by (simp add: f64_of_int_def)

text \<open>\<open>math.Floor\<close> and \<open>math.Ceil\<close>: exact on finite values, identity on the others.\<close>

fun math_floor :: "float64 \<Rightarrow> float64" where
  "math_floor (Fin a) = Fin (of_int \<lfloor>a\<rfloor>)"
| "math_floor x = x"

fun math_ceil :: "float64 \<Rightarrow> float64" where
  "math_ceil (Fin a) = Fin (of_int \<lceil>a\<rceil>)"
| "math_ceil x = x"

text \<open>
  What the language and package \<open>math\<close> leave to the platform is a parameter of the model:
  \<open>math.Log\<close> and \<open>math.Pow\<close> (approximations whose last bits depend on the architecture's
  assembly), and the value of a conversion to \<open>int\<close> or \<open>uint64\<close> whose operand does not
  fit (implementation-specific by the language specification).
\<close>

record go_math =
  m_log :: "float64 \<Rightarrow> float64"
  m_pow :: "float64 \<Rightarrow> float64 \<Rightarrow> float64"
  m_int_overflow :: "float64 \<Rightarrow> int64"
  m_uint_overflow :: "float64 \<Rightarrow> uint64"

definition trunc_rat :: "rat \<Rightarrow> int" where
  "trunc_rat a = (if 0 \<le> a then \<lfloor>a\<rfloor> else \<lceil>a\<rceil>)"

definition f64_to_int :: "go_math \<Rightarrow> float64 \<Rightarrow> int64" where
  "f64_to_int m x =
     (case x of
        Fin a \<Rightarrow> if is_int64 (trunc_rat a) then trunc_rat a else m_int_overflow m x
      | _ \<Rightarrow> m_int_overflow m x)"

definition f64_to_uint :: "go_math \<Rightarrow> float64 \<Rightarrow> uint64" where
  "f64_to_uint m x =
     (case x of
        Fin a \<Rightarrow> if 0 \<le> trunc_rat a \<and> trunc_rat a < 2 ^ 64 then word_of_int (trunc_rat a)
                 else m_uint_overflow m x
      | _ \<Rightarrow> m_uint_overflow m x)"

lemma trunc_rat_mono: "a \<le> b \<Longrightarrow> trunc_rat a \<le> trunc_rat b"
  using ceiling_le_zero [of a] by (auto simp: trunc_rat_def floor_mono ceiling_mono intro: order_trans [of _ 0])

end
