(* ===== verification/Clock.thy ===== *)
theory Clock
  imports Float64
begin

text \<open>
  The parts of Go's package \<open>time\<close> the program uses. An instant is an exact number of
  nanoseconds since the Unix epoch; \<open>time.Time{}\<close> is 1 January of year 1. A duration is
  the number of nanoseconds of its \<open>int64\<close>. Monotonic clock readings are not modelled:
  the program compares instants that come from tickers, from object metadata and from
  decoded checkpoints, the last two of which carry none.
\<close>

type_synonym time = int
type_synonym duration = int64

abbreviation Second :: duration where "Second \<equiv> 1000000000"
abbreviation Minute :: duration where "Minute \<equiv> 60 * 1000000000"
abbreviation Hour :: duration where "Hour \<equiv> 3600 * 1000000000"

definition zero_time :: time where
  "zero_time = - 62135596800 * 1000000000"

definition IsZero :: "time \<Rightarrow> bool" where
  "IsZero t \<longleftrightarrow> t = zero_time"

text \<open>\<open>t.Sub(u)\<close> saturates at the ends of \<open>int64\<close>.\<close>

definition time_sub :: "time \<Rightarrow> time \<Rightarrow> duration" where
  "time_sub t u = max (- (2 ^ 63)) (min (2 ^ 63 - 1) (t - u))"

text \<open>\<open>t.UnixNano()\<close> wraps outside the years 1678 to 2262; \<open>time.Unix(0, n)\<close> is exact.\<close>

definition UnixNano :: "time \<Rightarrow> int64" where
  "UnixNano t = wrap64 t"

definition time_Unix :: "int64 \<Rightarrow> time" where
  "time_Unix n = n"

definition Seconds :: "duration \<Rightarrow> float64" where
  "Seconds d = f64_of_int (quot_go d Second) + f64_of_int (rem_go d Second) / Fin 1000000000"

definition Hours :: "duration \<Rightarrow> float64" where
  "Hours d = f64_of_int (quot_go d Hour) + f64_of_int (rem_go d Hour) / Fin (3600 * 1000000000)"

lemma time_sub_pos: "u < t \<Longrightarrow> 0 < time_sub t u"
  by (simp add: time_sub_def)

lemma time_sub_exact: "- (2 ^ 63) \<le> t - u \<Longrightarrow> t - u < 2 ^ 63 \<Longrightarrow> time_sub t u = t - u"
  by (simp add: time_sub_def)

lemma time_sub_int64: "is_int64 (time_sub t u)"
  by (auto simp: time_sub_def in_width_def)

lemma UnixNano_Unix: "is_int64 t \<Longrightarrow> time_Unix (UnixNano t) = t"
  by (simp add: UnixNano_def time_Unix_def go_arith)

subsection \<open>Durations as floats\<close>

text \<open>
  \<open>Seconds\<close> and \<open>Hours\<close> split the duration at the unit \<open>k\<close> and add the two exactly
  represented parts, rounding the fraction and the sum.
\<close>

definition in_units :: "int \<Rightarrow> duration \<Rightarrow> float64" where
  "in_units k d = f64_of_int (quot_go d k) + f64_of_int (rem_go d k) / Fin (of_int k)"

lemma Seconds_in_units: "Seconds d = in_units Second d"
  by (simp add: Seconds_def in_units_def)

lemma Hours_in_units: "Hours d = in_units Hour d"
  by (simp add: Hours_def in_units_def)

lemma in_units_parts:
  assumes k: "1024 \<le> k" "k \<le> 2 ^ 53" and d: "0 \<le> d" "d < 2 ^ 63"
  obtains z where "rnd (of_int (d mod k) / of_int k) = Fin z" "0 \<le> z" "z \<le> 1"
    "in_units k d = rnd (of_int (d div k) + z)"
    "0 \<le> d div k" "d div k + 1 \<le> 2 ^ 53"
proof -
  have q: "0 \<le> d div k" using k d by (simp add: pos_imp_zdiv_nonneg_iff)
  have "d div k \<le> d div 1024" using k d by (intro zdiv_mono2) simp_all
  then have q53: "d div k + 1 \<le> 2 ^ 53" using d by simp
  have r: "0 \<le> d mod k" "d mod k < k" using k by simp_all
  have "(of_int (d mod k) :: rat) \<le> of_int k" using r(2) by (simp only: of_int_le_iff)
  then have "of_int (d mod k) / of_int k \<le> (1::rat)" using k by (simp add: field_simps)
  moreover have "0 \<le> of_int (d mod k) / (of_int k :: rat)" using r k by simp
  ultimately obtain z where z: "rnd (of_int (d mod k) / of_int k) = Fin z" "0 \<le> z" "z \<le> 1"
    using rnd_between [of "of_int (d mod k) / of_int k" 1] by auto
  have qe: "rnd (of_int (d div k)) = Fin (of_int (d div k))"
    using q q53 by (intro rnd_int) simp
  have re: "rnd (of_int (d mod k)) = Fin (of_int (d mod k))"
    using r k by (intro rnd_int) linarith
  have "in_units k d = rnd (of_int (d div k) + z)"
    using k d qe re z by (simp add: in_units_def go_arith f64_of_int_def f64)
  then show thesis using that z q q53 by simp
qed

lemma in_units_bounds:
  assumes k: "1024 \<le> k" "k \<le> 2 ^ 53" and d: "0 \<le> d" "d < 2 ^ 63"
  shows "f64_of_int (d div k) \<le> in_units k d" and "in_units k d \<le> f64_of_int (d div k + 1)"
    and "is_fin (in_units k d)" and "Fin 0 \<le> in_units k d"
proof -
  obtain z where z: "0 \<le> z" "z \<le> 1" "in_units k d = rnd (of_int (d div k) + z)"
    and q: "0 \<le> d div k" "d div k + 1 \<le> 2 ^ 53"
    using assms by (rule in_units_parts)
  show lo: "f64_of_int (d div k) \<le> in_units k d"
    unfolding z(3) f64_of_int_def using z(1) by (intro rnd_mono) simp
  show hi: "in_units k d \<le> f64_of_int (d div k + 1)"
    unfolding z(3) f64_of_int_def using z(2) by (intro rnd_mono) simp
  have e: "f64_of_int (d div k) = Fin (of_int (d div k))"
    "f64_of_int (d div k + 1) = Fin (of_int (d div k + 1))"
    using q by (simp_all only: f64_of_int_exact abs_of_nonneg)
  show "is_fin (in_units k d)" using lo hi unfolding e by (cases "in_units k d") auto
  have "Fin 0 \<le> Fin (of_int (d div k))" using q by simp
  then show "Fin 0 \<le> in_units k d" using lo unfolding e by (rule f64_le_trans)
qed

lemma in_units_mono:
  assumes k: "1024 \<le> k" "k \<le> 2 ^ 53" and d: "0 \<le> d" "d \<le> d'" "d' < 2 ^ 63"
  shows "in_units k d \<le> in_units k d'"
proof (cases "d div k = d' div k")
  case True
  obtain z where z: "rnd (of_int (d mod k) / of_int k) = Fin z" "in_units k d = rnd (of_int (d div k) + z)"
    using k d by (rule_tac in_units_parts [of k d]) auto
  obtain z' where z': "rnd (of_int (d' mod k) / of_int k) = Fin z'" "in_units k d' = rnd (of_int (d' div k) + z')"
    using k d by (rule_tac in_units_parts [of k d']) auto
  have "d mod k \<le> d' mod k" using True d(2) by (metis add_le_cancel_left mult_div_mod_eq)
  then have "of_int (d mod k) / of_int k \<le> (of_int (d' mod k) / of_int k :: rat)"
    using k by (intro divide_right_mono) simp_all
  then have "Fin z \<le> Fin z'" unfolding z(1) [symmetric] z'(1) [symmetric] by (rule rnd_mono)
  then show ?thesis unfolding z(2) z'(2) True by (intro rnd_mono) simp
next
  case False
  moreover have "d div k \<le> d' div k" using k d by (intro zdiv_mono1) simp_all
  ultimately have "f64_of_int (d div k + 1) \<le> f64_of_int (d' div k)" by (intro f64_of_int_mono) simp
  moreover have "in_units k d \<le> f64_of_int (d div k + 1)" using k d by (intro in_units_bounds) simp_all
  moreover have "f64_of_int (d' div k) \<le> in_units k d'" using k d by (intro in_units_bounds) simp_all
  ultimately show ?thesis by (meson f64_le_trans)
qed

lemma Seconds_nonneg: "0 \<le> d \<Longrightarrow> d < 2 ^ 63 \<Longrightarrow> Fin 0 \<le> Seconds d \<and> is_fin (Seconds d)"
  unfolding Seconds_in_units using in_units_bounds [of Second d] by simp

lemma Seconds_mono: "0 \<le> d \<Longrightarrow> d \<le> d' \<Longrightarrow> d' < 2 ^ 63 \<Longrightarrow> Seconds d \<le> Seconds d'"
  unfolding Seconds_in_units by (rule in_units_mono) simp_all

lemma Seconds_pos: "0 < d \<Longrightarrow> d < 2 ^ 63 \<Longrightarrow> Fin 0 < Seconds d"
proof -
  assume d: "0 < d" "d < 2 ^ 63"
  have tiny: "rnd (2 powi (- 30)) = Fin (2 powi (- 30))"
    using round_rat_powi [of "- 30"] by (subst rnd_exact) (simp_all add: f64_limit_def power_int_minus)
  have "Fin (2 powi (- 30)) \<le> rnd (1 / 1000000000)"
    unfolding tiny [symmetric] by (rule rnd_mono) (simp add: power_int_minus)
  moreover have "Seconds 1 = rnd (1 / 1000000000)"
    using rnd_int [of 0] rnd_int [of 1] repr_rnd [of "1 / 1000000000"] 
    by (simp add: Seconds_def go_arith f64_of_int_def f64 f64_add_zero)
  moreover have "Seconds 1 \<le> Seconds d" using d by (intro Seconds_mono) simp_all
  moreover have "Fin 0 < Fin (2 powi (- 30))" by (simp add: power_int_minus)
  ultimately show ?thesis by (metis f64_le_trans f64_less_le_trans)
qed

lemma Hours_nonneg: "0 \<le> d \<Longrightarrow> d < 2 ^ 63 \<Longrightarrow> Fin 0 \<le> Hours d \<and> is_fin (Hours d)"
  unfolding Hours_in_units using in_units_bounds [of Hour d] by simp

lemma Hours_mono: "0 \<le> d \<Longrightarrow> d \<le> d' \<Longrightarrow> d' < 2 ^ 63 \<Longrightarrow> Hours d \<le> Hours d'"
  unfolding Hours_in_units by (rule in_units_mono) simp_all

end
