(* ===== verification/Histogram.thy ===== *)
theory Histogram
  imports Clock
begin

text \<open>
  Package \<open>internal/recommender/histogram\<close>: the decaying exponential histogram and its
  codec. Every method is a function of the same name; a method that changes its receiver
  returns the new record. \<open>math.Log\<close> and \<open>math.Pow\<close> come in through the \<open>go_math\<close>
  argument.
\<close>

section \<open>Options and construction\<close>

record options =
  MaxValue :: float64
  FirstBucketSize :: float64
  BucketRatio :: float64
  HalfLife :: duration
  Epsilon :: float64

definition Validate :: "options \<Rightarrow> go_error option" where
  "Validate a =
     (if MaxValue a \<le> 0 then Some (Err ''MaxValue must be > 0'')
      else if FirstBucketSize a \<le> 0 then Some (Err ''FirstBucketSize must be > 0'')
      else if BucketRatio a \<le> 1 then Some (Err ''BucketRatio must be > 1'')
      else if HalfLife a \<le> 0 then Some (Err ''HalfLife must be > 0'')
      else if Epsilon a < 0 then Some (Err ''Epsilon must be >= 0'')
      else None)"

definition numBuckets :: "go_math \<Rightarrow> options \<Rightarrow> int" where
  "numBuckets m a =
     (let r = BucketRatio a;
          cap = MaxValue a * (r - 1) / FirstBucketSize a;
          n = f64_to_int m (math_ceil (m_log m (cap + 1) / m_log m r))
      in if n < 1 then 1 else n)"

record histogram =
  opts :: options
  h_n :: int
  buckets :: "float64 list"
  totalWeight :: float64
  referenceTime :: time

text \<open>\<open>make([]float64, n)\<close> panics when \<open>8 n\<close> exceeds the \<open>2\<^sup>4\<^sup>8\<close> bytes of address space.\<close>

definition max_slice_len :: int where
  "max_slice_len = 2 ^ 45"

definition New :: "go_math \<Rightarrow> options \<Rightarrow> (go_error + histogram) go" where
  "New m a =
     (case Validate a of
        Some e \<Rightarrow> Ret (Inl e)
      | None \<Rightarrow>
          (let n = numBuckets m a
           in if max_slice_len < n then Panic
              else Ret (Inr \<lparr>opts = a, h_n = n, buckets = replicate (nat n) 0,
                             totalWeight = 0, referenceTime = zero_time\<rparr>)))"

definition BucketCount :: "histogram \<Rightarrow> int" where
  "BucketCount h = h_n h"

text \<open>The accessors; \<open>Buckets\<close> hands out a copy.\<close>

definition Options :: "histogram \<Rightarrow> options" where
  [simp]: "Options h = opts h"

definition Buckets :: "histogram \<Rightarrow> float64 list" where
  [simp]: "Buckets h = buckets h"

definition ReferenceTime :: "histogram \<Rightarrow> time" where
  [simp]: "ReferenceTime h = referenceTime h"

definition TotalWeight :: "histogram \<Rightarrow> float64" where
  [simp]: "TotalWeight h = totalWeight h"

section \<open>Buckets\<close>

definition BucketIndex :: "go_math \<Rightarrow> histogram \<Rightarrow> float64 \<Rightarrow> int" where
  "BucketIndex m h value =
     (if value \<le> 0 then 0
      else
        (let r = BucketRatio (opts h);
             idx = f64_to_int m (math_floor
                     (m_log m (value * (r - 1) / FirstBucketSize (opts h) + 1) / m_log m r))
         in if idx < 0 then 0
            else if h_n h \<le> idx then h_n h - 1
            else idx))"

definition BucketStart :: "go_math \<Rightarrow> histogram \<Rightarrow> int \<Rightarrow> float64" where
  "BucketStart m h k =
     (if k \<le> 0 then 0
      else
        (let r = BucketRatio (opts h)
         in FirstBucketSize (opts h) * (m_pow m r (f64_of_int k) - 1) / (r - 1)))"

section \<open>Samples and decay\<close>

definition shiftReference :: "go_math \<Rightarrow> histogram \<Rightarrow> time \<Rightarrow> histogram" where
  "shiftReference m h t =
     (if IsZero (referenceTime h) then h\<lparr>referenceTime := t\<rparr>
      else if \<not> referenceTime h < t then h
      else
        (let dt = Seconds (time_sub t (referenceTime h));
             half = Seconds (HalfLife (opts h))
         in if half \<le> 0 then h
            else
              (let factor = m_pow m (Fin (1 / 2)) (dt / half)
               in h\<lparr>buckets := map (\<lambda>b. b * factor) (buckets h),
                    totalWeight := totalWeight h * factor,
                    referenceTime := t\<rparr>)))"

definition Decay :: "go_math \<Rightarrow> histogram \<Rightarrow> time \<Rightarrow> histogram" where
  "Decay m h t = shiftReference m h t"

definition AddSample :: "go_math \<Rightarrow> histogram \<Rightarrow> float64 \<Rightarrow> float64 \<Rightarrow> time \<Rightarrow> histogram go" where
  "AddSample m h value weight sampleTime =
     (if weight \<le> 0 then Ret h
      else
        (let h1 = shiftReference m h sampleTime;
             idx = BucketIndex m h1 value
         in go_bind (slice_update (buckets h1) idx (\<lambda>b. b + weight))
              (\<lambda>bs. Ret (h1\<lparr>buckets := bs, totalWeight := totalWeight h1 + weight\<rparr>))))"

section \<open>Percentiles\<close>

text \<open>The loop of \<open>Percentile\<close> from bucket \<open>i\<close> on, with the weight \<open>cum\<close> of the buckets before it.\<close>

fun percentile_loop ::
  "go_math \<Rightarrow> histogram \<Rightarrow> float64 \<Rightarrow> int \<Rightarrow> float64 \<Rightarrow> float64 list \<Rightarrow> float64" where
  "percentile_loop m h target i cum [] = MaxValue (opts h)"
| "percentile_loop m h target i cum (w # ws) =
     (let cum' = cum + w
      in if target \<le> cum'
         then (if i = h_n h - 1 then MaxValue (opts h) else BucketStart m h (i + 1))
         else percentile_loop m h target (i + 1) cum' ws)"

definition clamp_percentile :: "float64 \<Rightarrow> float64" where
  "clamp_percentile p = (if p < 0 then 0 else if Fin 100 < p then Fin 100 else p)"

definition Percentile :: "go_math \<Rightarrow> histogram \<Rightarrow> float64 \<Rightarrow> float64" where
  "Percentile m h p =
     (let p = clamp_percentile p
      in if totalWeight h \<le> 0 then 0
         else percentile_loop m h (totalWeight h * (p / Fin 100)) 0 0 (buckets h))"

definition IsEmpty :: "histogram \<Rightarrow> bool" where
  "IsEmpty h \<longleftrightarrow> totalWeight h \<le> 0"

section \<open>Merging and loading\<close>

text \<open>
  \<open>h.opts != other.opts\<close> compares the structs field by field with \<open>float64\<close> equality, which
  is false on \<open>NaN\<close>.
\<close>

definition f64_eq :: "float64 \<Rightarrow> float64 \<Rightarrow> bool" where
  "f64_eq x y \<longleftrightarrow> x = y \<and> x \<noteq> NaN"

definition opts_eq :: "options \<Rightarrow> options \<Rightarrow> bool" where
  "opts_eq a b \<longleftrightarrow>
     f64_eq (MaxValue a) (MaxValue b) \<and> f64_eq (FirstBucketSize a) (FirstBucketSize b) \<and>
     f64_eq (BucketRatio a) (BucketRatio b) \<and> HalfLife a = HalfLife b \<and>
     f64_eq (Epsilon a) (Epsilon b)"

text \<open>\<open>for i := range a { a[i] += b[i] }\<close> panics when \<open>b\<close> is the shorter slice.\<close>

fun add_slices :: "float64 list \<Rightarrow> float64 list \<Rightarrow> float64 list go" where
  "add_slices [] bs = Ret []"
| "add_slices (a # as) [] = Panic"
| "add_slices (a # as) (b # bs) = go_bind (add_slices as bs) (\<lambda>cs. Ret ((a + b) # cs))"

definition Merge :: "go_math \<Rightarrow> histogram \<Rightarrow> histogram \<Rightarrow> (go_error option \<times> histogram) go" where
  "Merge m h other =
     (if \<not> opts_eq (opts h) (opts other) then
        Ret (Some (Err ''incompatible histogram options''), h)
      else
        (let t = (if referenceTime h < referenceTime other then referenceTime other
                  else referenceTime h);
             h1 = shiftReference m h t;
             cp = shiftReference m other t
         in go_bind (add_slices (buckets h1) (buckets cp))
              (\<lambda>bs. Ret (None, h1\<lparr>buckets := bs, totalWeight := totalWeight h1 + totalWeight cp\<rparr>))))"

definition LoadBuckets ::
  "histogram \<Rightarrow> float64 list \<Rightarrow> float64 \<Rightarrow> time \<Rightarrow> go_error option \<times> histogram" where
  "LoadBuckets h b tw ref =
     (if int (length b) \<noteq> h_n h then (Some (Err ''bucket count mismatch''), h)
      else (None, h\<lparr>buckets := take (length (buckets h)) b @ drop (length b) (buckets h),
                    totalWeight := tw, referenceTime := ref\<rparr>))"

section \<open>Default options\<close>

definition DefaultCPUOptions :: options where
  "DefaultCPUOptions =
     \<lparr>MaxValue = Fin 1000, FirstBucketSize = rnd (1 / 100), BucketRatio = rnd (105 / 100),
      HalfLife = 24 * Hour, Epsilon = rnd (1 / 1000000)\<rparr>"

definition DefaultMemoryOptions :: options where
  "DefaultMemoryOptions =
     \<lparr>MaxValue = Fin (2 ^ 40), FirstBucketSize = Fin (2 ^ 20), BucketRatio = rnd (105 / 100),
      HalfLife = 24 * Hour, Epsilon = rnd (1 / 1000000)\<rparr>"

section \<open>Codec\<close>

text \<open>
  \<open>encoding/gob\<close> and \<open>encoding/base64\<close> are a parameter: \<open>gob\<close> turns a value into bytes or
  an error and back, \<open>base64\<close> turns bytes into text and back.
\<close>

record checkpoint =
  ck_MaxValue :: float64
  ck_FirstBucketSize :: float64
  ck_BucketRatio :: float64
  ck_HalfLifeNS :: int64
  ck_Epsilon :: float64
  ck_Buckets :: "float64 list"
  ck_TotalWeight :: float64
  ck_ReferenceUnixNS :: int64

record 'v codec =
  gob_encode :: "'v \<Rightarrow> go_error + string"
  gob_decode :: "string \<Rightarrow> go_error + 'v"
  base64_encode :: "string \<Rightarrow> string"
  base64_decode :: "string \<Rightarrow> go_error + string"

definition checkpoint_of :: "histogram \<Rightarrow> checkpoint" where
  "checkpoint_of h =
     \<lparr>ck_MaxValue = MaxValue (opts h), ck_FirstBucketSize = FirstBucketSize (opts h),
      ck_BucketRatio = BucketRatio (opts h), ck_HalfLifeNS = HalfLife (opts h),
      ck_Epsilon = Epsilon (opts h), ck_Buckets = Buckets h, ck_TotalWeight = totalWeight h,
      ck_ReferenceUnixNS = UnixNano (referenceTime h)\<rparr>"

definition Encode :: "checkpoint codec \<Rightarrow> histogram \<Rightarrow> go_error + string" where
  "Encode c h =
     (case gob_encode c (checkpoint_of h) of
        Inl e \<Rightarrow> Inl e
      | Inr b \<Rightarrow> Inr (base64_encode c b))"

definition checkpoint_options :: "checkpoint \<Rightarrow> options" where
  "checkpoint_options cp =
     \<lparr>MaxValue = ck_MaxValue cp, FirstBucketSize = ck_FirstBucketSize cp,
      BucketRatio = ck_BucketRatio cp, HalfLife = ck_HalfLifeNS cp, Epsilon = ck_Epsilon cp\<rparr>"

definition Decode :: "go_math \<Rightarrow> checkpoint codec \<Rightarrow> string \<Rightarrow> (go_error + histogram) go" where
  "Decode m c s =
     (case base64_decode c s of
        Inl e \<Rightarrow> Ret (Inl e)
      | Inr raw \<Rightarrow>
          (case gob_decode c raw of
             Inl e \<Rightarrow> Ret (Inl e)
           | Inr cp \<Rightarrow>
               go_bind (New m (checkpoint_options cp))
                 (\<lambda>r. case r of
                    Inl e \<Rightarrow> Ret (Inl e)
                  | Inr h \<Rightarrow>
                      (case LoadBuckets h (ck_Buckets cp) (ck_TotalWeight cp)
                              (time_Unix (ck_ReferenceUnixNS cp)) of
                         (Some e, _) \<Rightarrow> Ret (Inl e)
                       | (None, h') \<Rightarrow> Ret (Inr h')))))"

section \<open>Well-formedness\<close>

definition wf_hist :: "go_math \<Rightarrow> histogram \<Rightarrow> bool" where
  "wf_hist m h \<longleftrightarrow> h_n h = numBuckets m (opts h) \<and> int (length (buckets h)) = h_n h"

fun weight_ok :: "float64 \<Rightarrow> bool" where
  "weight_ok (Fin a) = (0 \<le> a \<and> rnd a = Fin a)"
| "weight_ok _ = False"

definition weights_ok :: "histogram \<Rightarrow> bool" where
  "weights_ok h \<longleftrightarrow> list_all weight_ok (buckets h) \<and> weight_ok (totalWeight h)"

lemma weight_okD: "weight_ok x \<Longrightarrow> \<exists>a. x = Fin a \<and> 0 \<le> a \<and> rnd a = Fin a"
  by (cases x) simp_all

lemma numBuckets_ge_1: "1 \<le> numBuckets m a"
  by (simp add: numBuckets_def Let_def)

lemma wf_hist_n: "wf_hist m h \<Longrightarrow> 1 \<le> h_n h \<and> int (length (buckets h)) = h_n h"
  using numBuckets_ge_1 by (simp add: wf_hist_def)

lemma New_cases:
  "New m a = Ret (Inr h) \<longleftrightarrow>
     Validate a = None \<and> numBuckets m a \<le> max_slice_len \<and>
     h = \<lparr>opts = a, h_n = numBuckets m a, buckets = replicate (nat (numBuckets m a)) 0,
          totalWeight = 0, referenceTime = zero_time\<rparr>"
  by (auto simp: New_def Let_def split: option.splits)

lemma New_wf:
  assumes "New m a = Ret (Inr h)"
  shows "wf_hist m h" and "weights_ok h" and "opts h = a" and "IsEmpty h"
  using assms numBuckets_ge_1 [of m a]
  by (auto simp: New_cases wf_hist_def weights_ok_def list_all_iff f64 IsEmpty_def)

lemma BucketIndex_bounds:
  "1 \<le> h_n h \<Longrightarrow> 0 \<le> BucketIndex m h v \<and> BucketIndex m h v < h_n h"
  by (auto simp: BucketIndex_def Let_def)

lemma shiftReference_frame [simp]:
  "opts (shiftReference m h t) = opts h" "h_n (shiftReference m h t) = h_n h"
  "length (buckets (shiftReference m h t)) = length (buckets h)"
  by (simp_all add: shiftReference_def Let_def)

lemma shiftReference_wf [wf_preserve]: "wf_hist m h \<Longrightarrow> wf_hist m (shiftReference m h t)"
  by (simp add: wf_hist_def)

lemma AddSample_eq:
  assumes "wf_hist m h" "\<not> w \<le> 0"
  shows "AddSample m h v w t =
    (let h1 = shiftReference m h t; i = nat (BucketIndex m h1 v)
     in Ret (h1\<lparr>buckets := (buckets h1)[i := buckets h1 ! i + w],
                totalWeight := totalWeight h1 + w\<rparr>))"
proof -
  let ?h = "shiftReference m h t"
  have "wf_hist m ?h" using assms(1) by (rule shiftReference_wf)
  then have "0 \<le> BucketIndex m ?h v" "BucketIndex m ?h v < int (length (buckets ?h))"
    using BucketIndex_bounds [of ?h m v] wf_hist_n by force+
  with assms(2) show ?thesis by (simp add: AddSample_def Let_def)
qed

lemma AddSample_returns:
  assumes "wf_hist m h"
  shows "\<exists>h'. AddSample m h v w t = Ret h' \<and> wf_hist m h' \<and> opts h' = opts h"
proof (cases "w \<le> 0")
  case True
  then show ?thesis using assms by (simp add: AddSample_def)
next
  case False
  then show ?thesis using assms by (simp add: AddSample_eq Let_def wf_hist_def)
qed

lemma add_slices_eq:
  "length as \<le> length bs \<Longrightarrow> add_slices as bs = Ret (map2 (+) as bs)"
  by (induction as bs rule: add_slices.induct) simp_all

lemma opts_eq_imp_eq: "opts_eq a b \<Longrightarrow> a = b"
  by (cases a; cases b) (simp add: opts_eq_def f64_eq_def)

definition merge_time :: "histogram \<Rightarrow> histogram \<Rightarrow> time" where
  "merge_time h g = max (referenceTime h) (referenceTime g)"

lemma Merge_eq:
  assumes "wf_hist m h" "wf_hist m g" "opts_eq (opts h) (opts g)"
  shows "Merge m h g =
    (let h1 = shiftReference m h (merge_time h g); g1 = shiftReference m g (merge_time h g)
     in Ret (None, h1\<lparr>buckets := map2 (+) (buckets h1) (buckets g1),
                      totalWeight := totalWeight h1 + totalWeight g1\<rparr>))"
proof -
  have "length (buckets h) = length (buckets g)"
    using assms opts_eq_imp_eq [OF assms(3)] by (simp add: wf_hist_def)
  moreover have "(if referenceTime h < referenceTime g then referenceTime g else referenceTime h)
      = merge_time h g" by (simp add: merge_time_def)
  ultimately show ?thesis using assms(3) by (simp add: Merge_def Let_def add_slices_eq)
qed

lemma Merge_returns:
  assumes "wf_hist m h" "wf_hist m g"
  shows "\<exists>h'. Merge m h g = Ret (if opts_eq (opts h) (opts g) then None
                 else Some (Err ''incompatible histogram options''), h')
           \<and> wf_hist m h' \<and> opts h' = opts h"
proof (cases "opts_eq (opts h) (opts g)")
  case True
  have "int (length (buckets g)) = h_n h" 
    using assms opts_eq_imp_eq [OF True] by (simp add: wf_hist_def)
  with True show ?thesis using assms by (simp add: Merge_eq Let_def wf_hist_def)
next
  case False
  then show ?thesis using assms by (simp add: Merge_def)
qed

lemma LoadBuckets_ok:
  "int (length (buckets h)) = h_n h \<Longrightarrow> int (length b) = h_n h \<Longrightarrow>
   LoadBuckets h b tw ref = (None, h\<lparr>buckets := b, totalWeight := tw, referenceTime := ref\<rparr>)"
  by (simp add: LoadBuckets_def)

lemma checkpoint_options_of [simp]: "checkpoint_options (checkpoint_of h) = opts h"
  by (simp add: checkpoint_options_def checkpoint_of_def)

lemma Validate_defaults: "Validate DefaultCPUOptions = None" "Validate DefaultMemoryOptions = None"
  by code_simp+

lemma Decode_wf [wf_preserve]:
  assumes "Decode m c s = Ret (Inr h)"
  shows "wf_hist m h"
proof -
  obtain cp h0 where n: "New m (checkpoint_options cp) = Ret (Inr h0)"
    and l: "LoadBuckets h0 (ck_Buckets cp) (ck_TotalWeight cp) (time_Unix (ck_ReferenceUnixNS cp)) = (None, h)"
    using assms
    by (auto simp: Decode_def elim!: go_bind_RetE split: sum.split_asm option.split_asm prod.split_asm)
  have "wf_hist m h0" using New_wf [OF n] by simp
  moreover have "int (length (ck_Buckets cp)) = h_n h0"
    using l by (simp add: LoadBuckets_def split: if_splits)
  ultimately show ?thesis using l LoadBuckets_ok by (auto simp: wf_hist_def)
qed

definition codec_ok :: "'v codec \<Rightarrow> 'v \<Rightarrow> bool" where
  "codec_ok c v \<longleftrightarrow>
     (\<exists>b. gob_encode c v = Inr b \<and> gob_decode c b = Inr v \<and>
          base64_decode c (base64_encode c b) = Inr b)"

lemma Decode_Encode:
  assumes "wf_hist m h" "Validate (opts h) = None" "h_n h \<le> max_slice_len"
    and "codec_ok c (checkpoint_of h)"
  obtains s where "Encode c h = Inr s"
    "Decode m c s = Ret (Inr (h\<lparr>referenceTime := time_Unix (UnixNano (referenceTime h))\<rparr>))"
proof -
  obtain b where b: "gob_encode c (checkpoint_of h) = Inr b" "gob_decode c b = Inr (checkpoint_of h)"
    "base64_decode c (base64_encode c b) = Inr b"
    using assms(4) by (auto simp: codec_ok_def)
  let ?h0 = "\<lparr>opts = opts h, h_n = h_n h, buckets = replicate (nat (h_n h)) 0,
               totalWeight = 0, referenceTime = zero_time\<rparr>"
  have n: "h_n h = numBuckets m (opts h)" "int (length (buckets h)) = h_n h" "1 \<le> h_n h"
    using assms(1) wf_hist_n by (auto simp: wf_hist_def)
  have new: "New m (opts h) = Ret (Inr ?h0)"
    using assms(2,3) n by (simp add: New_cases)
  have load: "LoadBuckets ?h0 (buckets h) (totalWeight h) (time_Unix (UnixNano (referenceTime h)))
      = (None, ?h0\<lparr>buckets := buckets h, totalWeight := totalWeight h,
                   referenceTime := time_Unix (UnixNano (referenceTime h))\<rparr>)"
    using n by (intro LoadBuckets_ok) simp_all
  have "Decode m c (base64_encode c b)
      = Ret (Inr (h\<lparr>referenceTime := time_Unix (UnixNano (referenceTime h))\<rparr>))"
    using b new load by (simp add: Decode_def) (simp add: checkpoint_of_def)
  moreover have "Encode c h = Inr (base64_encode c b)" using b by (simp add: Encode_def)
  ultimately show thesis by (rule that [rotated])
qed

section \<open>Decay\<close>

text \<open>
  What the decay relies on of \<open>math.Pow\<close>: for a non-negative exponent, \<open>Pow(0.5, y)\<close> lies
  between zero and one.
\<close>

definition pow_half_law :: "go_math \<Rightarrow> bool" where
  "pow_half_law m \<longleftrightarrow>
     (\<forall>y. Fin 0 \<le> y \<longrightarrow> (\<exists>f. m_pow m (Fin (1 / 2)) y = Fin f \<and> 0 \<le> f \<and> f \<le> 1))"

lemma weight_ok_scale:
  assumes "weight_ok x" "0 \<le> f" "f \<le> 1"
  shows "weight_ok (x * Fin f) \<and> x * Fin f \<le> x"
proof -
  obtain a where a: "x = Fin a" "0 \<le> a" "rnd a = Fin a" using weight_okD [OF assms(1)] by blast
  have "0 \<le> a * f" "a * f \<le> a" using a assms by (simp_all add: mult_left_le)
  then obtain z where "rnd (a * f) = Fin z" "0 \<le> z" "z \<le> a" using rnd_between a(3) by blast
  then show ?thesis using a repr_rnd [of "a * f"] by (simp add: f64)
qed

lemma shiftReference_scales:
  assumes "pow_half_law m" "0 < HalfLife (opts h)" "HalfLife (opts h) < 2 ^ 63"
  obtains f where "0 \<le> f" "f \<le> 1"
    "shiftReference m h t = h\<lparr>buckets := buckets (shiftReference m h t),
       totalWeight := totalWeight (shiftReference m h t),
       referenceTime := (if IsZero (referenceTime h) \<or> referenceTime h < t then t else referenceTime h)\<rparr>"
    "\<not> IsZero (referenceTime h) \<Longrightarrow> referenceTime h < t \<Longrightarrow>
       buckets (shiftReference m h t) = map (\<lambda>b. b * Fin f) (buckets h) \<and>
       totalWeight (shiftReference m h t) = totalWeight h * Fin f"
    "IsZero (referenceTime h) \<or> t \<le> referenceTime h \<Longrightarrow>
       buckets (shiftReference m h t) = buckets h \<and>
       totalWeight (shiftReference m h t) = totalWeight h"
proof (cases "\<not> IsZero (referenceTime h) \<and> referenceTime h < t")
  case False
  then show ?thesis by (intro that [of 1]) (auto simp: shiftReference_def)
next
  case True
  let ?dt = "Seconds (time_sub t (referenceTime h))" and ?half = "Seconds (HalfLife (opts h))"
  have d: "0 \<le> time_sub t (referenceTime h)" "time_sub t (referenceTime h) < 2 ^ 63"
    using True by (simp_all add: time_sub_def)
  obtain b where b: "?half = Fin b" "0 < b"
    using Seconds_pos [OF assms(2,3)] Seconds_nonneg [of "HalfLife (opts h)"] assms(2,3) by auto
  have "Fin 0 \<le> ?dt / ?half"
  proof -
    obtain a where a: "?dt = Fin a" "0 \<le> a" using Seconds_nonneg [OF d] by auto
    then have "0 \<le> a / b" using b by simp
    then show ?thesis using a b by (simp add: f64 rnd_nonneg)
  qed
  then obtain f where f: "m_pow m (Fin (1 / 2)) (?dt / ?half) = Fin f" "0 \<le> f" "f \<le> 1"
    using assms(1) by (auto simp: pow_half_law_def)
  have "\<not> ?half \<le> 0" using b by (simp add: f64)
  with True f show ?thesis
    by (intro that [of f]) (auto simp: shiftReference_def Let_def)
qed

lemma shiftReference_weights [wf_preserve]:
  assumes "pow_half_law m" "0 < HalfLife (opts h)" "HalfLife (opts h) < 2 ^ 63" "weights_ok h"
  shows "weights_ok (shiftReference m h t)"
    and "totalWeight (shiftReference m h t) \<le> totalWeight h"
    and "list_all2 (\<le>) (buckets (shiftReference m h t)) (buckets h)"
proof -
  obtain f where f: "0 \<le> f" "f \<le> 1"
    and s: "\<not> IsZero (referenceTime h) \<Longrightarrow> referenceTime h < t \<Longrightarrow>
       buckets (shiftReference m h t) = map (\<lambda>b. b * Fin f) (buckets h) \<and>
       totalWeight (shiftReference m h t) = totalWeight h * Fin f"
    and u: "IsZero (referenceTime h) \<or> t \<le> referenceTime h \<Longrightarrow>
       buckets (shiftReference m h t) = buckets h \<and>
       totalWeight (shiftReference m h t) = totalWeight h"
    using shiftReference_scales [OF assms(1,2,3)] by metis
  have ok: "weight_ok (totalWeight h)" "\<And>b. b \<in> set (buckets h) \<Longrightarrow> weight_ok b"
    using assms(4) by (auto simp: weights_ok_def list_all_iff)
  have refl: "x \<le> x" if "weight_ok x" for x using that by (cases x) simp_all
  have "weights_ok (shiftReference m h t) \<and> totalWeight (shiftReference m h t) \<le> totalWeight h
      \<and> list_all2 (\<le>) (buckets (shiftReference m h t)) (buckets h)"
  proof (cases "\<not> IsZero (referenceTime h) \<and> referenceTime h < t")
    case True
    with s ok f show ?thesis
      by (auto simp: weights_ok_def list_all_iff list_all2_map1 list.rel_refl_strong
          intro!: weight_ok_scale [THEN conjunct1] weight_ok_scale [THEN conjunct2] list.rel_refl_strong)
  next
    case False
    then show ?thesis using u ok refl assms(4) by (auto simp: weights_ok_def intro!: list.rel_refl_strong)
  qed
  then show "weights_ok (shiftReference m h t)"
    and "totalWeight (shiftReference m h t) \<le> totalWeight h"
    and "list_all2 (\<le>) (buckets (shiftReference m h t)) (buckets h)" by simp_all
qed

section \<open>Monotone bucket placement\<close>

text \<open>
  What placement relies on of \<open>math.Log\<close>: on arguments from one upwards it is monotone,
  zero at one and at most 710 (the logarithm of the largest float), and on a ratio above
  one it is at least \<open>2\<^sup>-\<^sup>5\<^sup>3\<close>.
\<close>

definition log_law :: "go_math \<Rightarrow> bool" where
  "log_law m \<longleftrightarrow>
     m_log m (Fin 1) = Fin 0 \<and>
     (\<forall>x y. repr x \<longrightarrow> repr y \<longrightarrow> Fin 1 \<le> x \<longrightarrow> x \<le> y \<longrightarrow> m_log m x \<le> m_log m y) \<and>
     (\<forall>a. 1 \<le> a \<longrightarrow> repr (Fin a) \<longrightarrow> m_log m (Fin a) \<le> Fin 710) \<and>
     (\<forall>r. 1 < r \<longrightarrow> repr (Fin r) \<longrightarrow> Fin (2 powi (- 53)) \<le> m_log m (Fin r))"

lemma log_law_fin:
  "log_law m \<Longrightarrow> 1 \<le> a \<Longrightarrow> repr (Fin a) \<Longrightarrow> \<exists>l. m_log m (Fin a) = Fin l \<and> 0 \<le> l \<and> l \<le> 710"
proof -
  assume m: "log_law m" and a: "1 \<le> a" "repr (Fin a)"
  have "\<And>x y. repr x \<Longrightarrow> repr y \<Longrightarrow> Fin 1 \<le> x \<Longrightarrow> x \<le> y \<Longrightarrow> m_log m x \<le> m_log m y"
    using m unfolding log_law_def by blast
  then have "m_log m (Fin 1) \<le> m_log m (Fin a)" using a by simp
  then have "Fin 0 \<le> m_log m (Fin a)" using m by (simp add: log_law_def)
  moreover have "m_log m (Fin a) \<le> Fin 710" using m a by (simp add: log_law_def)
  ultimately show ?thesis by (cases "m_log m (Fin a)") auto
qed

text \<open>The position of a sample before it is cut to the range of buckets.\<close>

definition log_position :: "go_math \<Rightarrow> options \<Rightarrow> float64 \<Rightarrow> float64" where
  "log_position m a x = m_log m x / m_log m (BucketRatio a)"

lemma log_position_int:
  assumes "log_law m" "BucketRatio a = Fin r" "1 < r" "repr (Fin r)" "1 \<le> x" "repr (Fin x)"
  obtains q where "log_position m a (Fin x) = Fin q" "0 \<le> q" "is_int64 \<lfloor>q\<rfloor>"
proof -
  obtain l where l: "m_log m (Fin x) = Fin l" "0 \<le> l" "l \<le> 710" using log_law_fin assms by blast
  obtain k where k: "m_log m (Fin r) = Fin k" using log_law_fin [OF assms(1), of r] assms by force
  have kk: "2 powi (- 53) \<le> k" using assms k by (auto simp: log_law_def)
  then have k0: "0 < k" by (rule less_le_trans [rotated]) simp
  have "l / k \<le> 710 / 2 powi (- 53)" using l kk by (intro frac_le) simp_all
  then have le: "l / k \<le> of_int (710 * 2 ^ 53)" by (simp add: power_int_minus)
  have "rnd (of_int (710 * 2 ^ 53)) = Fin (of_int (710 * 2 ^ 53))"
  proof -
    have "round_rat (of_int (710 * 2 ^ 53)) = of_int (710 * 2 ^ 53)"
      using round_rat_exact [of 710 53] by simp
    then show ?thesis by (subst rnd_exact) (simp_all add: f64_limit_def)
  qed
  then obtain z where z: "rnd (l / k) = Fin z" "0 \<le> z" "z \<le> of_int (710 * 2 ^ 53)"
    using rnd_between [of "l / k"] le l k0 by (metis divide_nonneg_pos)
  have "\<lfloor>z\<rfloor> \<le> 710 * 2 ^ 53" using z(3) by (simp add: floor_le_iff)
  then have "is_int64 \<lfloor>z\<rfloor>" using z(2) by (auto simp: in_width_def intro: order_trans [of _ 0])
  then show thesis using that [of z] z l k k0 assms(2) by (simp add: log_position_def f64)
qed

lemma log_position_mono:
  assumes "log_law m" "BucketRatio a = Fin r" "1 < r" "Fin 1 \<le> x" "x \<le> y"
    and "repr (Fin r)" "repr x" "repr y"
  shows "log_position m a x \<le> log_position m a y"
proof -
  obtain k where k: "m_log m (Fin r) = Fin k" using log_law_fin [OF assms(1), of r] assms by force
  have "2 powi (- 53) \<le> k" using assms k by (auto simp: log_law_def)
  then have k0: "0 < k" by (rule less_le_trans [rotated]) simp
  have "m_log m x \<le> m_log m y" using assms by (auto simp: log_law_def)
  then show ?thesis using k k0 assms(2) by (simp add: log_position_def f64_div_mono)
qed

text \<open>Finite, valid shape parameters.\<close>

definition shape_ok :: "options \<Rightarrow> bool" where
  "shape_ok a \<longleftrightarrow>
     (case (FirstBucketSize a, BucketRatio a) of
        (Fin f, Fin r) \<Rightarrow> 0 < f \<and> 1 < r \<and> rnd f = Fin f \<and> rnd r = Fin r
      | _ \<Rightarrow> False)"

lemma shape_okD:
  assumes "shape_ok a"
  obtains f r c where "FirstBucketSize a = Fin f" "BucketRatio a = Fin r" "0 < f" "1 < r"
    "repr (Fin f)" "repr (Fin r)" "Fin r - 1 = Fin c" "0 < c"
proof -
  obtain f r where fr: "FirstBucketSize a = Fin f" "BucketRatio a = Fin r" "0 < f" "1 < r"
    "repr (Fin f)" "repr (Fin r)"
    using assms by (auto simp: shape_ok_def split: float64.splits)
  obtain c where "Fin r - Fin 1 = Fin c" "0 < c" using f64_sub_pos [of 1 r] fr by auto
  then show thesis using that fr by (simp add: f64)
qed

definition bucket_arg :: "options \<Rightarrow> float64 \<Rightarrow> float64" where
  "bucket_arg a v = v * (BucketRatio a - 1) / FirstBucketSize a + 1"

lemma bucket_arg_mono:
  assumes "shape_ok a" "Fin 0 \<le> v" "v \<le> v'"
  shows "Fin 1 \<le> bucket_arg a v" and "bucket_arg a v \<le> bucket_arg a v'"
proof -
  obtain f r c where s: "FirstBucketSize a = Fin f" "BucketRatio a = Fin r" "0 < f"
    "Fin r - 1 = Fin c" "0 < c" using shape_okD [OF assms(1)] by metis
  have v: "v * Fin c / Fin f \<le> v' * Fin c / Fin f"
    using assms s by (intro f64_div_mono f64_mult_mono_pos) simp_all
  have z: "Fin 0 \<le> v * Fin c / Fin f"
  proof -
    have "Fin 0 * Fin c \<le> v * Fin c" using assms s by (intro f64_mult_mono_pos) simp_all
    then have "Fin 0 \<le> v * Fin c" by (simp add: f64)
    then have "Fin 0 / Fin f \<le> v * Fin c / Fin f" using s by (intro f64_div_mono)
    then show ?thesis using s by (simp add: f64)
  qed
  have "Fin 0 + Fin 1 \<le> v * Fin c / Fin f + Fin 1"
    using z by (intro f64_add_mono) simp_all
  then show "Fin 1 \<le> bucket_arg a v" using s by (simp add: bucket_arg_def f64 f64_add_zero)
  show "bucket_arg a v \<le> bucket_arg a v'"
    unfolding bucket_arg_def s using v z s by (simp add: f64_consts(2) f64_add_mono)
qed

lemma BucketIndex_pos:
  "\<not> v \<le> 0 \<Longrightarrow> BucketIndex m h v =
     (let idx = f64_to_int m (math_floor (log_position m (opts h) (bucket_arg (opts h) v)))
      in if idx < 0 then 0 else if h_n h \<le> idx then h_n h - 1 else idx)"
  by (simp add: BucketIndex_def log_position_def bucket_arg_def Let_def)

lemma BucketIndex_mono_aux:
  assumes m: "log_law m" and a: "shape_ok (opts h)" and n: "1 \<le> h_n h"
    and v: "v \<le> v'" and fin: "is_fin (bucket_arg (opts h) v')"
  shows "BucketIndex m h v \<le> BucketIndex m h v'"
proof (cases "v \<le> 0")
  case True
  then have "BucketIndex m h v = 0" by (simp add: BucketIndex_def)
  then show ?thesis using BucketIndex_bounds [OF n, of m v'] by simp
next
  case False
  have num: "v \<noteq> NaN" "v' \<noteq> NaN" using v f64_le_imp_num by auto
  then have pos: "Fin 0 < v" using False by (simp add: f64_not_le f64_consts)
  then have v0: "Fin 0 \<le> v" by (rule f64_less_imp_le)
  have "Fin 0 < v'" using pos v by (rule f64_less_le_trans)
  then have F': "\<not> v' \<le> 0" using num by (simp add: f64_not_le f64_consts)
  obtain r where r: "BucketRatio (opts h) = Fin r" "1 < r" "repr (Fin r)" using shape_okD [OF a] by metis
  let ?x = "bucket_arg (opts h) v" and ?y = "bucket_arg (opts h) v'"
  have xy: "Fin 1 \<le> ?x" "?x \<le> ?y" using bucket_arg_mono [OF a v0 v] by simp_all
  obtain y where y: "?y = Fin y" using fin by blast
  then obtain x where x: "?x = Fin x" "1 \<le> x" "x \<le> y" using xy by (cases ?x) auto
  have rep: "repr ?x" "repr ?y" by (simp_all add: bucket_arg_def)
  then have rx: "repr (Fin x)" and ry: "repr (Fin y)" using x(1) y by simp_all
  obtain p where p: "log_position m (opts h) ?x = Fin p" "0 \<le> p" "is_int64 \<lfloor>p\<rfloor>"
    using log_position_int [OF m r x(2) rx] x(1) by metis
  obtain q where q: "log_position m (opts h) ?y = Fin q" "0 \<le> q" "is_int64 \<lfloor>q\<rfloor>"
    using log_position_int [OF m r _ ry] x y by (metis order_trans)
  have "Fin p \<le> Fin q" using log_position_mono [OF m r(1,2) xy r(3) rep] p q by simp
  then have "\<lfloor>p\<rfloor> \<le> \<lfloor>q\<rfloor>" by (simp add: floor_mono)
  then show ?thesis
    using p q by (simp add: BucketIndex_pos False F' f64_to_int_def trunc_rat_def Let_def)
qed

section \<open>Percentiles\<close>

text \<open>The value reported for bucket \<open>i\<close>: its upper edge, or \<open>MaxValue\<close> for the last bucket.\<close>

definition upper_edge :: "go_math \<Rightarrow> histogram \<Rightarrow> int \<Rightarrow> float64" where
  "upper_edge m h i = (if i = h_n h - 1 then MaxValue (opts h) else BucketStart m h (i + 1))"

text \<open>Weight of the first \<open>k\<close> buckets, accumulated from the left as the loop does.\<close>

definition prefix_weight :: "histogram \<Rightarrow> nat \<Rightarrow> float64" where
  "prefix_weight h k = foldl (+) 0 (take k (buckets h))"

text \<open>Reference definition: search for the first bucket whose prefix weight reaches the target.\<close>

definition percentile_ref :: "go_math \<Rightarrow> histogram \<Rightarrow> float64 \<Rightarrow> float64" where
  "percentile_ref m h target =
     (case List.find (\<lambda>i. target \<le> prefix_weight h (Suc i)) [0..<length (buckets h)] of
        Some i \<Rightarrow> upper_edge m h (int i)
      | None \<Rightarrow> MaxValue (opts h))"

lemma percentile_loop_ref:
  assumes "buckets h = pre @ ws"
  shows "percentile_loop m h target (int (length pre)) (foldl (+) 0 pre) ws =
    (case List.find (\<lambda>i. target \<le> prefix_weight h (Suc i)) [length pre..<length (buckets h)] of
       Some i \<Rightarrow> upper_edge m h (int i)
     | None \<Rightarrow> MaxValue (opts h))"
  using assms
proof (induction ws arbitrary: pre)
  case Nil
  then show ?case by simp
next
  case (Cons w ws)
  have up: "[length pre..<length (buckets h)] = length pre # [Suc (length pre)..<length (buckets h)]"
    using Cons.prems by (intro upt_conv_Cons) simp
  have pw: "prefix_weight h (Suc (length pre)) = foldl (+) 0 pre + w"
    using Cons.prems by (simp add: prefix_weight_def)
  have IH: "percentile_loop m h target (int (length pre) + 1) (foldl (+) 0 pre + w) ws =
    (case List.find (\<lambda>i. target \<le> prefix_weight h (Suc i)) [Suc (length pre)..<length (buckets h)] of
       Some i \<Rightarrow> upper_edge m h (int i)
     | None \<Rightarrow> MaxValue (opts h))"
    using Cons.IH [of "pre @ [w]"] Cons.prems by (simp add: add.commute)
  show ?case
    by (simp add: up pw IH Let_def) (simp add: upper_edge_def)
qed

lemma percentile_loop_eq_ref: "percentile_loop m h target 0 0 (buckets h) = percentile_ref m h target"
  using percentile_loop_ref [of h "[]" "buckets h" m target] by (simp add: percentile_ref_def)

text \<open>
  What the edges rely on of \<open>math.Pow\<close>: for a base above one it is at least one and monotone
  on non-negative exponents.
\<close>

definition pow_ratio_law :: "go_math \<Rightarrow> float64 \<Rightarrow> bool" where
  "pow_ratio_law m r \<longleftrightarrow>
     (\<forall>x y. Fin 0 \<le> x \<longrightarrow> x \<le> y \<longrightarrow> Fin 1 \<le> m_pow m r x \<and> m_pow m r x \<le> m_pow m r y)"

lemma BucketStart_mono:
  assumes "shape_ok (opts h)" "pow_ratio_law m (BucketRatio (opts h))" "i \<le> j"
  shows "BucketStart m h i \<le> BucketStart m h j" and "Fin 0 \<le> BucketStart m h i"
proof -
  obtain f r c where s: "FirstBucketSize (opts h) = Fin f" "BucketRatio (opts h) = Fin r" "0 < f"
    "Fin r - 1 = Fin c" "0 < c" using shape_okD [OF assms(1)] by metis
  have pos: "Fin 0 \<le> BucketStart m h k \<and> BucketStart m h k \<le> BucketStart m h l"
    if kl: "0 < k" "k \<le> l" for k l
  proof -
    let ?p = "m_pow m (Fin r) (f64_of_int k)" and ?q = "m_pow m (Fin r) (f64_of_int l)"
    have "Fin 0 \<le> f64_of_int k" using f64_of_int_mono [of 0 k] kl by (simp add: f64_of_int_def)
    then have pq: "Fin 1 \<le> ?p" "?p \<le> ?q"
      using assms(2) f64_of_int_mono [OF kl(2)] s by (auto simp: pow_ratio_law_def)
    have z: "Fin 0 \<le> ?p - Fin 1" using f64_sub_mono [OF pq(1), of 1] by (simp add: f64)
    have "(?p - Fin 1) * Fin f / Fin c \<le> (?q - Fin 1) * Fin f / Fin c"
      using pq z s by (intro f64_div_mono f64_mult_mono_pos f64_sub_mono)
    moreover have "Fin 0 * Fin f / Fin c \<le> (?p - Fin 1) * Fin f / Fin c"
      using z s by (intro f64_div_mono f64_mult_mono_pos) simp_all
    ultimately show ?thesis
      using kl s by (simp add: BucketStart_def f64_mult_commute [of "Fin f"] f64_consts(2)) (simp add: f64)
  qed
  have zero: "BucketStart m h k = Fin 0" if "k \<le> 0" for k
    using that by (simp add: BucketStart_def f64)
  show "Fin 0 \<le> BucketStart m h i"
    using pos [of i i] zero [of i] by (cases "0 < i") simp_all
  show "BucketStart m h i \<le> BucketStart m h j"
    using pos [of i j] pos [of j j] zero [of i] zero [of j] assms(3)
    by (cases "0 < i"; cases "0 < j") simp_all
qed

text \<open>The last inner edge does not pass \<open>MaxValue\<close>.\<close>

definition edges_ok :: "go_math \<Rightarrow> histogram \<Rightarrow> bool" where
  "edges_ok m h \<longleftrightarrow>
     shape_ok (opts h) \<and> pow_ratio_law m (BucketRatio (opts h)) \<and>
     BucketStart m h (h_n h - 1) \<le> MaxValue (opts h)"

lemma upper_edge_mono:
  assumes "edges_ok m h" "i \<le> j" "j < h_n h"
  shows "upper_edge m h i \<le> upper_edge m h j" and "upper_edge m h j \<le> MaxValue (opts h)"
    and "Fin 0 \<le> upper_edge m h i"
proof -
  have e: "shape_ok (opts h)" "pow_ratio_law m (BucketRatio (opts h))"
    "BucketStart m h (h_n h - 1) \<le> MaxValue (opts h)" using assms(1) by (simp_all add: edges_ok_def)
  have top: "upper_edge m h k \<le> MaxValue (opts h)" if "k < h_n h" for k
  proof (cases "k = h_n h - 1")
    case True
    then show ?thesis using f64_le_imp_num [OF e(3)] by (simp add: upper_edge_def f64_le_refl)
  next
    case False
    then have "k + 1 \<le> h_n h - 1" using that by simp
    then have "BucketStart m h (k + 1) \<le> MaxValue (opts h)"
      using BucketStart_mono(1) [OF e(1,2)] e(3) f64_le_trans by blast
    then show ?thesis using False by (simp add: upper_edge_def)
  qed
  show "upper_edge m h j \<le> MaxValue (opts h)" using top assms(3) .
  show "upper_edge m h i \<le> upper_edge m h j"
  proof (cases "j = h_n h - 1")
    case True
    then show ?thesis using top [of i] assms by (simp add: upper_edge_def)
  next
    case False
    then show ?thesis using assms BucketStart_mono(1) [OF e(1,2), of "i + 1" "j + 1"]
      by (auto simp: upper_edge_def)
  qed
  have "Fin 0 \<le> MaxValue (opts h)"
    using BucketStart_mono(2) [OF e(1,2) order_refl] e(3) f64_le_trans by blast
  then show "Fin 0 \<le> upper_edge m h i"
    using BucketStart_mono(2) [OF e(1,2) order_refl] by (simp add: upper_edge_def)
qed

lemma percentile_loop_range:
  assumes "edges_ok m h" "0 \<le> i" "i + int (length ws) \<le> h_n h" "i < h_n h"
  shows "upper_edge m h i \<le> percentile_loop m h target i cum ws"
    and "percentile_loop m h target i cum ws \<le> MaxValue (opts h)"
proof -
  have "upper_edge m h i \<le> percentile_loop m h target i cum ws \<and>
        percentile_loop m h target i cum ws \<le> MaxValue (opts h)"
    using assms(2-)
  proof (induction ws arbitrary: i cum)
    case Nil
    have "MaxValue (opts h) \<le> MaxValue (opts h)"
      using upper_edge_mono(2) [OF assms(1) order_refl, of i] Nil by (simp add: f64_le_refl f64_le_imp_num)
    then show ?case using upper_edge_mono(2) [OF assms(1) order_refl, of i] Nil by simp
  next
    case (Cons w ws)
    have e: "upper_edge m h i \<le> upper_edge m h i" "upper_edge m h i \<le> MaxValue (opts h)"
      using upper_edge_mono [OF assms(1), of i i] Cons.prems by simp_all
    show ?case
    proof (cases "target \<le> cum + w")
      case True
      then show ?thesis using e by (simp add: upper_edge_def)
    next
      case False
      show ?thesis
      proof (cases ws)
        case Nil
        have "MaxValue (opts h) \<le> MaxValue (opts h)" using e(2) by (simp add: f64_le_refl f64_le_imp_num)
        then show ?thesis using False Nil e by simp
      next
        case (Cons w' ws')
        then have i: "i + 1 < h_n h" "0 \<le> i + 1" "i + 1 + int (length ws) \<le> h_n h"
          using Cons.prems by simp_all
        have "upper_edge m h i \<le> upper_edge m h (i + 1)" using upper_edge_mono(1) [OF assms(1), of i "i + 1"] i by simp
        then show ?thesis using False Cons.IH [OF i(2,3,1), of "cum + w"] f64_le_trans by auto
      qed
    qed
  qed
  then show "upper_edge m h i \<le> percentile_loop m h target i cum ws"
    and "percentile_loop m h target i cum ws \<le> MaxValue (opts h)" by simp_all
qed

lemma percentile_loop_mono:
  assumes "edges_ok m h" "t \<le> t'" "0 \<le> i" "i + int (length ws) \<le> h_n h" "i < h_n h"
  shows "percentile_loop m h t i cum ws \<le> percentile_loop m h t' i cum ws"
  using assms(3-)
proof (induction ws arbitrary: i cum)
  case Nil
  then show ?case using percentile_loop_range(2) [OF assms(1), of i "[]" t cum] by (simp add: f64_le_refl f64_le_imp_num)
next
  case (Cons w ws)
  show ?case
  proof (cases "t \<le> cum + w")
    case True
    then have "percentile_loop m h t i cum (w # ws) = upper_edge m h i" by (simp add: upper_edge_def)
    then show ?thesis using percentile_loop_range(1) [OF assms(1), of i "w # ws"] Cons.prems by simp
  next
    case False
    then have "\<not> t' \<le> cum + w" using assms(2) f64_le_trans by blast
    show ?thesis
    proof (cases ws)
      case Nil
      then show ?thesis using False \<open>\<not> t' \<le> cum + w\<close> percentile_loop_range(2) [OF assms(1), of i "[w]" t cum] Cons.prems
        by (simp add: f64_le_refl f64_le_imp_num)
    next
      case (Cons w' ws')
      then show ?thesis using False \<open>\<not> t' \<le> cum + w\<close> Cons.IH [of "i + 1" "cum + w"] Cons.prems by simp
    qed
  qed
qed

lemma clamp_percentile_range:
  "p \<noteq> NaN \<Longrightarrow> \<exists>a. clamp_percentile p = Fin a \<and> 0 \<le> a \<and> a \<le> 100"
  by (cases p) (auto simp: clamp_percentile_def f64_consts)

lemma clamp_percentile_mono: "p \<le> q \<Longrightarrow> clamp_percentile p \<le> clamp_percentile q"
  by (cases p; cases q) (auto simp: clamp_percentile_def f64_consts)

lemma Percentile_mono_aux:
  assumes "wf_hist m h" "edges_ok m h" "weight_ok (totalWeight h)" "p \<le> q"
  shows "Percentile m h p \<le> Percentile m h q"
proof (cases "totalWeight h \<le> 0")
  case True
  then show ?thesis by (simp add: Percentile_def Let_def f64_consts)
next
  case False
  obtain w where w: "totalWeight h = Fin w" "0 < w"
    using weight_okD [OF assms(3)] False by (auto simp: f64_consts)
  obtain a where a: "clamp_percentile p = Fin a" "0 \<le> a"
    using clamp_percentile_range f64_le_imp_num [OF assms(4)] by blast
  have "Fin a / Fin 100 \<le> clamp_percentile q / Fin 100"
    using clamp_percentile_mono [OF assms(4)] a by (intro f64_div_mono) simp_all
  moreover have "Fin 0 \<le> Fin a / Fin 100" using a by (simp add: f64 rnd_nonneg)
  ultimately have "Fin a / Fin 100 * Fin w \<le> clamp_percentile q / Fin 100 * Fin w"
    using w by (intro f64_mult_mono_pos)
  then have "totalWeight h * (clamp_percentile p / Fin 100) \<le> totalWeight h * (clamp_percentile q / Fin 100)"
    using w a by (simp add: f64_mult_commute)
  then show ?thesis using False wf_hist_n [OF assms(1)] assms(2)
    by (simp add: Percentile_def Let_def f64_consts(1) [symmetric] percentile_loop_mono)
qed

lemma Percentile_range_aux:
  assumes "wf_hist m h" "edges_ok m h"
  shows "Fin 0 \<le> Percentile m h p \<and> Percentile m h p \<le> MaxValue (opts h)"
proof -
  have n: "0 < h_n h" "0 + int (length (buckets h)) \<le> h_n h" using wf_hist_n [OF assms(1)] by simp_all
  note e = upper_edge_mono [OF assms(2) order_refl n(1)]
  have r: "upper_edge m h 0 \<le> percentile_loop m h t 0 0 (buckets h)"
    "percentile_loop m h t 0 0 (buckets h) \<le> MaxValue (opts h)" for t
    using percentile_loop_range [OF assms(2) order_refl n(2,1)] by blast+
  show ?thesis
    using r e f64_le_trans [OF e(3)] f64_le_trans [OF e(3) e(2)]
    by (auto simp: Percentile_def Let_def f64_consts)
qed

section \<open>A concrete platform\<close>

text \<open>
  A step-function logarithm and a power with truncated exponent satisfy every law above;
  the witnesses evaluate the histogram on them.
\<close>

fun step_log :: "float64 \<Rightarrow> float64" where
  "step_log (Fin a) =
     (if a < 0 then NaN else if a = 0 then NegInf else if a < 1 then Fin (- 1)
      else if a = 1 then Fin 0 else if a < 2 then Fin (1 / 2)
      else Fin (min 710 (of_int (expo a))))"
| "step_log PosInf = PosInf"
| "step_log _ = NaN"

fun step_pow :: "float64 \<Rightarrow> float64 \<Rightarrow> float64" where
  "step_pow (Fin a) (Fin b) = (if 0 \<le> b then rnd (a ^ nat \<lfloor>b\<rfloor>) else NaN)"
| "step_pow (Fin a) PosInf = (if a < 1 then Fin 0 else PosInf)"
| "step_pow _ _ = NaN"

definition step_math :: go_math where
  "step_math = \<lparr>m_log = step_log, m_pow = step_pow,
     m_int_overflow = (\<lambda>_. - (2 ^ 63)), m_uint_overflow = (\<lambda>_. 0)\<rparr>"

lemma step_pow_half: "pow_half_law step_math"
  unfolding pow_half_law_def
proof (intro allI impI)
  fix y assume "Fin 0 \<le> y"
  then show "\<exists>f. m_pow step_math (Fin (1 / 2)) y = Fin f \<and> 0 \<le> f \<and> f \<le> 1"
  proof (cases rule: f64_nonneg_cases)
    case (fin a)
    have "0 \<le> (1 / 2 :: rat) ^ nat \<lfloor>a\<rfloor>" "(1 / 2 :: rat) ^ nat \<lfloor>a\<rfloor> \<le> 1"
      by (simp_all add: power_le_one)
    then show ?thesis using rnd_between [of "(1 / 2) ^ nat \<lfloor>a\<rfloor>" 1] fin by (simp add: step_math_def)
  qed (simp add: step_math_def)
qed

lemma step_pow_ratio: "1 < r \<Longrightarrow> pow_ratio_law step_math (Fin r)"
  unfolding pow_ratio_law_def
proof (intro allI impI)
  fix x y assume r: "1 < r" and x: "Fin 0 \<le> x" and xy: "x \<le> y"
  have one: "Fin 1 \<le> rnd (r ^ k)" for k
    using rnd_mono [of 1 "r ^ k"] r by (simp add: one_le_power)
  have "Fin 0 \<le> y" using x xy by (rule f64_le_trans)
  then show "Fin 1 \<le> m_pow step_math (Fin r) x \<and> m_pow step_math (Fin r) x \<le> m_pow step_math (Fin r) y"
    using x xy r one
    by (cases x; cases y) (auto simp: step_math_def intro!: rnd_mono power_increasing nat_mono floor_mono)
qed

lemma step_log_law: "log_law step_math"
proof -
  have mono: "step_log x \<le> step_log y" if "Fin 1 \<le> x" "x \<le> y" for x y
  proof (cases x; cases y)
    fix a b assume ab: "x = Fin a" "y = Fin b"
    then have le: "1 \<le> a" "a \<le> b" using that by simp_all
    then have "expo a \<le> expo b" by (intro expo_mono) simp_all
    then have "of_int (expo a) \<le> (of_int (expo b) :: rat)" by simp
    moreover have "1 \<le> expo b" if "2 \<le> b" using expo_ge [of b 1] that by simp
    then have "(1::rat) \<le> of_int (expo b)" if "2 \<le> b" using that by (metis of_int_1_le_iff)
    ultimately show ?thesis using le ab by (auto simp: min_def)
  qed (use that in auto)
  have "Fin (2 powi (- 53)) \<le> step_log (Fin r)" if r: "1 < r" for r
  proof (cases "r < 2")
    case True
    then show ?thesis using r by (simp add: power_int_minus)
  next
    case False
    then have "1 \<le> expo r" using expo_ge [of r 1] by simp
    then have "(1::rat) \<le> min 710 (of_int (expo r))" by simp
    then show ?thesis using False r by (auto simp: power_int_minus elim: order_trans [rotated])
  qed
  then show ?thesis using mono by (auto simp: log_law_def step_math_def)
qed

text \<open>A logarithm without resolution puts every value into one bucket.\<close>

definition flat_math :: go_math where
  "flat_math = step_math\<lparr>m_log := (\<lambda>_. Fin 1)\<rparr>"

lemma flat_buckets: "numBuckets flat_math a = 1"
proof -
  have "Fin 1 / Fin 1 = Fin 1" by (simp add: f64)
  then show ?thesis
    by (simp add: numBuckets_def flat_math_def f64_to_int_def trunc_rat_def in_width_def Let_def)
qed

definition demo_options :: options where
  "demo_options = \<lparr>MaxValue = Fin 15, FirstBucketSize = Fin 1, BucketRatio = Fin 2,
     HalfLife = Hour, Epsilon = Fin 0\<rparr>"

definition demo_hist :: histogram where
  "demo_hist = \<lparr>opts = demo_options, h_n = 4, buckets = [Fin 1, Fin 0, Fin 2, Fin 1],
     totalWeight = Fin 4, referenceTime = 0\<rparr>"

lemma demo_wf: "wf_hist step_math demo_hist"
  by code_simp

lemma demo_weights: "weights_ok demo_hist"
  by code_simp

lemma demo_shape: "shape_ok demo_options"
  by code_simp

lemma demo_edges: "edges_ok step_math demo_hist"
proof -
  have "BucketStart step_math demo_hist 3 \<le> Fin 15" by code_simp
  then show ?thesis
    using demo_shape step_pow_ratio [of 2] by (simp add: edges_ok_def demo_hist_def demo_options_def)
qed

lemma weights_ok_nonneg:
  "weights_ok h \<Longrightarrow> list_all (\<lambda>b. Fin 0 \<le> b) (buckets h) \<and> Fin 0 \<le> totalWeight h"
  by (auto simp: weights_ok_def list_all_iff dest!: weight_okD)

lemma list_all_update: "list_all P xs \<Longrightarrow> P y \<Longrightarrow> list_all P (xs[i := y])"
  by (auto simp: list_all_iff dest!: set_update_subset_insert [THEN subsetD])

lemma Decay_half_life_aux:
  assumes "m_pow m (Fin (1 / 2)) (Fin 1) = Fin (1 / 2)"
    and "\<not> IsZero (referenceTime h)" "0 < HalfLife (opts h)" "HalfLife (opts h) < 2 ^ 63"
  shows "Decay m h (referenceTime h + HalfLife (opts h)) =
    h\<lparr>buckets := map (\<lambda>b. b * Fin (1 / 2)) (buckets h),
      totalWeight := totalWeight h * Fin (1 / 2),
      referenceTime := referenceTime h + HalfLife (opts h)\<rparr>"
proof -
  have d: "time_sub (referenceTime h + HalfLife (opts h)) (referenceTime h) = HalfLife (opts h)"
    using assms by (simp add: time_sub_def)
  obtain a where a: "Seconds (HalfLife (opts h)) = Fin a" "0 < a"
    using Seconds_pos [OF assms(3,4)] Seconds_nonneg [of "HalfLife (opts h)"] assms by auto
  then have "Fin a / Fin a = Fin 1" by (simp add: f64)
  then show ?thesis using assms a by (simp add: Decay_def shiftReference_def d Let_def f64_consts)
qed

section \<open>Properties of the histogram\<close>

text \<open>
  (C23) Recording a sample in a well-formed histogram never panics (the bucket index is
  always in range, whatever \<open>math.Log\<close> returns), keeps the histogram well formed and leaves
  its options alone; with a weight that is a number, no accumulated weight becomes negative
  or \<open>NaN\<close>.
\<close>

theorem add_sample_safe:
  assumes "wf_hist m h" "weights_ok h" "pow_half_law m" "w \<noteq> NaN"
    and "0 < HalfLife (opts h)" "HalfLife (opts h) < 2 ^ 63"
  shows "\<exists>h'. AddSample m h v w t = Ret h' \<and> wf_hist m h' \<and> opts h' = opts h \<and>
           list_all (\<lambda>b. Fin 0 \<le> b) (buckets h') \<and> Fin 0 \<le> totalWeight h'"
proof (cases "w \<le> 0")
  case True
  then show ?thesis using assms(1) weights_ok_nonneg [OF assms(2)] by (simp add: AddSample_def)
next
  case False
  let ?h = "shiftReference m h t" and ?i = "nat (BucketIndex m (shiftReference m h t) v)"
  have wf: "wf_hist m ?h" using assms(1) by (rule shiftReference_wf)
  have nn: "list_all (\<lambda>b. Fin 0 \<le> b) (buckets ?h)" "Fin 0 \<le> totalWeight ?h"
    using assms by (simp_all add: weights_ok_nonneg shiftReference_weights(1))
  have w: "Fin 0 \<le> w" using False assms(4) by (simp add: f64_not_le f64_consts f64_less_imp_le)
  have "?i < length (buckets ?h)" using BucketIndex_bounds [of ?h m v] wf_hist_n [OF wf] by (simp add: nat_less_iff)
  then have "Fin 0 \<le> buckets ?h ! ?i + w" using nn(1) w by (simp add: list_all_length f64_add_nonneg)
  then show ?thesis using False nn w assms(1)
    by (simp add: AddSample_eq Let_def list_all_update f64_add_nonneg) (simp add: wf_hist_def)
qed

theorem add_sample_safe_witness:
  "\<exists>h'. AddSample step_math demo_hist (Fin 5) (Fin 1) 7 = Ret h' \<and> wf_hist step_math h' \<and>
     opts h' = opts demo_hist \<and>
     list_all (\<lambda>b. Fin 0 \<le> b) (buckets h') \<and> Fin 0 \<le> totalWeight h'"
  by (rule add_sample_safe [OF demo_wf demo_weights step_pow_half])
    (simp_all add: demo_hist_def demo_options_def)

text \<open>
  A larger sample never lands in a lower bucket, as long as its scaled position is
  finite.
\<close>

theorem bucket_index_monotone:
  assumes "log_law m" "shape_ok (opts h)" "wf_hist m h" "v \<le> v'" "is_fin (bucket_arg (opts h) v')"
  shows "BucketIndex m h v \<le> BucketIndex m h v'"
  using assms(1,2) wf_hist_n [OF assms(3)] assms(4,5) by (intro BucketIndex_mono_aux) simp_all

theorem bucket_index_monotone_witness:
  "BucketIndex step_math demo_hist (Fin 2) \<le> BucketIndex step_math demo_hist (Fin 6) \<and>
   BucketIndex step_math demo_hist (Fin 6) = 2"
proof
  have "bucket_arg (opts demo_hist) (Fin 6) = Fin 7" by code_simp
  then show "BucketIndex step_math demo_hist (Fin 2) \<le> BucketIndex step_math demo_hist (Fin 6)"
    using demo_shape by (intro bucket_index_monotone [OF step_log_law _ demo_wf]) (simp_all add: demo_hist_def)
  show "BucketIndex step_math demo_hist (Fin 6) = 2" by code_simp
qed

text \<open>
  (C22) Ageing a histogram by exactly its half-life multiplies every bucket and the total by
  one half (\<open>math.Pow(x, 1)\<close> is \<open>x\<close>) and moves the reference time there.
\<close>

theorem decay_half_life:
  assumes "m_pow m (Fin (1 / 2)) (Fin 1) = Fin (1 / 2)"
    and "\<not> IsZero (referenceTime h)" "0 < HalfLife (opts h)" "HalfLife (opts h) < 2 ^ 63"
  shows "Decay m h (referenceTime h + HalfLife (opts h)) =
    h\<lparr>buckets := map (\<lambda>b. b * Fin (1 / 2)) (buckets h),
      totalWeight := totalWeight h * Fin (1 / 2),
      referenceTime := referenceTime h + HalfLife (opts h)\<rparr>"
  using assms by (rule Decay_half_life_aux)

theorem decay_half_life_witness:
  "totalWeight (Decay step_math demo_hist Hour) = Fin 2"
proof -
  have p: "m_pow step_math (Fin (1 / 2)) (Fin 1) = Fin (1 / 2)" by code_simp
  have "Decay step_math demo_hist (referenceTime demo_hist + HalfLife (opts demo_hist)) =
    demo_hist\<lparr>buckets := map (\<lambda>b. b * Fin (1 / 2)) (buckets demo_hist),
      totalWeight := totalWeight demo_hist * Fin (1 / 2),
      referenceTime := referenceTime demo_hist + HalfLife (opts demo_hist)\<rparr>"
    by (rule decay_half_life [OF p])
      (simp_all add: demo_hist_def demo_options_def IsZero_def zero_time_def)
  moreover have "Fin 4 * Fin (1 / 2) = Fin 2" by code_simp
  ultimately show ?thesis by (simp add: demo_hist_def demo_options_def)
qed

text \<open>
  Ageing never increases a weight: every bucket and the total are at most what they
  were, and stay finite, representable and non-negative.
\<close>

theorem decay_never_increases:
  assumes "pow_half_law m" "0 < HalfLife (opts h)" "HalfLife (opts h) < 2 ^ 63" "weights_ok h"
  shows "weights_ok (Decay m h t) \<and> totalWeight (Decay m h t) \<le> totalWeight h \<and>
         list_all2 (\<le>) (buckets (Decay m h t)) (buckets h)"
  unfolding Decay_def using shiftReference_weights [OF assms] by blast

theorem decay_never_increases_witness:
  "weights_ok (Decay step_math demo_hist 5) \<and>
   totalWeight (Decay step_math demo_hist 5) \<le> totalWeight demo_hist \<and>
   list_all2 (\<le>) (buckets (Decay step_math demo_hist 5)) (buckets demo_hist)"
  by (rule decay_never_increases [OF step_pow_half _ _ demo_weights])
    (simp_all add: demo_hist_def demo_options_def)

text \<open>
  (C8) The single pass of \<open>Percentile\<close> computes the reference search: the upper edge of the
  first bucket whose accumulated weight reaches the requested share of the total, \<open>MaxValue\<close>
  when that is the last bucket or none reaches it, and zero for an empty histogram.
\<close>

theorem percentile_equals_reference:
  "Percentile m h p =
     (if IsEmpty h then 0
      else percentile_ref m h (totalWeight h * (clamp_percentile p / Fin 100)))"
  by (simp add: Percentile_def Let_def IsEmpty_def percentile_loop_eq_ref)

text \<open>
  Percentiles are monotone: a higher requested percentile never yields a lower value.
\<close>

theorem percentile_monotone:
  assumes "wf_hist m h" "edges_ok m h" "weight_ok (totalWeight h)" "p \<le> q"
  shows "Percentile m h p \<le> Percentile m h q"
  using assms by (rule Percentile_mono_aux)

theorem percentile_monotone_witness:
  "Percentile step_math demo_hist (Fin 50) \<le> Percentile step_math demo_hist (Fin 90) \<and>
   Percentile step_math demo_hist (Fin 50) = Fin 7"
proof
  show "Percentile step_math demo_hist (Fin 50) \<le> Percentile step_math demo_hist (Fin 90)"
    using demo_weights by (intro percentile_monotone [OF demo_wf demo_edges]) (simp_all add: weights_ok_def)
  show "Percentile step_math demo_hist (Fin 50) = Fin 7" by code_simp
qed

text \<open>
  Every percentile lies between zero and \<open>MaxValue\<close>, for any argument whatsoever.
\<close>

theorem percentile_range:
  assumes "wf_hist m h" "edges_ok m h"
  shows "Fin 0 \<le> Percentile m h p \<and> Percentile m h p \<le> MaxValue (opts h)"
  using assms by (rule Percentile_range_aux)

theorem percentile_range_witness:
  "Fin 0 \<le> Percentile step_math demo_hist NaN \<and> Percentile step_math demo_hist NaN \<le> Fin 15"
  using percentile_range [OF demo_wf demo_edges, of NaN] by (simp add: demo_hist_def demo_options_def)

text \<open>
  (C18) Merging two well-formed histograms never panics. It fails exactly when the options
  differ (compared as Go compares the structs), and then leaves the receiver unchanged;
  otherwise both sides are aged to the later reference time and added bucket by bucket.
\<close>

theorem merge_behaviour:
  assumes "wf_hist m h" "wf_hist m g"
  shows "Merge m h g =
    (if opts_eq (opts h) (opts g) then
       (let t = max (referenceTime h) (referenceTime g);
            h1 = shiftReference m h t; g1 = shiftReference m g t
        in Ret (None, h1\<lparr>buckets := map2 (+) (buckets h1) (buckets g1),
                         totalWeight := totalWeight h1 + totalWeight g1\<rparr>))
     else Ret (Some (Err ''incompatible histogram options''), h))"
  using Merge_eq [OF assms] by (cases "opts_eq (opts h) (opts g)") (simp_all add: Merge_def merge_time_def Let_def)

theorem merge_behaviour_witness:
  "Merge step_math demo_hist demo_hist =
     Ret (None, demo_hist\<lparr>buckets := [Fin 2, Fin 0, Fin 4, Fin 2], totalWeight := Fin 8\<rparr>)"
proof -
  have "opts_eq (opts demo_hist) (opts demo_hist)" "shiftReference step_math demo_hist 0 = demo_hist"
    "map2 (+) (buckets demo_hist) (buckets demo_hist) = [Fin 2, Fin 0, Fin 4, Fin 2]"
    "totalWeight demo_hist + totalWeight demo_hist = Fin 8" "referenceTime demo_hist = 0"
    by code_simp+
  then show ?thesis using merge_behaviour [OF demo_wf demo_wf] by (simp add: Let_def)
qed

text \<open>
  A checkpoint restores the histogram it was written from: decoding what \<open>Encode\<close>
  produced gives back the same options, buckets, total and reference time, provided the
  reference time lies in the range of Unix nanoseconds.
\<close>

theorem decode_encode_roundtrip:
  assumes "wf_hist m h" "Validate (opts h) = None" "h_n h \<le> max_slice_len"
    and "codec_ok c (checkpoint_of h)" "is_int64 (referenceTime h)"
  shows "\<exists>s. Encode c h = Inr s \<and> Decode m c s = Ret (Inr h)"
proof -
  obtain s where "Encode c h = Inr s"
    "Decode m c s = Ret (Inr (h\<lparr>referenceTime := time_Unix (UnixNano (referenceTime h))\<rparr>))"
    using Decode_Encode [OF assms(1-4)] by blast
  then show ?thesis using assms(5) by (simp add: UnixNano_Unix)
qed

definition demo_codec :: "checkpoint codec" where
  "demo_codec = \<lparr>gob_encode = (\<lambda>_. Inr ''gob''), gob_decode = (\<lambda>_. Inr (checkpoint_of demo_hist)),
     base64_encode = (\<lambda>b. ''Z'' @ b), base64_decode = (\<lambda>s. Inr (tl s))\<rparr>"

theorem decode_encode_roundtrip_witness:
  "\<exists>s. Encode demo_codec demo_hist = Inr s \<and> Decode step_math demo_codec s = Ret (Inr demo_hist)"
  by (rule decode_encode_roundtrip [OF demo_wf])
    (simp_all add: demo_hist_def demo_options_def Validate_def f64_consts max_slice_len_def
      codec_ok_def demo_codec_def in_width_def)

text \<open>
  (C27) The checkpoint of a histogram that has no sample yet does not restore it: the zero
  reference time does not fit into Unix nanoseconds, so the decoded histogram has a
  reference time in the year 1754 instead and no longer counts as unset.
\<close>

theorem empty_checkpoint_loses_zero_time:
  assumes "wf_hist m h" "Validate (opts h) = None" "h_n h \<le> max_slice_len"
    and "codec_ok c (checkpoint_of h)" "IsZero (referenceTime h)"
  shows "\<exists>s h'. Encode c h = Inr s \<and> Decode m c s = Ret (Inr h') \<and>
           referenceTime h' = - 6795364578871345152 \<and> \<not> IsZero (referenceTime h')"
proof -
  obtain s where s: "Encode c h = Inr s"
    "Decode m c s = Ret (Inr (h\<lparr>referenceTime := time_Unix (UnixNano (referenceTime h))\<rparr>))"
    using Decode_Encode [OF assms(1-4)] by blast
  have "time_Unix (UnixNano (referenceTime h)) = - 6795364578871345152"
    using assms(5) by (simp add: IsZero_def zero_time_def time_Unix_def UnixNano_def wrap_def)
  then show ?thesis using s by (simp add: IsZero_def zero_time_def)
qed

definition demo_empty :: histogram where
  "demo_empty = \<lparr>opts = demo_options, h_n = 4, buckets = [Fin 0, Fin 0, Fin 0, Fin 0],
     totalWeight = Fin 0, referenceTime = zero_time\<rparr>"

definition demo_empty_codec :: "checkpoint codec" where
  "demo_empty_codec = demo_codec\<lparr>gob_decode := (\<lambda>_. Inr (checkpoint_of demo_empty))\<rparr>"

theorem empty_checkpoint_loses_zero_time_witness:
  "\<exists>s h'. Encode demo_empty_codec demo_empty = Inr s \<and> Decode step_math demo_empty_codec s = Ret (Inr h') \<and>
     referenceTime h' = - 6795364578871345152 \<and> \<not> IsZero (referenceTime h')"
proof (rule empty_checkpoint_loses_zero_time)
  show "wf_hist step_math demo_empty" by code_simp
qed (simp_all add: demo_empty_def demo_options_def Validate_def f64_consts max_slice_len_def
      codec_ok_def demo_codec_def demo_empty_codec_def IsZero_def)

text \<open>
  A sample stamped at or before the reference time is recorded with its full weight:
  nothing is aged and the reference time stays, however old the sample is.
\<close>

theorem late_sample_full_weight:
  assumes "wf_hist m h" "\<not> IsZero (referenceTime h)" "t \<le> referenceTime h" "Fin 0 < w"
  shows "AddSample m h v w t =
    Ret (h\<lparr>buckets := (buckets h)[nat (BucketIndex m h v) := buckets h ! nat (BucketIndex m h v) + w],
           totalWeight := totalWeight h + w\<rparr>)"
proof -
  have "shiftReference m h t = h" using assms by (simp add: shiftReference_def)
  moreover have "\<not> w \<le> 0" using assms(4) by (cases w) (auto simp: f64_consts)
  ultimately show ?thesis using assms(1) by (simp add: AddSample_eq Let_def)
qed

theorem late_sample_full_weight_witness:
  "AddSample step_math demo_hist (Fin 5) (Fin 1) (- 100 * Hour) =
     Ret (demo_hist\<lparr>buckets := [Fin 1, Fin 0, Fin 3, Fin 1], totalWeight := Fin 5\<rparr>)"
proof -
  have e: "BucketIndex step_math demo_hist (Fin 5) = 2" "Fin 2 + Fin 1 = Fin 3" "Fin 4 + Fin 1 = Fin 5"
    by code_simp+
  have "AddSample step_math demo_hist (Fin 5) (Fin 1) (- 100 * Hour) =
    Ret (demo_hist\<lparr>buckets := (buckets demo_hist)[nat (BucketIndex step_math demo_hist (Fin 5)) :=
             buckets demo_hist ! nat (BucketIndex step_math demo_hist (Fin 5)) + Fin 1],
           totalWeight := totalWeight demo_hist + Fin 1\<rparr>)"
    by (rule late_sample_full_weight [OF demo_wf]) (simp_all add: demo_hist_def IsZero_def zero_time_def)
  then show ?thesis by (simp add: e) (simp add: demo_hist_def e numeral_2_eq_2)
qed

end
