(* ===== verification/GoText.thy ===== *)
theory GoText
  imports Float64
begin

text \<open>
  The parts of Go's packages \<open>strings\<close>, \<open>strconv\<close> and \<open>bufio\<close> that the program reads its
  text inputs with. A Go string is its list of bytes.
\<close>

section \<open>Digits\<close>

abbreviation byte :: "char \<Rightarrow> int" where
  "byte c \<equiv> of_char c"

definition is_digit :: "char \<Rightarrow> bool" where
  "is_digit c \<longleftrightarrow> 48 \<le> byte c \<and> byte c \<le> 57"

definition digit_val :: "char \<Rightarrow> int" where
  "digit_val c = byte c - 48"

text \<open>Go's \<open>lower\<close>: sets the ASCII case bit.\<close>

definition lower_byte :: "char \<Rightarrow> int" where
  "lower_byte c = (if 65 \<le> byte c \<and> byte c \<le> 90 then byte c + 32 else byte c)"

definition is_hex_letter :: "char \<Rightarrow> bool" where
  "is_hex_letter c \<longleftrightarrow> 97 \<le> lower_byte c \<and> lower_byte c \<le> 102"

definition hex_val :: "char \<Rightarrow> int" where
  "hex_val c = (if is_digit c then digit_val c else lower_byte c - 87)"

section \<open>strconv.ParseUint, ParseInt and Atoi in base ten\<close>

datatype parse_error = ErrSyntax | ErrRange

text \<open>
  The result is the pair Go returns: the value is meaningful even with an error (the largest
  value on overflow, zero on a syntax error).
\<close>

fun parse_uint_loop :: "int \<Rightarrow> string \<Rightarrow> int \<times> parse_error option" where
  "parse_uint_loop n [] = (n, None)"
| "parse_uint_loop n (c # cs) =
     (if \<not> is_digit c then (0, Some ErrSyntax)
      else if 2 ^ 64 \<le> 10 * n + digit_val c then (2 ^ 64 - 1, Some ErrRange)
      else parse_uint_loop (10 * n + digit_val c) cs)"

definition ParseUint :: "string \<Rightarrow> int \<times> parse_error option" where
  "ParseUint s = (if s = [] then (0, Some ErrSyntax) else parse_uint_loop 0 s)"

definition strip_sign :: "string \<Rightarrow> bool \<times> string" where
  "strip_sign s =
     (case s of
        [] \<Rightarrow> (False, [])
      | c # cs \<Rightarrow> if c = CHR ''+'' then (False, cs) else if c = CHR ''-'' then (True, cs)
                 else (False, s))"

definition Atoi :: "string \<Rightarrow> int64 \<times> parse_error option" where
  "Atoi s =
     (if s = [] then (0, Some ErrSyntax)
      else
        (let (neg, ds) = strip_sign s; (un, err) = ParseUint ds
         in if err = Some ErrSyntax then (0, Some ErrSyntax)
            else if \<not> neg \<and> 2 ^ 63 \<le> un then (2 ^ 63 - 1, Some ErrRange)
            else if neg \<and> 2 ^ 63 < un then (- (2 ^ 63), Some ErrRange)
            else (if neg then - un else un, None)))"

section \<open>strconv.ParseFloat\<close>

text \<open>
  The scanner of \<open>readFloat\<close>: mantissa digits with at most one point, underscores noted and
  skipped. \<open>mant\<close> is the integer of all digits, \<open>frac\<close> the number of digits after the point.
\<close>

record mant_state =
  ms_mant :: int
  ms_frac :: nat
  ms_dot :: bool
  ms_digits :: bool
  ms_under :: bool

fun read_mantissa :: "bool \<Rightarrow> mant_state \<Rightarrow> string \<Rightarrow> mant_state \<times> string" where
  "read_mantissa hex st [] = (st, [])"
| "read_mantissa hex st (c # cs) =
     (if c = CHR ''_'' then read_mantissa hex (st\<lparr>ms_under := True\<rparr>) cs
      else if c = CHR ''.'' then
        (if ms_dot st then (st, c # cs) else read_mantissa hex (st\<lparr>ms_dot := True\<rparr>) cs)
      else if is_digit c \<or> hex \<and> is_hex_letter c then
        read_mantissa hex
          (st\<lparr>ms_mant := (if hex then 16 else 10) * ms_mant st + hex_val c,
              ms_frac := (if ms_dot st then Suc (ms_frac st) else ms_frac st),
              ms_digits := True\<rparr>) cs
      else (st, c # cs))"

fun read_exponent :: "int \<Rightarrow> bool \<Rightarrow> string \<Rightarrow> int \<times> bool \<times> string" where
  "read_exponent e u [] = (e, u, [])"
| "read_exponent e u (c # cs) =
     (if c = CHR ''_'' then read_exponent e True cs
      else if is_digit c then read_exponent (if e < 10000 then 10 * e + digit_val c else e) u cs
      else (e, u, c # cs))"

text \<open>
  \<open>underscoreOK\<close>: an underscore stands only between digits or after a base prefix. The
  state is the kind of the previous byte: \<open>Digit\<close>, \<open>Under\<close>, \<open>Other\<close> or none yet.
\<close>

datatype prev_byte = PStart | PDigit | PUnder | POther

fun underscore_loop :: "bool \<Rightarrow> prev_byte \<Rightarrow> string \<Rightarrow> bool" where
  "underscore_loop hex p [] = (p \<noteq> PUnder)"
| "underscore_loop hex p (c # cs) =
     (if is_digit c \<or> hex \<and> is_hex_letter c then underscore_loop hex PDigit cs
      else if c = CHR ''_'' then (p = PDigit \<and> underscore_loop hex PUnder cs)
      else (p \<noteq> PUnder \<and> underscore_loop hex POther cs))"

definition underscoreOK :: "string \<Rightarrow> bool" where
  "underscoreOK s =
     (let t = snd (strip_sign s)
      in case t of
           a # b # cs \<Rightarrow>
             if a = CHR ''0'' \<and> lower_byte b \<in> {98, 111, 120}
             then underscore_loop (lower_byte b = 120) PDigit cs
             else underscore_loop False PStart t
         | _ \<Rightarrow> underscore_loop False PStart t)"

fun starts_nocase :: "string \<Rightarrow> string \<Rightarrow> bool" where
  "starts_nocase s [] = True"
| "starts_nocase [] (p # ps) = False"
| "starts_nocase (c # cs) (p # ps) = (lower_byte c = byte p \<and> starts_nocase cs ps)"

text \<open>
  \<open>special\<close>: infinities with optional sign and \<open>nan\<close> without, in any case, the whole string.
\<close>

definition parse_special :: "string \<Rightarrow> float64 option" where
  "parse_special s =
     (let (neg, t) = strip_sign s
      in if starts_nocase t ''infinity'' \<and> length t = 8 \<or> starts_nocase t ''inf'' \<and> length t = 3
         then Some (if neg then NegInf else PosInf)
         else if starts_nocase s ''nan'' \<and> length s = 3 then Some NaN
         else None)"

text \<open>The number itself, exactly, before rounding; \<open>None\<close> is a syntax error.\<close>

definition has_hex_prefix :: "string \<Rightarrow> bool" where
  "has_hex_prefix t =
     (case t of a # b # c # cs \<Rightarrow> a = CHR ''0'' \<and> lower_byte b = 120 | _ \<Rightarrow> False)"

definition read_float :: "string \<Rightarrow> rat option" where
  "read_float s =
     (let (neg, t) = strip_sign s; hex = has_hex_prefix t;
          (st, rest) = read_mantissa hex
             \<lparr>ms_mant = 0, ms_frac = 0, ms_dot = False, ms_digits = False, ms_under = False\<rparr>
             (if hex then drop 2 t else t);
          has_exp = (case rest of c # _ \<Rightarrow> lower_byte c = (if hex then 112 else 101) | [] \<Rightarrow> False);
          (eneg, ds) = strip_sign (drop 1 rest);
          exp_ok = (case ds of d # _ \<Rightarrow> is_digit d | [] \<Rightarrow> False);
          (e, u, rest') = (if has_exp then read_exponent 0 (ms_under st) ds
                           else (0, ms_under st, rest));
          scale = (if eneg \<and> has_exp then - e else e);
          mag = (if hex then of_int (ms_mant st) * 2 powi (scale - 4 * int (ms_frac st))
                 else of_int (ms_mant st) * 10 powi (scale - int (ms_frac st)))
      in if \<not> ms_digits st \<or> has_exp \<and> \<not> exp_ok \<or> hex \<and> \<not> has_exp \<or> rest' \<noteq> [] \<or> u \<and> \<not> underscoreOK s
         then None
         else Some (if neg then - mag else mag))"

text \<open>A decimal that rounds to an infinity is a range error.\<close>

definition ParseFloat :: "string \<Rightarrow> float64 \<times> parse_error option" where
  "ParseFloat s =
     (case parse_special s of
        Some v \<Rightarrow> (v, None)
      | None \<Rightarrow>
          (case read_float s of
             None \<Rightarrow> (Fin 0, Some ErrSyntax)
           | Some q \<Rightarrow>
               (let v = rnd q in (v, if v = PosInf \<or> v = NegInf then Some ErrRange else None))))"

section \<open>White space\<close>

text \<open>
  The length of the white-space rune at the head of a string, zero when there is none. The
  lead byte of a UTF-8 sequence never occurs inside another one, so matching the encodings
  of the Unicode spaces as prefixes agrees with decoding rune by rune.
\<close>

fun space_len :: "string \<Rightarrow> nat" where
  "space_len [] = 0"
| "space_len (a # cs) =
     (if byte a \<in> {9, 10, 11, 12, 13, 32} then 1
      else
        (case cs of
           [] \<Rightarrow> 0
         | b # cs' \<Rightarrow>
             if byte a = 194 \<and> byte b \<in> {133, 160} then 2
             else
               (case cs' of
                  [] \<Rightarrow> 0
                | c # _ \<Rightarrow>
                    if byte a = 225 \<and> byte b = 154 \<and> byte c = 128
                     \<or> byte a = 226 \<and> byte b = 128 \<and> (128 \<le> byte c \<and> byte c \<le> 138 \<or> byte c \<in> {168, 169, 175})
                     \<or> byte a = 226 \<and> byte b = 129 \<and> byte c = 159
                     \<or> byte a = 227 \<and> byte b = 128 \<and> byte c = 128
                    then 3 else 0)))"

lemma space_len_le: "space_len s \<le> length s"
  by (cases s rule: space_len.cases) (auto split: list.split)

text \<open>\<open>strings.Fields\<close>, with the bytes \<open>cur\<close> of the field being read.\<close>

function fields_loop :: "string \<Rightarrow> string \<Rightarrow> string list" where
  "fields_loop cur [] = (if cur = [] then [] else [cur])"
| "fields_loop cur (c # cs) =
     (let k = space_len (c # cs)
      in if k = 0 then fields_loop (cur @ [c]) cs
         else (if cur = [] then [] else [cur]) @ fields_loop [] (drop (k - 1) cs))"
  by pat_completeness auto
termination
  by (relation "measure (\<lambda>(_, s). length s)") auto

definition Fields :: "string \<Rightarrow> string list" where
  "Fields s = fields_loop [] s"

function trim_left :: "string \<Rightarrow> string" where
  "trim_left s = (if space_len s = 0 then s else trim_left (drop (space_len s) s))"
  by pat_completeness auto
termination
proof (relation "measure length")
  fix s :: string assume "space_len s \<noteq> 0"
  then show "(drop (space_len s) s, s) \<in> measure length" using space_len_le [of s] by auto
qed simp

declare trim_left.simps [simp del]

text \<open>The length of the white-space rune at the end of a string: its last one, two or three bytes.\<close>

definition space_len_end :: "string \<Rightarrow> nat" where
  "space_len_end s =
     (let n = length s; tail = (\<lambda>k. drop (n - k) s)
      in if 1 \<le> n \<and> space_len (tail 1) = 1 then 1
         else if 2 \<le> n \<and> space_len (tail 2) = 2 then 2
         else if 3 \<le> n \<and> space_len (tail 3) = 3 then 3
         else 0)"

function trim_right :: "string \<Rightarrow> string" where
  "trim_right s =
     (if space_len_end s = 0 then s else trim_right (take (length s - space_len_end s) s))"
  by pat_completeness auto
termination
  by (relation "measure length") (auto simp: space_len_end_def Let_def split: if_splits)

declare trim_right.simps [simp del]

definition TrimSpace :: "string \<Rightarrow> string" where
  "TrimSpace s = trim_right (trim_left s)"

section \<open>Searching and replacing\<close>

text \<open>\<open>strings.Cut\<close> at a one-byte separator.\<close>

definition Cut :: "string \<Rightarrow> char \<Rightarrow> string \<times> string \<times> bool" where
  "Cut s sep =
     (if sep \<in> set s then (takeWhile (\<lambda>c. c \<noteq> sep) s, tl (dropWhile (\<lambda>c. c \<noteq> sep) s), True)
      else (s, [], False))"

fun has_prefix :: "string \<Rightarrow> string \<Rightarrow> bool" where
  "has_prefix s [] = True"
| "has_prefix [] (p # ps) = False"
| "has_prefix (c # cs) (p # ps) = (c = p \<and> has_prefix cs ps)"

fun Contains :: "string \<Rightarrow> string \<Rightarrow> bool" where
  "Contains [] p = (p = [])"
| "Contains (c # cs) p = (has_prefix (c # cs) p \<or> Contains cs p)"

definition TrimSuffix :: "string \<Rightarrow> string \<Rightarrow> string" where
  "TrimSuffix s suf =
     (if has_prefix (rev s) (rev suf) then take (length s - length suf) s else s)"

text \<open>\<open>strings.ReplaceAll\<close> of one byte by another.\<close>

definition ReplaceAll :: "string \<Rightarrow> char \<Rightarrow> char \<Rightarrow> string" where
  "ReplaceAll s a b = map (\<lambda>c. if c = a then b else c) s"

section \<open>bufio.Scanner over lines\<close>

text \<open>
  Lines are separated by a newline, a carriage return before it is dropped, and a line that
  does not fit the 64 KiB buffer together with its newline stops the scan with an error.
\<close>

abbreviation newline :: char where "newline \<equiv> CHR 0x0A"

definition drop_cr :: "string \<Rightarrow> string" where
  "drop_cr l = (if l \<noteq> [] \<and> last l = CHR 0x0D then butlast l else l)"

function scan_lines :: "string \<Rightarrow> string list \<times> go_error option" where
  "scan_lines s =
     (if s = [] then ([], None)
      else
        (let l = takeWhile (\<lambda>c. c \<noteq> newline) s; rest = dropWhile (\<lambda>c. c \<noteq> newline) s
         in if 65536 \<le> int (length l) then ([], Some (Err ''bufio.Scanner: token too long''))
            else (let (ls, e) = scan_lines (tl rest) in (drop_cr l # ls, e))))"
  by pat_completeness auto
termination
proof (relation "measure length")
  fix s l rest :: string
  assume "s \<noteq> []" and "rest = dropWhile (\<lambda>c. c \<noteq> newline) s"
  then show "(tl rest, s) \<in> measure length"
    using length_dropWhile_le [of "\<lambda>c. c \<noteq> newline" s] by (cases rest) (auto simp: neq_Nil_conv)
qed simp

declare scan_lines.simps [simp del]

section \<open>fmt.Sscanf with verb d\<close>

text \<open>
  Reading a \<open>uint64\<close>: leading spaces are skipped, a newline is not one of them; the digits
  that follow are converted. On any error the variable keeps its zero.
\<close>

function sscanf_uint :: "string \<Rightarrow> int" where
  "sscanf_uint s =
     (case s of
        [] \<Rightarrow> 0
      | c # cs \<Rightarrow>
          if c = newline then 0
          else if space_len s \<noteq> 0 then sscanf_uint (drop (space_len s) s)
          else (case ParseUint (takeWhile is_digit s) of (n, None) \<Rightarrow> n | (n, Some _) \<Rightarrow> 0))"
  by pat_completeness auto
termination
  by (relation "measure length") auto

declare sscanf_uint.simps [simp del]

section \<open>Printing decimals\<close>

text \<open>The decimal representation, as the kernel prints counters.\<close>

definition digit_char :: "nat \<Rightarrow> char" where
  "digit_char d = char_of (48 + d)"

fun dec :: "nat \<Rightarrow> string" where
  "dec n = (if n < 10 then [digit_char n] else dec (n div 10) @ [digit_char (n mod 10)])"

declare dec.simps [simp del]

lemma byte_digit_char: "d < 10 \<Longrightarrow> byte (digit_char d) = 48 + int d"
proof -
  assume "d < 10"
  then have "(of_char (digit_char d) :: nat) = 48 + d" by (simp add: digit_char_def)
  then have "int (of_char (digit_char d)) = 48 + int d" by simp
  then show ?thesis by (simp only: of_nat_of_char)
qed

lemma digit_char_simps [simp]:
  assumes "d < 10"
  shows "is_digit (digit_char d)" "digit_val (digit_char d) = int d" "hex_val (digit_char d) = int d"
  using byte_digit_char [OF assms] assms by (simp_all add: is_digit_def digit_val_def hex_val_def)

lemma dec_digits: "\<forall>c \<in> set (dec n). is_digit c"
  by (induction n rule: dec.induct) (subst dec.simps, auto)

lemma dec_not_Nil [simp]: "dec n \<noteq> []"
  by (subst dec.simps) simp

text \<open>The value of a list of digits read from the left.\<close>

lemma parse_uint_loop_append:
  "parse_uint_loop n s = (m, None) \<Longrightarrow> parse_uint_loop n (s @ t) = parse_uint_loop m t"
  by (induction s arbitrary: n) (auto split: if_splits)

lemma parse_uint_loop_dec: "int n < 2 ^ 64 \<Longrightarrow> parse_uint_loop 0 (dec n) = (int n, None)"
proof (induction n rule: dec.induct)
  case (1 n)
  show ?case
  proof (cases "n < 10")
    case True
    then show ?thesis by (subst dec.simps) simp
  next
    case False
    have "int (n div 10) \<le> int n" by simp
    then have "parse_uint_loop 0 (dec (n div 10)) = (int (n div 10), None)"
      using 1 False by linarith
    moreover have "10 * int (n div 10) + int (n mod 10) = int n" by presburger
    ultimately show ?thesis using False 1(2)
      by (subst dec.simps) (simp add: parse_uint_loop_append)
  qed
qed

lemma ParseUint_dec: "int n < 2 ^ 64 \<Longrightarrow> ParseUint (dec n) = (int n, None)"
  by (simp add: ParseUint_def parse_uint_loop_dec)

lemma digit_not_special:
  assumes "is_digit c"
  shows "c \<noteq> CHR ''_''" "c \<noteq> CHR ''.''" "c \<noteq> CHR ''+''" "c \<noteq> CHR ''-''" "c \<noteq> CHR ''=''" "c \<noteq> newline"
    "space_len (c # cs) = 0" "lower_byte c \<noteq> 105" "lower_byte c \<noteq> 110" "lower_byte c \<noteq> 120"
  using assms by (auto simp: is_digit_def lower_byte_def split: list.split)

text \<open>A number of hundredths with two decimals, as the kernel prints pressure averages.\<close>

definition centi :: "nat \<Rightarrow> string" where
  "centi n = dec (n div 100) @ ''.'' @ [digit_char (n div 10 mod 10), digit_char (n mod 10)]"

definition digits_val :: "int \<Rightarrow> string \<Rightarrow> int" where
  "digits_val n w = foldl (\<lambda>m c. 10 * m + digit_val c) n w"

lemma digits_val_dec: "digits_val 0 (dec n) = int n"
proof (induction n rule: dec.induct)
  case (1 n)
  show ?case
  proof (cases "n < 10")
    case True
    then show ?thesis by (subst dec.simps) (simp add: digits_val_def)
  next
    case False
    have "10 * int (n div 10) + int (n mod 10) = int n" by presburger
    then show ?thesis using False 1 by (subst dec.simps) (simp add: digits_val_def)
  qed
qed

lemma read_mantissa_digits:
  assumes "\<forall>c \<in> set w. is_digit c" "w \<noteq> []"
  shows "read_mantissa False st (w @ rest) =
    read_mantissa False
      (st\<lparr>ms_mant := digits_val (ms_mant st) w,
          ms_frac := (if ms_dot st then ms_frac st + length w else ms_frac st), ms_digits := True\<rparr>) rest"
  using assms
proof (induction w arbitrary: st)
  case (Cons c w)
  note c = digit_not_special [of c] 
  have "hex_val c = digit_val c" using Cons.prems by (simp add: hex_val_def)
  then show ?case
    using Cons c by (cases "w = []") (simp_all add: digits_val_def)
qed simp

lemma digits_append: "\<forall>c \<in> set (dec a @ [digit_char (x mod 10), digit_char (y mod 10)]). is_digit c"
  using dec_digits by simp

lemma read_mantissa_centi:
  "read_mantissa False \<lparr>ms_mant = 0, ms_frac = 0, ms_dot = False, ms_digits = False, ms_under = False\<rparr> (centi n) =
     (\<lparr>ms_mant = int n, ms_frac = 2, ms_dot = True, ms_digits = True, ms_under = False\<rparr>, [])"
proof -
  let ?t = "[digit_char (n div 10 mod 10), digit_char (n mod 10)]"
  have e: "digits_val (int (n div 100)) ?t = int n"
  proof -
    have split: "n = 10 * t + s \<Longrightarrow> t = 10 * q + r \<Longrightarrow> 10 * (10 * q + r) + s = n" for q r s t by simp
    have "n div 100 = n div 10 div 10" using div_mult2_eq [of n 10 10] by simp
    moreover have "n = 10 * (n div 10) + n mod 10" by presburger
    moreover have "n div 10 = 10 * (n div 10 div 10) + n div 10 mod 10" by presburger
    ultimately have "10 * (10 * (n div 100) + n div 10 mod 10) + n mod 10 = n" using split by metis
    then have "int (10 * (10 * (n div 100) + n div 10 mod 10) + n mod 10) = int n" by (rule arg_cong)
    then have "10 * (10 * int (n div 100) + int (n div 10 mod 10)) + int (n mod 10) = int n"
      by (simp only: of_nat_add of_nat_mult of_nat_numeral)
    then show ?thesis by (simp add: digits_val_def)
  qed
  have "read_mantissa False \<lparr>ms_mant = int (n div 100), ms_frac = 0, ms_dot = True, ms_digits = True, ms_under = False\<rparr> (?t @ []) =
     (\<lparr>ms_mant = int n, ms_frac = 2, ms_dot = True, ms_digits = True, ms_under = False\<rparr>, [])"
    by (subst read_mantissa_digits) (simp_all add: e)
  then show ?thesis
    unfolding centi_def using dec_digits [of "n div 100"]
    by (subst read_mantissa_digits) (simp_all add: digits_val_dec)
qed

lemma centi_shape:
  obtains c cs where "centi n = c # cs" "is_digit c" "\<forall>d \<in> set cs. is_digit d \<or> d = CHR ''.''"
proof -
  obtain c cs where "dec (n div 100) = c # cs" by (meson dec_not_Nil neq_Nil_conv)
  then show thesis using that [of c "cs @ ''.'' @ [digit_char (n div 10 mod 10), digit_char (n mod 10)]"]
      dec_digits [of "n div 100"] by (auto simp: centi_def)
qed

lemma ParseFloat_centi:
  assumes "n \<le> 2 ^ 53"
  shows "ParseFloat (centi n) = (rnd (of_nat n / 100), None)"
proof -
  obtain c cs where c: "centi n = c # cs" "is_digit c" "\<forall>d \<in> set cs. is_digit d \<or> d = CHR ''.''"
    by (rule centi_shape)
  note d = digit_not_special [OF c(2)]
  have sign: "strip_sign (centi n) = (False, centi n)" using c d by (simp add: strip_sign_def)
  have "parse_special (centi n) = None"
    using d unfolding parse_special_def sign by (simp add: c(1))
  moreover have "lower_byte e \<noteq> 120" if "e \<in> set cs" for e
  proof (cases "is_digit e")
    case True
    then show ?thesis by (rule digit_not_special)
  next
    case False
    then have "e = CHR ''.''" using c(3) that by blast
    then show ?thesis by (simp add: lower_byte_def)
  qed
  then have "\<not> has_hex_prefix (centi n)"
    unfolding c(1) has_hex_prefix_def by (auto split: list.split)
  then have "read_float (centi n) = Some (of_int (int n) * 10 powi (- 2))"
    by (simp add: read_float_def sign read_mantissa_centi)
  moreover have "of_int (int n) * 10 powi (- 2) = (of_nat n / 100 :: rat)"
    by (simp add: power_int_minus field_simps)
  moreover have "rnd (of_nat n / 100) \<noteq> PosInf \<and> rnd (of_nat n / 100) \<noteq> NegInf"
  proof -
    have "of_nat n \<le> (of_int (2 ^ 53) :: rat)" using assms by (simp flip: of_nat_le_iff)
    then have "of_nat n / 100 \<le> (of_int (2 ^ 53) :: rat)" by simp
    then show ?thesis using rnd_between [of "of_nat n / 100" "of_int (2 ^ 53)"] rnd_int [of "2 ^ 53"] by auto
  qed
  ultimately show ?thesis by (simp add: ParseFloat_def)
qed

section \<open>Reading back lines and fields\<close>

definition line_ok :: "string \<Rightarrow> bool" where
  "line_ok l \<longleftrightarrow> newline \<notin> set l \<and> length l < 65536 \<and> (l \<noteq> [] \<longrightarrow> last l \<noteq> CHR 0x0D)"

definition unlines :: "string list \<Rightarrow> string" where
  "unlines ls = concat (map (\<lambda>l. l @ [newline]) ls)"

lemma scan_lines_step:
  assumes "line_ok l"
  shows "scan_lines (l @ newline # rest) = (let (ls, e) = scan_lines rest in (l # ls, e))"
proof -
  have "takeWhile (\<lambda>c. c \<noteq> newline) (l @ newline # rest) = l"
    "dropWhile (\<lambda>c. c \<noteq> newline) (l @ newline # rest) = newline # rest"
    using assms by (auto simp: line_ok_def takeWhile_tail dropWhile_append3 intro: takeWhile_eq_all_conv [THEN iffD2])
  then show ?thesis
    using assms by (subst scan_lines.simps) (auto simp: line_ok_def drop_cr_def Let_def)
qed

lemma scan_lines_unlines: "list_all line_ok ls \<Longrightarrow> scan_lines (unlines ls) = (ls, None)"
  by (induction ls) (simp_all add: unlines_def scan_lines_step, simp add: scan_lines.simps)

text \<open>A word of printable ASCII bytes has no white space.\<close>

definition is_word :: "string \<Rightarrow> bool" where
  "is_word w \<longleftrightarrow> w \<noteq> [] \<and> list_all (\<lambda>c. 32 < byte c \<and> byte c < 127) w"

fun unwords :: "string list \<Rightarrow> string" where
  "unwords [] = []"
| "unwords [w] = w"
| "unwords (w # ws) = w @ '' '' @ unwords ws"

lemma printable_no_space: "32 < byte c \<Longrightarrow> byte c < 127 \<Longrightarrow> space_len (c # cs) = 0"
  by (auto split: list.split)

lemma fields_loop_word:
  "list_all (\<lambda>c. 32 < byte c \<and> byte c < 127) w \<Longrightarrow> fields_loop cur (w @ rest) = fields_loop (cur @ w) rest"
proof (induction w arbitrary: cur)
  case (Cons c w)
  then have "space_len (c # w @ rest) = 0" by (intro printable_no_space) simp_all
  then show ?case using Cons by (simp del: space_len.simps)
qed simp

lemma fields_loop_space: "cur \<noteq> [] \<Longrightarrow> fields_loop cur (CHR '' '' # s) = cur # fields_loop [] s"
  by simp

lemma Fields_unwords:
  assumes "list_all is_word ws"
  shows "Fields (unwords ws) = ws"
  using assms
proof (induction ws rule: unwords.induct)
  case (2 w)
  then show ?case using fields_loop_word [of w "[]" "[]"] by (simp add: Fields_def is_word_def)
next
  case (3 w v ws)
  have "fields_loop [] (w @ CHR '' '' # unwords (v # ws)) = w # fields_loop [] (unwords (v # ws))"
    using 3(2) fields_loop_word [of w "[]"] by (simp add: is_word_def fields_loop_space del: fields_loop.simps)
  then show ?case using 3 by (simp add: Fields_def)
qed (simp add: Fields_def)

lemma is_word_dec: "is_word (dec n)"
proof -
  have "32 < byte c \<and> byte c < 127" if "is_digit c" for c using that by (simp add: is_digit_def)
  then show ?thesis using dec_digits [of n] by (auto simp: is_word_def list_all_iff)
qed

lemma is_word_append: "is_word v \<Longrightarrow> is_word w \<Longrightarrow> is_word (v @ w)"
  by (simp add: is_word_def)

lemma is_word_centi: "is_word (centi n)"
proof -
  have "32 < byte (digit_char (k mod 10)) \<and> byte (digit_char (k mod 10)) < 127" for k
    using byte_digit_char [of "k mod 10"] mod_less_divisor [of 10 k] by linarith
  then show ?thesis
    using is_word_dec [of "n div 100"] by (simp add: centi_def is_word_def)
qed

lemma is_word_no_newline: "is_word w \<Longrightarrow> newline \<notin> set w \<and> CHR 0x0D \<notin> set w \<and> CHR '' '' \<notin> set w"
  by (auto simp: is_word_def list_all_iff)

lemma Cut_append: "sep \<notin> set k \<Longrightarrow> Cut (k @ sep # v) sep = (k, v, True)"
proof -
  assume "sep \<notin> set k"
  then have "takeWhile (\<lambda>c. c \<noteq> sep) k = k" "dropWhile (\<lambda>c. c \<noteq> sep) k = []"
    by (auto simp: takeWhile_eq_all_conv)
  then show ?thesis by (simp add: Cut_def takeWhile_tail dropWhile_append3)
qed

text \<open>Lengths, to stay below the line limit of the scanner.\<close>

lemma length_dec: "n < 10 ^ k \<Longrightarrow> 0 < k \<Longrightarrow> length (dec n) \<le> k"
proof (induction k arbitrary: n)
  case (Suc k)
  show ?case
  proof (cases "n < 10 \<or> k = 0")
    case True
    then show ?thesis using Suc.prems by (subst dec.simps) auto
  next
    case False
    then have "n div 10 < 10 ^ k" using Suc.prems by (simp add: less_mult_imp_div_less mult.commute)
    then show ?thesis using False Suc.IH [of "n div 10"] by (subst dec.simps) simp
  qed
qed simp

end
