(* ===== verification/PressureFiles.thy ===== *)
theory PressureFiles
  imports GoText
begin

text \<open>
  Packages \<open>nodeagent/psi\<close> and \<open>nodeagent/oom\<close>: the parsers of the kernel's pressure files
  and of \<open>memory.events\<close>. The node's file system is a parameter: opening and reading a
  path gives its content or an error, \<open>os.Stat\<close> succeeds or not.
\<close>

record node_fs =
  fs_read :: "string \<Rightarrow> go_error + string"
  fs_stat :: "string \<Rightarrow> bool"
  fs_not_exist :: "go_error \<Rightarrow> bool"

definition go_parse_error :: "parse_error \<Rightarrow> go_error" where
  "go_parse_error e =
     (case e of ErrSyntax \<Rightarrow> Err ''invalid syntax'' | ErrRange \<Rightarrow> Err ''value out of range'')"

section \<open>Pressure files\<close>

record psi_line =
  Avg10 :: float64
  Avg60 :: float64
  Avg300 :: float64
  TotalUS :: uint64

definition zero_line :: psi_line where
  "zero_line = \<lparr>Avg10 = 0, Avg60 = 0, Avg300 = 0, TotalUS = 0\<rparr>"

record psi_stats =
  SomeLine :: psi_line
  FullLine :: psi_line

definition zero_stats :: psi_stats where
  "zero_stats = \<lparr>SomeLine = zero_line, FullLine = zero_line\<rparr>"

text \<open>One iteration of the inner loop: a key with its value.\<close>

definition psi_field :: "psi_line \<Rightarrow> string \<Rightarrow> go_error + psi_line" where
  "psi_field l kv =
     (let (k, v, ok) = Cut kv CHR ''=''
      in if \<not> ok then Inl (Err (''malformed PSI kv: '' @ kv))
         else if k = ''avg10'' then
           (case ParseFloat v of (_, Some e) \<Rightarrow> Inl (go_parse_error e) | (f, None) \<Rightarrow> Inr (l\<lparr>Avg10 := f\<rparr>))
         else if k = ''avg60'' then
           (case ParseFloat v of (_, Some e) \<Rightarrow> Inl (go_parse_error e) | (f, None) \<Rightarrow> Inr (l\<lparr>Avg60 := f\<rparr>))
         else if k = ''avg300'' then
           (case ParseFloat v of (_, Some e) \<Rightarrow> Inl (go_parse_error e) | (f, None) \<Rightarrow> Inr (l\<lparr>Avg300 := f\<rparr>))
         else if k = ''total'' then
           (case ParseUint v of (_, Some e) \<Rightarrow> Inl (go_parse_error e)
              | (n, None) \<Rightarrow> Inr (l\<lparr>TotalUS := word_of_int n\<rparr>))
         else Inr l)"

fun psi_fields :: "psi_line \<Rightarrow> string list \<Rightarrow> go_error + psi_line" where
  "psi_fields l [] = Inr l"
| "psi_fields l (kv # kvs) =
     (case psi_field l kv of Inl e \<Rightarrow> Inl e | Inr l' \<Rightarrow> psi_fields l' kvs)"

definition psi_row :: "psi_stats \<Rightarrow> string \<Rightarrow> go_error + psi_stats" where
  "psi_row s text =
     (let line = TrimSpace text; fields = Fields line
      in if line = [] then Inr s
         else if length fields < 5 then Inl (Err (''malformed PSI line: '' @ line))
         else
           (case psi_fields zero_line (tl fields) of
              Inl e \<Rightarrow> Inl e
            | Inr l \<Rightarrow>
                Inr (if hd fields = ''some'' then s\<lparr>SomeLine := l\<rparr>
                     else if hd fields = ''full'' then s\<lparr>FullLine := l\<rparr>
                     else s)))"

fun psi_rows :: "psi_stats \<Rightarrow> string list \<Rightarrow> go_error + psi_stats" where
  "psi_rows s [] = Inr s"
| "psi_rows s (t # ts) = (case psi_row s t of Inl e \<Rightarrow> Inl e | Inr s' \<Rightarrow> psi_rows s' ts)"

definition psi_Parse :: "string \<Rightarrow> go_error + psi_stats" where
  "psi_Parse content =
     (let (ls, err) = scan_lines content
      in case psi_rows zero_stats ls of
           Inl e \<Rightarrow> Inl e
         | Inr s \<Rightarrow> (case err of Some e \<Rightarrow> Inl e | None \<Rightarrow> Inr s))"

definition psi_ReadFile :: "node_fs \<Rightarrow> string \<Rightarrow> go_error + psi_stats" where
  "psi_ReadFile fs path = (case fs_read fs path of Inl e \<Rightarrow> Inl e | Inr c \<Rightarrow> psi_Parse c)"

section \<open>memory.events\<close>

record oom_events =
  ev_Low :: uint64
  ev_High :: uint64
  ev_Max :: uint64
  ev_OOM :: uint64
  OOMKill :: uint64

text \<open>The number is stored even when \<open>ParseUint\<close> reports an error, which the code ignores.\<close>

definition oom_row :: "oom_events \<Rightarrow> string \<Rightarrow> oom_events" where
  "oom_row e text =
     (case Fields text of
        [k, v] \<Rightarrow>
          (let n = word_of_int (fst (ParseUint v))
           in if k = ''low'' then e\<lparr>ev_Low := n\<rparr>
              else if k = ''high'' then e\<lparr>ev_High := n\<rparr>
              else if k = ''max'' then e\<lparr>ev_Max := n\<rparr>
              else if k = ''oom'' then e\<lparr>ev_OOM := n\<rparr>
              else if k = ''oom_kill'' then e\<lparr>OOMKill := n\<rparr>
              else e)
      | _ \<Rightarrow> e)"

definition zero_events :: oom_events where
  "zero_events = \<lparr>ev_Low = 0, ev_High = 0, ev_Max = 0, ev_OOM = 0, OOMKill = 0\<rparr>"

definition oom_Parse :: "node_fs \<Rightarrow> string \<Rightarrow> go_error + oom_events" where
  "oom_Parse fs path =
     (case fs_read fs path of
        Inl e \<Rightarrow> Inl e
      | Inr content \<Rightarrow>
          (let (ls, err) = scan_lines content; e = fold (\<lambda>t e. oom_row e t) ls zero_events
           in case err of Some x \<Rightarrow> Inl x | None \<Rightarrow> Inr e))"

definition SyntheticSample :: "float64 \<Rightarrow> float64" where
  "SyntheticSample priorLimitBytes = priorLimitBytes * rnd (120 / 100)"

section \<open>Reading back what the kernel prints\<close>

text \<open>Averages in hundredths of a percent and the total stall time in microseconds.\<close>

definition psi_text :: "string \<Rightarrow> nat \<Rightarrow> nat \<Rightarrow> nat \<Rightarrow> nat \<Rightarrow> string" where
  "psi_text kind a b c t =
     unwords [kind, ''avg10='' @ centi a, ''avg60='' @ centi b, ''avg300='' @ centi c, ''total='' @ dec t]"

lemma TrimSpace_id:
  assumes "space_len s = 0" "space_len_end s = 0"
  shows "TrimSpace s = s"
  using assms by (simp add: TrimSpace_def trim_left.simps [of s] trim_right.simps [of s])

lemma psi_fields_text:
  assumes "a \<le> 2 ^ 53" "b \<le> 2 ^ 53" "c \<le> 2 ^ 53" "int t < 2 ^ 64"
  shows "psi_fields zero_line [''avg10='' @ centi a, ''avg60='' @ centi b, ''avg300='' @ centi c, ''total='' @ dec t] =
    Inr \<lparr>Avg10 = rnd (of_nat a / 100), Avg60 = rnd (of_nat b / 100), Avg300 = rnd (of_nat c / 100), TotalUS = of_nat t\<rparr>"
proof -
  have "Cut (''avg10='' @ v) CHR ''='' = (''avg10'', v, True)" "Cut (''avg60='' @ v) CHR ''='' = (''avg60'', v, True)"
    "Cut (''avg300='' @ v) CHR ''='' = (''avg300'', v, True)" "Cut (''total='' @ v) CHR ''='' = (''total'', v, True)" for v
    using Cut_append [of "CHR ''=''" "''avg10''" v] Cut_append [of "CHR ''=''" "''avg60''" v]
      Cut_append [of "CHR ''=''" "''avg300''" v] Cut_append [of "CHR ''=''" "''total''" v] by simp_all
  then show ?thesis
    using assms by (simp add: psi_field_def ParseFloat_centi ParseUint_dec zero_line_def)
qed

lemma space_len_end_printable:
  assumes "32 < byte c" "byte c < 127"
  shows "space_len_end (s @ [c]) = 0"
proof -
  have 1: "space_len [c] = 0" using assms by (intro printable_no_space)
  have 2: "space_len [b, c] \<noteq> 2" for b using assms by auto
  have 3: "space_len [a, b, c] \<noteq> 3" for a b using assms by auto
  show ?thesis
  proof (cases s rule: rev_cases)
    case Nil
    then show ?thesis using 1 by (simp add: space_len_end_def del: space_len.simps)
  next
    case (snoc s' b)
    then show ?thesis using 1 2 3
      by (cases s' rule: rev_cases) (simp_all add: space_len_end_def del: space_len.simps)
  qed
qed

lemma is_word_ends:
  assumes "is_word w"
  obtains v c where "w = v @ [c]" "32 < byte c" "byte c < 127"
  using assms by (cases w rule: rev_cases) (auto simp: is_word_def)

lemma unwords_snoc: "ws \<noteq> [] \<Longrightarrow> unwords (ws @ [w]) = unwords ws @ '' '' @ w"
  by (induction ws rule: unwords.induct) simp_all

lemma TrimSpace_unwords:
  assumes "list_all is_word ws"
  shows "TrimSpace (unwords ws) = unwords ws"
proof (cases ws)
  case Nil
  then show ?thesis by (simp add: TrimSpace_id space_len_end_def)
next
  case (Cons w us)
  have "\<exists>d ds. unwords ws = d # ds \<and> 32 < byte d \<and> byte d < 127"
    using assms Cons by (cases w; cases us) (auto simp: is_word_def)
  then have "space_len (unwords ws) = 0" by (auto intro: printable_no_space simp del: space_len.simps)
  moreover have "\<exists>v c. unwords ws = v @ [c] \<and> 32 < byte c \<and> byte c < 127"
  proof (cases us rule: rev_cases)
    case Nil
    then show ?thesis using assms Cons by (auto elim!: is_word_ends)
  next
    case (snoc us' u)
    then show ?thesis using assms Cons unwords_snoc [of "w # us'" u] is_word_ends [of u] by fastforce
  qed
  then have "space_len_end (unwords ws) = 0" by (auto intro: space_len_end_printable)
  ultimately show ?thesis by (rule TrimSpace_id)
qed

lemma unwords_not_Nil: "ws \<noteq> [] \<Longrightarrow> list_all is_word ws \<Longrightarrow> unwords ws \<noteq> []"
  by (cases ws rule: unwords.cases) (auto simp: is_word_def)

lemma set_unwords: "set (unwords ws) \<subseteq> \<Union> (set ` set ws) \<union> {CHR '' ''}"
  by (induction ws rule: unwords.induct) auto

lemma length_unwords: "length (unwords ws) \<le> sum_list (map (\<lambda>w. length w + 1) ws)"
  by (induction ws rule: unwords.induct) auto

lemma line_ok_unwords:
  assumes "list_all is_word ws" "sum_list (map (\<lambda>w. length w + 1) ws) < 65536"
  shows "line_ok (unwords ws)"
proof -
  have "newline \<notin> set (unwords ws)" "CHR 0x0D \<notin> set (unwords ws)"
    using set_unwords [of ws] assms(1) is_word_no_newline by (auto simp: list_all_iff)
  then show ?thesis
    using length_unwords [of ws] assms(2) by (auto simp: line_ok_def dest: last_in_set)
qed

lemma psi_words:
  assumes "is_word kind"
  shows "list_all is_word [kind, ''avg10='' @ centi a, ''avg60='' @ centi b, ''avg300='' @ centi c, ''total='' @ dec t]"
proof -
  have "is_word ''avg10=''" "is_word ''avg60=''" "is_word ''avg300=''" "is_word ''total=''"
    by (simp_all add: is_word_def)
  then show ?thesis using assms is_word_centi is_word_dec is_word_append by (simp del: append.simps)
qed

lemma length_centi: "n \<le> 2 ^ 53 \<Longrightarrow> length (centi n) \<le> 23"
  using length_dec [of "n div 100" 20] by (simp add: centi_def)

lemma psi_line_ok:
  assumes "is_word kind" "length kind < 100" "a \<le> 2 ^ 53" "b \<le> 2 ^ 53" "c \<le> 2 ^ 53" "t < 2 ^ 64"
  shows "line_ok (psi_text kind a b c t)"
proof -
  have "t < 10 ^ 20" using assms(6) by simp
  then have "length (dec t) \<le> 20" by (intro length_dec) simp_all
  then show ?thesis
    unfolding psi_text_def using assms length_centi [of a] length_centi [of b] length_centi [of c]
    by (intro line_ok_unwords psi_words) simp_all
qed

lemma psi_row_text:
  assumes "is_word kind" "a \<le> 2 ^ 53" "b \<le> 2 ^ 53" "c \<le> 2 ^ 53" "t < 2 ^ 64"
  shows "psi_row s (psi_text kind a b c t) =
    (let l = \<lparr>Avg10 = rnd (of_nat a / 100), Avg60 = rnd (of_nat b / 100), Avg300 = rnd (of_nat c / 100), TotalUS = of_nat t\<rparr>
     in Inr (if kind = ''some'' then s\<lparr>SomeLine := l\<rparr> else if kind = ''full'' then s\<lparr>FullLine := l\<rparr> else s))"
proof -
  let ?ws = "[kind, ''avg10='' @ centi a, ''avg60='' @ centi b, ''avg300='' @ centi c, ''total='' @ dec t]"
  have w: "list_all is_word ?ws" using assms(1) by (rule psi_words)
  have "int t < 2 ^ 64" using assms(5) by simp
  note f = psi_fields_text [OF assms(2-4) this]
  have "unwords ?ws \<noteq> []" using w by (intro unwords_not_Nil) simp_all
  then show ?thesis
    unfolding psi_row_def psi_text_def Let_def TrimSpace_unwords [OF w] Fields_unwords [OF w]
    by (simp only: if_False list.sel f) simp
qed

section \<open>Properties of the parsers\<close>

text \<open>
  (C33) \<open>psi.Parse\<close> reads back what the kernel prints: for every pair of pressure rows, with
  averages given to two decimals and a 64-bit stall total, the statistics returned are the
  nearest floats to the printed averages and the exact totals.
\<close>

theorem psi_reads_kernel_format:
  assumes "\<forall>x \<in> {a1, b1, c1, a2, b2, c2}. x \<le> 2 ^ 53" "t1 < 2 ^ 64" "t2 < 2 ^ 64"
  shows "psi_Parse (unlines [psi_text ''some'' a1 b1 c1 t1, psi_text ''full'' a2 b2 c2 t2]) =
    Inr \<lparr>SomeLine = \<lparr>Avg10 = rnd (of_nat a1 / 100), Avg60 = rnd (of_nat b1 / 100), Avg300 = rnd (of_nat c1 / 100), TotalUS = of_nat t1\<rparr>,
         FullLine = \<lparr>Avg10 = rnd (of_nat a2 / 100), Avg60 = rnd (of_nat b2 / 100), Avg300 = rnd (of_nat c2 / 100), TotalUS = of_nat t2\<rparr>\<rparr>"
proof -
  have w: "is_word ''some''" "is_word ''full''" by (simp_all add: is_word_def)
  have "scan_lines (unlines [psi_text ''some'' a1 b1 c1 t1, psi_text ''full'' a2 b2 c2 t2]) =
      ([psi_text ''some'' a1 b1 c1 t1, psi_text ''full'' a2 b2 c2 t2], None)"
    using assms w by (intro scan_lines_unlines) (simp add: psi_line_ok)
  then show ?thesis
    using assms w by (simp add: psi_Parse_def psi_row_text zero_stats_def Let_def)
qed

theorem psi_reads_kernel_format_witness:
  "psi_Parse (unlines [psi_text ''some'' 1250 300 75 123456, psi_text ''full'' 50 0 0 99]) =
    Inr \<lparr>SomeLine = \<lparr>Avg10 = rnd (1250 / 100), Avg60 = rnd (300 / 100), Avg300 = rnd (75 / 100), TotalUS = 123456\<rparr>,
         FullLine = \<lparr>Avg10 = rnd (50 / 100), Avg60 = rnd (0 / 100), Avg300 = rnd (0 / 100), TotalUS = 99\<rparr>\<rparr>"
  using psi_reads_kernel_format [of 1250 300 75 50 0 0 123456 99] by simp

lemma oom_row_text:
  assumes "is_word k" "int n < 2 ^ 64"
  shows "oom_row e (unwords [k, dec n]) =
    (if k = ''low'' then e\<lparr>ev_Low := of_nat n\<rparr> else if k = ''high'' then e\<lparr>ev_High := of_nat n\<rparr>
     else if k = ''max'' then e\<lparr>ev_Max := of_nat n\<rparr> else if k = ''oom'' then e\<lparr>ev_OOM := of_nat n\<rparr>
     else if k = ''oom_kill'' then e\<lparr>OOMKill := of_nat n\<rparr> else e)"
proof -
  have "Fields (unwords [k, dec n]) = [k, dec n]"
    using assms is_word_dec by (intro Fields_unwords) simp
  then show ?thesis using assms(2) by (simp add: oom_row_def ParseUint_dec del: unwords.simps)
qed

lemma oom_line_ok:
  assumes "is_word k" "length k < 100" "n < 2 ^ 64"
  shows "line_ok (unwords [k, dec n])"
proof -
  have "n < 10 ^ 20" using assms(3) by simp
  then have "length (dec n) \<le> 20" by (intro length_dec) simp_all
  then show ?thesis using assms is_word_dec by (intro line_ok_unwords) simp_all
qed

text \<open>
  \<open>oom.Parse\<close> reads back \<open>memory.events\<close>: for any counters below \<open>2\<^sup>6\<^sup>4\<close>, each field
  holds its counter exactly, and a row with an unknown name changes nothing.
\<close>

theorem oom_reads_kernel_format:
  assumes "fs_read fs path = Inr (unlines (map (\<lambda>(k, n). unwords [k, dec n])
      [(''low'', a), (''high'', b), (''max'', c), (''oom'', d), (''oom_kill'', k), (''oom_group_kill'', g)]))"
    and "\<forall>n \<in> {a, b, c, d, k, g}. n < 2 ^ 64"
  shows "oom_Parse fs path =
    Inr \<lparr>ev_Low = of_nat a, ev_High = of_nat b, ev_Max = of_nat c, ev_OOM = of_nat d, OOMKill = of_nat k\<rparr>"
proof -
  let ?rows = "[(''low'', a), (''high'', b), (''max'', c), (''oom'', d), (''oom_kill'', k), (''oom_group_kill'', g)]"
  let ?ls = "map (\<lambda>(k, n). unwords [k, dec n]) ?rows"
  have w: "is_word ''low''" "is_word ''high''" "is_word ''max''" "is_word ''oom''" "is_word ''oom_kill''"
    "is_word ''oom_group_kill''" by (simp_all add: is_word_def)
  have "int n < 2 ^ 64" if "n \<in> {a, b, c, d, k, g}" for n using assms(2) that by auto
  then have n: "int a < 2 ^ 64" "int b < 2 ^ 64" "int c < 2 ^ 64" "int d < 2 ^ 64" "int k < 2 ^ 64" "int g < 2 ^ 64"
    by simp_all
  have "scan_lines (unlines ?ls) = (?ls, None)"
    using assms(2) w by (intro scan_lines_unlines) (simp add: oom_line_ok del: unwords.simps)
  then show ?thesis
    using assms(1) w n by (simp add: oom_Parse_def oom_row_text zero_events_def del: unwords.simps)
qed

theorem oom_reads_kernel_format_witness:
  "oom_Parse \<lparr>fs_read = (\<lambda>_. Inr (unlines (map (\<lambda>(k, n). unwords [k, dec n])
      [(''low'', 0), (''high'', 1), (''max'', 2), (''oom'', 3), (''oom_kill'', 4), (''oom_group_kill'', 5)]))),
      fs_stat = (\<lambda>_. True), fs_not_exist = (\<lambda>_. False)\<rparr> ''memory.events'' =
    Inr \<lparr>ev_Low = 0, ev_High = 1, ev_Max = 2, ev_OOM = 3, OOMKill = 4\<rparr>"
  by (subst oom_reads_kernel_format [where a = 0 and b = 1 and c = 2 and d = 3 and k = 4 and g = 5]) simp_all

end
