(* ===== verification/Ingest.thy ===== *)
theory Ingest
  imports Histogram PressureFiles
begin

text \<open>
  The node agent's signal processing: package \<open>ingest\<close> (the CPU stream and the memory peak
  extractor), package \<open>watermark\<close> and package \<open>trigger\<close>. Each object is guarded by its own
  mutex, so its methods are atomic and a sequence of calls is a sequence of steps.
\<close>

section \<open>CPU stream\<close>

record cpu_stream =
  cs_h :: histogram

definition NewCPUStream :: "go_math \<Rightarrow> (go_error + cpu_stream) go" where
  "NewCPUStream m =
     go_bind (New m DefaultCPUOptions)
       (\<lambda>r. case r of Inl e \<Rightarrow> Ret (Inl e) | Inr h \<Rightarrow> Ret (Inr \<lparr>cs_h = h\<rparr>))"

definition cpu_Record :: "go_math \<Rightarrow> cpu_stream \<Rightarrow> float64 \<Rightarrow> time \<Rightarrow> cpu_stream go" where
  "cpu_Record m s coresUsed t =
     go_bind (AddSample m (cs_h s) coresUsed (Fin 1) t) (\<lambda>h. Ret (s\<lparr>cs_h := h\<rparr>))"

definition cpu_Snapshot :: "cpu_stream \<Rightarrow> histogram" where
  "cpu_Snapshot s = cs_h s"

section \<open>Memory peaks\<close>

record memory_peak =
  mp_h :: histogram
  mp_interval :: duration
  curStart :: time
  curPeak :: uint64
  absPeak :: uint64

definition NewMemoryPeakExtractor :: "go_math \<Rightarrow> duration \<Rightarrow> (go_error + memory_peak) go" where
  "NewMemoryPeakExtractor m interval =
     go_bind (New m DefaultMemoryOptions)
       (\<lambda>r. case r of
          Inl e \<Rightarrow> Ret (Inl e)
        | Inr h \<Rightarrow> Ret (Inr \<lparr>mp_h = h, mp_interval = interval, curStart = zero_time, curPeak = 0, absPeak = 0\<rparr>))"

definition flushLocked :: "go_math \<Rightarrow> memory_peak \<Rightarrow> time \<Rightarrow> memory_peak go" where
  "flushLocked m p t =
     go_bind (if 0 < curPeak p then AddSample m (mp_h p) (f64_of_int (uint (curPeak p))) (Fin 1) t
              else Ret (mp_h p))
       (\<lambda>h. Ret (p\<lparr>mp_h := h, curPeak := 0, curStart := t\<rparr>))"

definition mem_Record :: "go_math \<Rightarrow> memory_peak \<Rightarrow> uint64 \<Rightarrow> time \<Rightarrow> memory_peak go" where
  "mem_Record m p bytesUsed t =
     (let p1 = (if IsZero (curStart p) then p\<lparr>curStart := t\<rparr> else p);
          p2 = (if curPeak p1 < bytesUsed then p1\<lparr>curPeak := bytesUsed\<rparr> else p1);
          p3 = (if absPeak p2 < bytesUsed then p2\<lparr>absPeak := bytesUsed\<rparr> else p2)
      in if mp_interval p3 \<le> time_sub t (curStart p3) then flushLocked m p3 t else Ret p3)"

definition mem_Flush :: "go_math \<Rightarrow> memory_peak \<Rightarrow> time \<Rightarrow> memory_peak go" where
  "mem_Flush m p t = flushLocked m p t"

definition AbsolutePeak :: "memory_peak \<Rightarrow> uint64" where
  "AbsolutePeak p = absPeak p"

definition mem_Snapshot :: "memory_peak \<Rightarrow> histogram" where
  "mem_Snapshot p = mp_h p"

section \<open>Watermarks\<close>

record watermark =
  wm_value :: float64
  wm_updatedAt :: time
  wm_window :: duration

definition wm_New :: "duration \<Rightarrow> watermark" where
  "wm_New window = \<lparr>wm_value = 0, wm_updatedAt = zero_time, wm_window = window\<rparr>"

definition decayedLocked :: "watermark \<Rightarrow> time \<Rightarrow> float64" where
  "decayedLocked w t =
     (if wm_window w \<le> 0 \<or> IsZero (wm_updatedAt w) then wm_value w
      else
        (let elapsed = time_sub t (wm_updatedAt w)
         in if elapsed \<le> 0 then wm_value w
            else if wm_window w \<le> elapsed then 0
            else (let frac = Fin 1 - f64_of_int elapsed / f64_of_int (wm_window w)
                  in wm_value w * frac)))"

definition wm_Record :: "watermark \<Rightarrow> float64 \<Rightarrow> time \<Rightarrow> watermark" where
  "wm_Record w v t =
     (let cur = decayedLocked w t
      in if cur < v then w\<lparr>wm_value := v, wm_updatedAt := t\<rparr>
         else w\<lparr>wm_value := cur, wm_updatedAt := t\<rparr>)"

definition wm_Read :: "watermark \<Rightarrow> time \<Rightarrow> float64" where
  "wm_Read w t = decayedLocked w t"

section \<open>Triggers\<close>

record scale_down_decision =
  sd_Fire :: bool
  sd_NewTarget :: float64
  sd_Reason :: string

record scale_up_decision =
  su_Fire :: bool
  su_Reason :: string

definition EvaluateScaleUp ::
  "psi_line \<Rightarrow> float64 \<Rightarrow> float64 \<Rightarrow> float64 \<Rightarrow> float64 \<Rightarrow> scale_up_decision" where
  "EvaluateScaleUp p psiThreshold utilization requests proactivePct =
     (if psiThreshold \<le> Avg10 p \<and> 0 < psiThreshold then \<lparr>su_Fire = True, su_Reason = ''psi''\<rparr>
      else if 0 < requests \<and> requests * proactivePct / Fin 100 \<le> utilization \<and> 0 < proactivePct
      then \<lparr>su_Fire = True, su_Reason = ''utilization''\<rparr>
      else \<lparr>su_Fire = False, su_Reason = []\<rparr>)"

definition EvaluateCPUScaleDown :: "float64 \<Rightarrow> float64 \<Rightarrow> float64 \<Rightarrow> scale_down_decision" where
  "EvaluateCPUScaleDown utilization watermark bufferDropPct =
     (let no = \<lparr>sd_Fire = False, sd_NewTarget = 0, sd_Reason = []\<rparr>
      in if watermark \<le> 0 \<or> bufferDropPct \<le> 0 then no
         else
           (let threshold = watermark * (Fin 1 - bufferDropPct / Fin 100)
            in if utilization \<le> threshold
               then \<lparr>sd_Fire = True, sd_NewTarget = utilization, sd_Reason = ''buffer-drop''\<rparr>
               else no))"

definition EvaluateMemoryScaleDown :: "float64 \<Rightarrow> float64 \<Rightarrow> float64 \<Rightarrow> scale_down_decision" where
  "EvaluateMemoryScaleDown proposed observedPeak marginPct =
     (if observedPeak \<le> 0
      then \<lparr>sd_Fire = 0 < proposed, sd_NewTarget = proposed, sd_Reason = ''no-peak-data''\<rparr>
      else
        (let flr = observedPeak * (Fin 1 + marginPct / Fin 100);
             proposed' = (if proposed < flr then flr else proposed)
         in \<lparr>sd_Fire = True, sd_NewTarget = proposed', sd_Reason = ''peak-bound''\<rparr>))"

section \<open>Peak extraction as a function of the sample sequence\<close>

fun mem_records :: "go_math \<Rightarrow> memory_peak \<Rightarrow> (uint64 \<times> time) list \<Rightarrow> memory_peak go" where
  "mem_records m p [] = Ret p"
| "mem_records m p ((b, t) # xs) = go_bind (mem_Record m p b t) (\<lambda>p'. mem_records m p' xs)"

text \<open>
  The specification: samples are collected into windows; a sample that completes the
  interval closes its window, and a closed window emits its maximum if that is positive.
  The result lists the emitted peaks with the closing times, then the maximum and start of
  the window still open.
\<close>

fun windows ::
  "duration \<Rightarrow> time \<Rightarrow> uint64 \<Rightarrow> (uint64 \<times> time) list \<Rightarrow> (uint64 \<times> time) list \<times> time \<times> uint64" where
  "windows iv start peak [] = ([], start, peak)"
| "windows iv start peak ((b, t) # xs) =
     (let start' = (if IsZero start then t else start); peak' = max peak b
      in if iv \<le> time_sub t start'
         then (let (out, r) = windows iv t 0 xs in ((if 0 < peak' then [(peak', t)] else []) @ out, r))
         else windows iv start' peak' xs)"

fun add_peaks :: "go_math \<Rightarrow> histogram \<Rightarrow> (uint64 \<times> time) list \<Rightarrow> histogram go" where
  "add_peaks m h [] = Ret h"
| "add_peaks m h ((b, t) # xs) =
     go_bind (AddSample m h (f64_of_int (uint b)) (Fin 1) t) (\<lambda>h'. add_peaks m h' xs)"

lemma flushLocked_returns:
  assumes "wf_hist m (mp_h p)"
  shows "\<exists>h. (if 0 < curPeak p then AddSample m (mp_h p) (f64_of_int (uint (curPeak p))) (Fin 1) t else Ret (mp_h p)) = Ret h
    \<and> wf_hist m h \<and> flushLocked m p t = Ret (p\<lparr>mp_h := h, curPeak := 0, curStart := t\<rparr>)"
  using AddSample_returns [OF assms, of "f64_of_int (uint (curPeak p))" "Fin 1" t] assms
  by (auto simp: flushLocked_def)

lemma mem_records_windows:
  assumes "wf_hist m (mp_h p)"
  shows "\<exists>h. add_peaks m (mp_h p) (fst (windows (mp_interval p) (curStart p) (curPeak p) xs)) = Ret h \<and> wf_hist m h \<and>
    mem_records m p xs = Ret (p\<lparr>mp_h := h,
      curStart := fst (snd (windows (mp_interval p) (curStart p) (curPeak p) xs)),
      curPeak := snd (snd (windows (mp_interval p) (curStart p) (curPeak p) xs)),
      absPeak := fold max (map fst xs) (absPeak p)\<rparr>)"
  using assms
proof (induction xs arbitrary: p)
  case (Cons x xs)
  obtain b t where x: "x = (b, t)" by (cases x)
  define q where "q = p\<lparr>curStart := (if IsZero (curStart p) then t else curStart p),
    curPeak := max (curPeak p) b, absPeak := max (absPeak p) b\<rparr>"
  have rec: "mem_Record m p b t = (if mp_interval q \<le> time_sub t (curStart q) then flushLocked m q t else Ret q)"
    by (auto simp: mem_Record_def q_def Let_def max_def)
  have wq: "wf_hist m (mp_h q)" using Cons.prems by (simp add: q_def)
  show ?case
  proof (cases "mp_interval q \<le> time_sub t (curStart q)")
    case True
    obtain h where h: "(if 0 < curPeak q then AddSample m (mp_h q) (f64_of_int (uint (curPeak q))) (Fin 1) t else Ret (mp_h q)) = Ret h"
      "wf_hist m h" "flushLocked m q t = Ret (q\<lparr>mp_h := h, curPeak := 0, curStart := t\<rparr>)"
      using flushLocked_returns [OF wq] by blast
    let ?r = "q\<lparr>mp_h := h, curPeak := 0, curStart := t\<rparr>"
    have "wf_hist m (mp_h ?r)" using h(2) by simp
    from Cons.IH [OF this] h True rec show ?thesis
      by (auto simp: x q_def Let_def max.commute split: prod.splits if_splits)
  next
    case False
    from Cons.IH [OF wq] False rec show ?thesis
      by (auto simp: x q_def Let_def max.commute)
  qed
qed simp

section \<open>Decay of a watermark\<close>

definition decay_frac :: "duration \<Rightarrow> duration \<Rightarrow> float64" where
  "decay_frac e w = Fin 1 - f64_of_int e / f64_of_int w"

lemma f64_of_int64:
  assumes "0 < n" "n < 2 ^ 63"
  obtains a where "f64_of_int n = Fin a" "0 < a"
proof -
  have p: "rnd (2 powi 63) = Fin (2 powi 63)"
    using round_rat_powi [of 63] by (subst rnd_exact) (simp_all add: f64_limit_def)
  have "of_int n \<le> (of_int (2 ^ 63) :: rat)" using assms(2) by (intro of_int_le_iff [THEN iffD2]) simp
  then obtain a where a: "rnd (of_int n) = Fin a"
    using rnd_between [of "of_int n" "2 powi 63"] assms(1) p by auto
  moreover have "Fin 1 \<le> rnd (of_int n)" using rnd_mono [of 1 "of_int n"] assms(1) by simp
  ultimately show thesis using that by (simp add: f64_of_int_def)
qed

lemma decay_frac_range:
  assumes "0 < e" "e \<le> w" "w < 2 ^ 63"
  obtains f where "decay_frac e w = Fin f" "0 \<le> f" "f \<le> 1"
proof -
  obtain a where a: "f64_of_int e = Fin a" "0 < a" using f64_of_int64 [of e] assms by auto
  obtain b where b: "f64_of_int w = Fin b" "0 < b" using f64_of_int64 [of w] assms by auto
  have "f64_of_int e \<le> f64_of_int w" using assms(2) by (rule f64_of_int_mono)
  then have "a / b \<le> 1" "0 \<le> a / b" using a b by simp_all
  then obtain z where z: "rnd (a / b) = Fin z" "0 \<le> z" "z \<le> 1" using rnd_between [of "a / b" 1] by auto
  then show thesis using that rnd_between [of "1 - z" 1] a b by (auto simp: decay_frac_def f64)
qed

lemma decay_frac_antimono:
  assumes "0 < e" "e \<le> e'" "e' \<le> w" "w < 2 ^ 63"
  shows "decay_frac e' w \<le> decay_frac e w"
proof -
  obtain a where a: "f64_of_int e = Fin a" "0 < a" using f64_of_int64 [of e] assms by auto
  obtain a' where a': "f64_of_int e' = Fin a'" "0 < a'" using f64_of_int64 [of e'] assms by auto
  obtain b where b: "f64_of_int w = Fin b" "0 < b" using f64_of_int64 [of w] assms by auto
  have "f64_of_int e \<le> f64_of_int e'" "f64_of_int e' \<le> f64_of_int w" using assms by (auto intro: f64_of_int_mono)
  then have q: "a / b \<le> a' / b" "a' / b \<le> 1" "0 \<le> a / b" using a a' b by (simp_all add: divide_right_mono)
  obtain z where z: "rnd (a / b) = Fin z" using rnd_between [of "a / b" 1] q by auto
  obtain z' where z': "rnd (a' / b) = Fin z'" using rnd_between [of "a' / b" 1] q by auto
  have "z \<le> z'" using rnd_mono [OF q(1)] z z' by simp
  then show ?thesis using a a' b z z' by (simp add: decay_frac_def f64 rnd_mono)
qed

lemma decayedLocked_cases:
  "decayedLocked w t =
     (let e = time_sub t (wm_updatedAt w)
      in if wm_window w \<le> 0 \<or> IsZero (wm_updatedAt w) \<or> e \<le> 0 then wm_value w
         else if wm_window w \<le> e then Fin 0 else wm_value w * decay_frac e (wm_window w))"
  by (simp add: decayedLocked_def decay_frac_def Let_def f64_consts)

lemma decayed_bounds:
  assumes "weight_ok (wm_value w)" "is_int64 (wm_window w)"
  shows "Fin 0 \<le> decayedLocked w t \<and> decayedLocked w t \<le> wm_value w"
proof -
  obtain v where v: "wm_value w = Fin v" "0 \<le> v" "rnd v = Fin v" using weight_okD [OF assms(1)] by blast
  let ?e = "time_sub t (wm_updatedAt w)"
  show ?thesis
  proof (cases "0 < ?e \<and> ?e < wm_window w")
    case True
    then obtain f where f: "decay_frac ?e (wm_window w) = Fin f" "0 \<le> f" "f \<le> 1"
      using decay_frac_range [of ?e "wm_window w"] assms(2) by (auto simp: in_width_def)
    have "Fin v * Fin f \<le> Fin v" using v f by (intro f64_scale_down) simp_all
    moreover have "Fin 0 \<le> Fin v * Fin f" using v f by (simp add: f64 rnd_nonneg)
    ultimately show ?thesis using v f by (simp add: decayedLocked_cases Let_def)
  next
    case False
    then show ?thesis using v by (auto simp: decayedLocked_cases Let_def)
  qed
qed

lemma decayed_antimono:
  assumes "weight_ok (wm_value w)" "is_int64 (wm_window w)" "t \<le> t'"
  shows "decayedLocked w t' \<le> decayedLocked w t"
proof -
  obtain v where v: "wm_value w = Fin v" "0 \<le> v" "rnd v = Fin v" using weight_okD [OF assms(1)] by blast
  let ?e = "time_sub t (wm_updatedAt w)" and ?e' = "time_sub t' (wm_updatedAt w)"
  have le: "?e \<le> ?e'" using assms(3) by (simp add: time_sub_def min_def max_def)
  note b = decayed_bounds [OF assms(1,2)]
  consider "?e \<le> 0" | "wm_window w \<le> ?e'" "0 < ?e" | "0 < ?e" "?e' < wm_window w" by linarith
  then show ?thesis
  proof cases
    case 1
    then have "decayedLocked w t = wm_value w" by (simp add: decayedLocked_cases Let_def)
    then show ?thesis using b by simp
  next
    case 2
    have "decayedLocked w t' = Fin 0 \<or> decayedLocked w t = wm_value w"
      using 2 by (auto simp: decayedLocked_cases Let_def)
    then show ?thesis using b by auto
  next
    case 3
    have "decay_frac ?e' (wm_window w) \<le> decay_frac ?e (wm_window w)"
      using 3 le assms(2) by (intro decay_frac_antimono) (auto simp: in_width_def)
    moreover obtain f where "decay_frac ?e (wm_window w) = Fin f" "0 \<le> f"
      using decay_frac_range [of ?e "wm_window w"] 3 le assms(2) by (auto simp: in_width_def)
    moreover obtain f' where "decay_frac ?e' (wm_window w) = Fin f'" "0 \<le> f'"
      using decay_frac_range [of ?e' "wm_window w"] 3 le assms(2) by (auto simp: in_width_def)
    ultimately have "Fin v * decay_frac ?e' (wm_window w) \<le> Fin v * decay_frac ?e (wm_window w)"
      using v by (auto simp: f64 intro!: rnd_mono mult_left_mono)
    then show ?thesis using 3 le v by (simp add: decayedLocked_cases Let_def)
  qed
qed

section \<open>Properties of the signal processing\<close>

text \<open>
  (C15) The memory peak extractor refines the window specification: after any sequence of
  samples it has not panicked, its histogram has received exactly the maxima of the closed
  windows at their closing times, the open window's start and maximum are tracked, and the
  absolute peak is the largest sample ever seen.
\<close>

theorem peak_extractor_refines_windows:
  assumes "wf_hist m (mp_h p)"
  shows "\<exists>h start peak out. windows (mp_interval p) (curStart p) (curPeak p) xs = (out, start, peak) \<and>
    add_peaks m (mp_h p) out = Ret h \<and> wf_hist m h \<and>
    mem_records m p xs =
      Ret (p\<lparr>mp_h := h, curStart := start, curPeak := peak, absPeak := fold max (map fst xs) (absPeak p)\<rparr>)"
  using mem_records_windows [OF assms, of xs]
  by (cases "windows (mp_interval p) (curStart p) (curPeak p) xs") auto

definition demo_extractor :: memory_peak where
  "demo_extractor = \<lparr>mp_h = demo_hist, mp_interval = 60, curStart = zero_time, curPeak = 0, absPeak = 0\<rparr>"

theorem peak_extractor_refines_windows_witness:
  "\<exists>h. mem_records step_math demo_extractor [(3, 1000), (9, 1010), (5, 1060), (4, 1070)] =
     Ret (demo_extractor\<lparr>mp_h := h, curStart := 1060, curPeak := 4, absPeak := 9\<rparr>) \<and>
     add_peaks step_math demo_hist [(9, 1060)] = Ret h"
proof -
  have "wf_hist step_math (mp_h demo_extractor)" using demo_wf by (simp add: demo_extractor_def)
  moreover have "windows 60 zero_time 0 [(3, 1000), (9, 1010), (5, 1060), (4, 1070)] = ([(9, 1060)], 1060, 4)"
    by (simp add: IsZero_def zero_time_def time_sub_def max_def)
  moreover have "fold max (map fst [(3, 1000), (9, 1010), (5, 1060), (4, 1070 :: time)]) 0 = (9 :: uint64)"
    by (simp add: max_def)
  ultimately show ?thesis
    using peak_extractor_refines_windows [of step_math demo_extractor "[(3, 1000), (9, 1010), (5, 1060), (4, 1070)]"]
    by (auto simp: demo_extractor_def)
qed

text \<open>
  A watermark only falls between two samples: reading later never gives more, the
  reading stays between zero and the recorded value, and it is zero once the window has
  passed.
\<close>

theorem watermark_decays:
  assumes "weight_ok (wm_value w)" "is_int64 (wm_window w)" "t \<le> t'"
  shows "Fin 0 \<le> wm_Read w t' \<and> wm_Read w t' \<le> wm_Read w t \<and> wm_Read w t \<le> wm_value w \<and>
    (0 < wm_window w \<and> \<not> IsZero (wm_updatedAt w) \<and> wm_window w \<le> time_sub t' (wm_updatedAt w) \<longrightarrow> wm_Read w t' = Fin 0)"
  using decayed_bounds [OF assms(1,2)] decayed_antimono [OF assms]
  by (auto simp: wm_Read_def) (simp add: decayedLocked_cases Let_def)

definition demo_watermark :: watermark where
  "demo_watermark = \<lparr>wm_value = Fin 8, wm_updatedAt = 100, wm_window = 20\<rparr>"

theorem watermark_decays_witness:
  "wm_Read demo_watermark 115 \<le> wm_Read demo_watermark 110 \<and> wm_Read demo_watermark 110 = Fin 4"
proof -
  have "weight_ok (wm_value demo_watermark)" "is_int64 (wm_window demo_watermark)" "wm_Read demo_watermark 110 = Fin 4"
    by code_simp+
  then show ?thesis using watermark_decays [of demo_watermark 110 115] by simp
qed

text \<open>
  The decay is not linear over the window when samples keep arriving: a sample below the
  watermark stores the decayed value and restarts the clock, so with one such sample at half
  of the window a quarter of the peak is still standing where the linear decay has reached
  zero.
\<close>

theorem watermark_restarts_decay:
  assumes "wm_window w = 2 * k" "0 < k" "k < 2 ^ 52" "\<not> IsZero (wm_updatedAt w)" "\<not> IsZero (wm_updatedAt w + k)"
    and "wm_value w = Fin v" "0 < v" "rnd (v / 2) = Fin (v / 2)" "rnd (v / 4) = Fin (v / 4)"
  shows "wm_Read w (wm_updatedAt w + 2 * k) = Fin 0 \<and>
    wm_Read (wm_Record w (Fin 0) (wm_updatedAt w + k)) (wm_updatedAt w + 2 * k) = Fin (v / 4)"
proof -
  have d: "time_sub (u + n) u = n" if "0 < n" "n \<le> 2 * k" for u n
    using that assms(3) by (intro time_sub_exact [THEN trans]) simp_all
  have half: "decay_frac k (2 * k) = Fin (1 / 2)"
  proof -
    have "f64_of_int k = Fin (of_int k)" "f64_of_int (2 * k) = Fin (2 * of_int k)"
      using assms(2,3) f64_of_int_exact [of k] f64_of_int_exact [of "2 * k"] by simp_all
    moreover have h: "rnd (1 / 2) = Fin (1 / 2)" by code_simp
    ultimately show ?thesis using assms(2) by (simp add: decay_frac_def f64)
  qed
  have "decayedLocked w (wm_updatedAt w + k) = Fin (v / 2)"
    using assms d [of k "wm_updatedAt w"] half by (simp add: decayedLocked_cases Let_def f64)
  then have r: "wm_Record w (Fin 0) (wm_updatedAt w + k) = w\<lparr>wm_value := Fin (v / 2), wm_updatedAt := wm_updatedAt w + k\<rparr>"
    using assms(7) by (simp add: wm_Record_def)
  have "time_sub (wm_updatedAt w + 2 * k) (wm_updatedAt w + k) = k"
    using d [of k "wm_updatedAt w + k"] assms(2) by (simp add: add.assoc)
  then show ?thesis
    using assms d [of "2 * k" "wm_updatedAt w"] half
    unfolding wm_Read_def r by (simp add: decayedLocked_cases Let_def f64)
qed

theorem watermark_restarts_decay_witness:
  "wm_Read demo_watermark 120 = Fin 0 \<and> wm_Read (wm_Record demo_watermark (Fin 0) 110) 120 = Fin 2"
proof -
  have "rnd 4 = Fin 4" "rnd 2 = Fin 2" by code_simp+
  then show ?thesis
    using watermark_restarts_decay [of demo_watermark 10 8] by (simp add: demo_watermark_def IsZero_def zero_time_def)
qed

text \<open>
  Memory is never scaled below an observed peak: with a positive peak and a non-negative
  margin the decision fires and its target is at least the peak and at least the proposal.
\<close>

theorem memory_scale_down_keeps_peak:
  assumes "repr peak" "Fin 0 < peak" "Fin 0 \<le> margin" "is_fin margin" "proposed \<noteq> NaN"
  shows "sd_Fire (EvaluateMemoryScaleDown proposed peak margin) \<and>
    peak \<le> sd_NewTarget (EvaluateMemoryScaleDown proposed peak margin) \<and>
    proposed \<le> sd_NewTarget (EvaluateMemoryScaleDown proposed peak margin)"
proof -
  obtain g where g: "margin = Fin g" "0 \<le> g" using assms(3,4) by auto
  have "Fin 0 \<le> Fin g / Fin 100" using g by (simp add: f64 rnd_nonneg)
  then have one: "Fin 1 \<le> Fin 1 + Fin g / Fin 100" by (intro f64_le_add) simp_all
  have "peak \<le> peak * (Fin 1 + Fin g / Fin 100)"
  proof (cases "Fin 1 + Fin g / Fin 100")
    case (Fin c)
    then show ?thesis using one assms(1,2) f64_scale_up [of peak c] by (simp add: f64_less_imp_le)
  next
    case PosInf
    then show ?thesis using assms(2) by (cases peak) (simp_all add: f64_ops inf_sgn_def)
  qed (use one in simp_all)
  moreover from this have "peak * (Fin 1 + Fin g / Fin 100) \<noteq> NaN" using f64_le_imp_num by blast
  moreover have "\<not> peak \<le> Fin 0" using assms(2) by (cases peak) auto
  ultimately show ?thesis
    using g assms(5) f64_not_less f64_le_refl f64_le_trans f64_less_imp_le
    by (auto simp: EvaluateMemoryScaleDown_def Let_def f64_consts)
qed

theorem memory_scale_down_keeps_peak_witness:
  "Fin 512 \<le> sd_NewTarget (EvaluateMemoryScaleDown (Fin 100) (Fin 512) (Fin 25))"
proof -
  have "repr (Fin 512)" by code_simp
  then show ?thesis using memory_scale_down_keeps_peak [of "Fin 512" "Fin 25" "Fin 100"] by simp
qed

end
