(* ===== verification/NodeProbe.thy ===== *)
theory NodeProbe
  imports PressureFiles
begin

text \<open>
  Packages \<open>nodeagent/cgroup\<close> and \<open>compat\<close>: where a pod's control group lives, and what the
  node and the cluster support.
\<close>

section \<open>Lexical paths\<close>

text \<open>
  \<open>filepath.Join\<close> drops empty elements, joins with slashes and cleans: empty and \<open>.\<close>
  components vanish, \<open>..\<close> removes the component before it (and vanishes at the root).
\<close>

fun split_slash :: "string \<Rightarrow> string \<Rightarrow> string list" where
  "split_slash cur [] = [cur]"
| "split_slash cur (c # cs) =
     (if c = CHR ''/'' then cur # split_slash [] cs else split_slash (cur @ [c]) cs)"

definition clean_step :: "bool \<Rightarrow> string \<Rightarrow> string list \<Rightarrow> string list" where
  "clean_step rooted c out =
     (if c = [] \<or> c = ''.'' then out
      else if c = ''..'' then
        (if out \<noteq> [] \<and> last out \<noteq> ''..'' then butlast out
         else if rooted then out else out @ [c])
      else out @ [c])"

fun join_slash :: "string list \<Rightarrow> string" where
  "join_slash [] = []"
| "join_slash [c] = c"
| "join_slash (c # cs) = c @ ''/'' @ join_slash cs"

definition Clean :: "string \<Rightarrow> string" where
  "Clean p =
     (let rooted = (p \<noteq> [] \<and> hd p = CHR ''/'');
          out = fold (clean_step rooted) (split_slash [] p) []
      in if rooted then ''/'' @ join_slash out
         else if out = [] then ''.'' else join_slash out)"

definition Join :: "string list \<Rightarrow> string" where
  "Join ps = (let qs = filter (\<lambda>p. p \<noteq> []) ps in if qs = [] then [] else Clean (join_slash qs))"

section \<open>Control groups\<close>

datatype qos_class = Guaranteed | Burstable | BestEffort | OtherQOS string

definition defaultRoot :: string where
  "defaultRoot = ''/sys/fs/cgroup''"

text \<open>The candidates in the order tried; \<open>None\<close> is the unknown class.\<close>

definition candidates :: "string \<Rightarrow> string \<Rightarrow> qos_class \<Rightarrow> string list option" where
  "candidates base uid qos =
     (let uidSafe = ReplaceAll uid CHR ''-'' CHR ''_''
      in case qos of
           Guaranteed \<Rightarrow>
             Some [Join [base, ''kubepods.slice'', ''kubepods-pod'' @ uidSafe @ ''.slice''],
                   Join [base, ''kubepods'', ''pod'' @ uid]]
         | Burstable \<Rightarrow>
             Some [Join [base, ''kubepods.slice'', ''kubepods-burstable.slice'',
                         ''kubepods-burstable-pod'' @ uidSafe @ ''.slice''],
                   Join [base, ''kubepods'', ''burstable'', ''pod'' @ uid]]
         | BestEffort \<Rightarrow>
             Some [Join [base, ''kubepods.slice'', ''kubepods-besteffort.slice'',
                         ''kubepods-besteffort-pod'' @ uidSafe @ ''.slice''],
                   Join [base, ''kubepods'', ''besteffort'', ''pod'' @ uid]]
         | OtherQOS _ \<Rightarrow> None)"

fun first_existing :: "node_fs \<Rightarrow> string list \<Rightarrow> string option" where
  "first_existing fs [] = None"
| "first_existing fs (p # ps) = (if fs_stat fs p then Some p else first_existing fs ps)"

definition PodPath :: "node_fs \<Rightarrow> string \<Rightarrow> string \<Rightarrow> qos_class \<Rightarrow> go_error + string" where
  "PodPath fs cfgRoot uid qos =
     (let base = (if cfgRoot = [] then defaultRoot else cfgRoot)
      in case candidates base uid qos of
           None \<Rightarrow> Inl (Err ''unknown pod QoS'')
         | Some ps \<Rightarrow>
             (case first_existing fs ps of
                Some p \<Rightarrow> Inr p
              | None \<Rightarrow> Inl (Err (''no cgroup slice found for pod '' @ uid))))"

definition PSIFile :: "string \<Rightarrow> string \<Rightarrow> string" where
  "PSIFile slicePath res = Join [slicePath, res @ ''.pressure'']"

definition MemoryEventsFile :: "string \<Rightarrow> string" where
  "MemoryEventsFile slicePath = Join [slicePath, ''memory.events'']"

section \<open>Capabilities\<close>

record node_capabilities =
  CgroupV2 :: bool
  SwapAccounting :: bool
  StaticCPUManager :: bool

definition ProbeNode :: "node_fs \<Rightarrow> string \<Rightarrow> string \<Rightarrow> (go_error option \<times> node_capabilities)" where
  "ProbeNode fs cgroupRoot kubeletConfigPath =
     (let base = (if cgroupRoot = [] then ''/sys/fs/cgroup'' else cgroupRoot);
          caps = \<lparr>CgroupV2 = fs_stat fs (base @ ''/cgroup.controllers''),
                  SwapAccounting = fs_stat fs (base @ ''/memory.swap.events''),
                  StaticCPUManager = False\<rparr>;
          path = (if kubeletConfigPath = [] then ''/var/lib/kubelet/config.yaml'' else kubeletConfigPath)
      in case fs_read fs path of
           Inl e \<Rightarrow> (if fs_not_exist fs e then None else Some e, caps)
         | Inr b \<Rightarrow>
             (None, if Contains b ''cpuManagerPolicy: static'' then caps\<lparr>StaticCPUManager := True\<rparr> else caps))"

record cluster_capabilities =
  KubeletMinor :: int
  PodLevelResources :: bool
  ContainerLevelOnly :: bool

definition capsFromVersion :: "string \<Rightarrow> cluster_capabilities" where
  "capsFromVersion minorField =
     (let minor = fst (Atoi (TrimSuffix minorField ''+''))
      in \<lparr>KubeletMinor = minor, PodLevelResources = 36 \<le> minor,
          ContainerLevelOnly = \<not> 36 \<le> minor \<and> 33 \<le> minor\<rparr>)"

definition ProbeCluster :: "go_error + string \<Rightarrow> go_error + cluster_capabilities" where
  "ProbeCluster serverVersion =
     (case serverVersion of Inl e \<Rightarrow> Inl e | Inr v \<Rightarrow> Inr (capsFromVersion v))"

section \<open>Properties of the probes\<close>

lemma first_existing_find: "first_existing fs ps = List.find (fs_stat fs) ps"
  by (induction ps) simp_all

text \<open>A plain component survives cleaning unchanged.\<close>

definition plain :: "string \<Rightarrow> bool" where
  "plain c \<longleftrightarrow> c \<noteq> [] \<and> c \<noteq> ''.'' \<and> c \<noteq> ''..'' \<and> CHR ''/'' \<notin> set c"

lemma split_slash_plain: "CHR ''/'' \<notin> set c \<Longrightarrow> split_slash cur c = [cur @ c]"
  by (induction c arbitrary: cur) auto

lemma split_slash_append:
  "CHR ''/'' \<notin> set c \<Longrightarrow> split_slash cur (c @ CHR ''/'' # s) = (cur @ c) # split_slash [] s"
  by (induction c arbitrary: cur) auto

lemma split_join:
  "cs \<noteq> [] \<Longrightarrow> \<forall>c \<in> set cs. CHR ''/'' \<notin> set c \<Longrightarrow> split_slash [] (join_slash cs) = cs"
  by (induction cs rule: join_slash.induct) (simp_all add: split_slash_plain split_slash_append)

lemma fold_clean_plain: "list_all plain cs \<Longrightarrow> fold (clean_step r) cs out = out @ cs"
  by (induction cs arbitrary: out) (auto simp: clean_step_def plain_def)

lemma Clean_rooted:
  assumes "list_all plain cs" "cs \<noteq> []"
  shows "Clean (''/'' @ join_slash cs) = ''/'' @ join_slash cs"
proof -
  have "join_slash ([] # cs) = ''/'' @ join_slash cs" using assms(2) by (cases cs) simp_all
  moreover have "split_slash [] (join_slash ([] # cs)) = [] # cs"
    using assms(1) by (intro split_join) (auto simp: list_all_iff plain_def)
  ultimately have "split_slash [] (''/'' @ join_slash cs) = [] # cs" by simp
  then show ?thesis
    using fold_clean_plain [OF assms(1)] by (simp add: Clean_def clean_step_def Let_def)
qed

lemma Join_default:
  assumes "list_all plain cs"
  shows "Join (defaultRoot # cs) = join_slash (defaultRoot # cs)"
proof -
  have f: "filter (\<lambda>p. p \<noteq> []) (defaultRoot # cs) = defaultRoot # cs"
    using assms by (auto simp: defaultRoot_def list_all_iff plain_def intro!: filter_True)
  have e: "join_slash (defaultRoot # cs) = ''/'' @ join_slash ([''sys'', ''fs'', ''cgroup''] @ cs)"
    by (cases cs) (simp_all add: defaultRoot_def)
  have "list_all plain ([''sys'', ''fs'', ''cgroup''] @ cs)" using assms by (simp add: plain_def)
  from Clean_rooted [OF this] show ?thesis by (simp only: Join_def f e Let_def) simp
qed

lemma ReplaceAll_inj:
  assumes "b \<notin> set u" "b \<notin> set v" "ReplaceAll u a b = ReplaceAll v a b"
  shows "u = v"
  using assms
proof (induction u arbitrary: v)
  case (Cons c u)
  then show ?case by (cases v) (auto simp: ReplaceAll_def split: if_splits)
qed (simp add: ReplaceAll_def)

lemma candidates_default:
  assumes "CHR ''/'' \<notin> set uid"
  shows "candidates defaultRoot uid qos =
    (let safe = ReplaceAll uid CHR ''-'' CHR ''_''
     in case qos of
          Guaranteed \<Rightarrow> Some [defaultRoot @ ''/kubepods.slice/kubepods-pod'' @ safe @ ''.slice'',
                             defaultRoot @ ''/kubepods/pod'' @ uid]
        | Burstable \<Rightarrow> Some [defaultRoot @ ''/kubepods.slice/kubepods-burstable.slice/kubepods-burstable-pod'' @ safe @ ''.slice'',
                            defaultRoot @ ''/kubepods/burstable/pod'' @ uid]
        | BestEffort \<Rightarrow> Some [defaultRoot @ ''/kubepods.slice/kubepods-besteffort.slice/kubepods-besteffort-pod'' @ safe @ ''.slice'',
                             defaultRoot @ ''/kubepods/besteffort/pod'' @ uid]
        | OtherQOS _ \<Rightarrow> None)"
proof -
  have "CHR ''/'' \<notin> set (ReplaceAll uid CHR ''-'' CHR ''_'')" using assms by (auto simp: ReplaceAll_def)
  then show ?thesis
    using assms by (cases qos) (simp_all add: candidates_def Join_default plain_def Let_def)
qed

text \<open>
  (C34) Two pods never share a control group: under the default root, pods with different UIDs
  (no slash and no underscore in them, as in every UUID) resolve to different paths, whatever
  their classes and whatever exists on disk when each is resolved.
\<close>

theorem pod_paths_distinct:
  assumes "PodPath fs [] u q = Inr p" "PodPath fs' [] v q' = Inr p'" "u \<noteq> v"
    and "\<forall>c \<in> set u \<union> set v. c \<noteq> CHR ''/'' \<and> c \<noteq> CHR ''_''"
  shows "p \<noteq> p'"
proof -
  have s: "CHR ''/'' \<notin> set u" "CHR ''/'' \<notin> set v" "CHR ''_'' \<notin> set u" "CHR ''_'' \<notin> set v"
    using assms(4) by auto
  have ne: "ReplaceAll u CHR ''-'' CHR ''_'' \<noteq> ReplaceAll v CHR ''-'' CHR ''_''"
    using ReplaceAll_inj [OF s(3,4)] assms(3) by blast
  obtain ps ps' where ps: "candidates defaultRoot u q = Some ps" "candidates defaultRoot v q' = Some ps'"
    and mem: "p \<in> set ps" "p' \<in> set ps'"
    using assms(1,2) by (auto simp: PodPath_def first_existing_find dest!: find_Some_set split: option.splits)
  have "\<forall>x \<in> set ps. \<forall>y \<in> set ps'. x \<noteq> y"
    using ps ne assms(3) unfolding candidates_default [OF s(1)] candidates_default [OF s(2)]
    by (cases q; cases q') (auto simp: Let_def)
  then show ?thesis using mem by blast
qed

definition demo_fs :: node_fs where
  "demo_fs = \<lparr>fs_read = (\<lambda>_. Inl (Err ''no file'')), fs_stat = (\<lambda>p. True), fs_not_exist = (\<lambda>_. True)\<rparr>"

theorem pod_paths_distinct_witness:
  "''/sys/fs/cgroup/kubepods.slice/kubepods-poda_1.slice'' \<noteq> ''/sys/fs/cgroup/kubepods.slice/kubepods-podb_2.slice''"
proof (rule pod_paths_distinct)
  show "PodPath demo_fs [] ''a-1'' Guaranteed = Inr ''/sys/fs/cgroup/kubepods.slice/kubepods-poda_1.slice''"
    "PodPath demo_fs [] ''b-2'' Guaranteed = Inr ''/sys/fs/cgroup/kubepods.slice/kubepods-podb_2.slice''"
    by code_simp+
qed simp_all

text \<open>
  The capability flags exclude each other: pod-level resources from minor version 36 on,
  container-level only for 33 to 35, neither below; a minor version the server reports with a
  plus sign counts as the plain number.
\<close>

theorem capabilities_of_minor:
  assumes "n < 2 ^ 63" "suffix = [] \<or> suffix = ''+''"
  shows "capsFromVersion (dec n @ suffix) =
    \<lparr>KubeletMinor = int n, PodLevelResources = 36 \<le> n, ContainerLevelOnly = 33 \<le> n \<and> n < 36\<rparr>"
proof -
  have d: "\<forall>c \<in> set (dec n). is_digit c" by (rule dec_digits)
  obtain c cs where c: "dec n = c # cs" by (meson dec_not_Nil neq_Nil_conv)
  then have sign: "strip_sign (dec n) = (False, dec n)" using d digit_not_special [of c] by (simp add: strip_sign_def)
  have t: "TrimSuffix (dec n @ suffix) ''+'' = dec n"
  proof (cases "suffix = []")
    case True
    obtain e es where "rev (dec n) = e # es" by (meson dec_not_Nil rev_is_Nil_conv neq_Nil_conv)
    moreover from this have "is_digit e" using d by (metis list.set_intros(1) set_rev)
    ultimately show ?thesis using True digit_not_special [of e] by (simp add: TrimSuffix_def)
  next
    case False
    then show ?thesis using assms(2) by (simp add: TrimSuffix_def)
  qed
  have "int n < 2 ^ 63" using assms(1) by simp
  then have "Atoi (dec n) = (int n, None)" by (simp add: Atoi_def sign ParseUint_dec)
  then show ?thesis by (auto simp: capsFromVersion_def t)
qed

theorem capabilities_of_minor_witness:
  "capsFromVersion (dec 35 @ ''+'') = \<lparr>KubeletMinor = 35, PodLevelResources = False, ContainerLevelOnly = True\<rparr>"
  using capabilities_of_minor [of 35 "''+''"] by simp

end
