(* ===== verification/Api.thy ===== *)
theory Api
  imports Clock
begin

text \<open>
  The custom resources of \<open>api/v1alpha1\<close> and the fields of the built-in Kubernetes objects
  that the program reads or writes. A \<open>resource.Quantity\<close> belongs to the Kubernetes
  libraries: its type is the parameter \<open>'q\<close>, and the operations the program calls on it are
  the record \<open>quantity_ops\<close>.
\<close>

section \<open>Kubernetes objects\<close>

record 'q quantity_ops =
  q_parse :: "string \<Rightarrow> 'q option"
  q_value :: "'q \<Rightarrow> int64"
  q_milli :: "'q \<Rightarrow> int64"
  q_new :: "int64 \<Rightarrow> 'q"
  q_new_milli :: "int64 \<Rightarrow> 'q"

type_synonym 'q resource_list = "string \<rightharpoonup> 'q"

abbreviation ResourceCPU :: string where "ResourceCPU \<equiv> ''cpu''"
abbreviation ResourceMemory :: string where "ResourceMemory \<equiv> ''memory''"

record owner_ref =
  or_apiVersion :: string
  or_kind :: string
  or_name :: string
  or_uid :: string
  or_controller :: bool

record object_meta =
  om_namespace :: string
  om_name :: string
  om_uid :: string
  om_annotations :: "string \<rightharpoonup> string"
  om_ownerRefs :: "owner_ref list"
  om_finalizers :: "string list"
  om_deletionTimestamp :: "time option"
  om_creationTimestamp :: time

record condition =
  c_type :: string
  c_status :: string

abbreviation ConditionTrue :: string where "ConditionTrue \<equiv> ''True''"

datatype int_or_string = IntVal int32 | StrVal string

record cross_ref =
  tr_kind :: string
  tr_name :: string

section \<open>The API group\<close>

record group_version =
  gv_Group :: string
  gv_Version :: string

definition SchemeGroupVersion :: group_version where
  "SchemeGroupVersion = \<lparr>gv_Group = ''autoscaling.brycemclachlan.me'', gv_Version = ''v1alpha1''\<rparr>"

definition GroupVersion :: group_version where
  "GroupVersion = SchemeGroupVersion"

text \<open>\<open>schema.GroupVersion.String\<close>: the core group is printed without its name.\<close>

definition GroupVersion_String :: "group_version \<Rightarrow> string" where
  "GroupVersion_String g = (if gv_Group g \<noteq> [] then gv_Group g @ ''/'' @ gv_Version g else gv_Version g)"

section \<open>PerPodVerticalPodAutoscaler\<close>

datatype update_mode = UpdateModeUnset | UpdateModeOff | UpdateModeInitial | UpdateModeInPlace | UpdateModeRecreate

record infeasible_behavior =
  MaxSurge :: "int_or_string option"
  MaxUnavailable :: "int_or_string option"

record update_policy =
  UpdateMode :: update_mode
  AnomalyEvictionTimeoutSeconds :: int32
  SignificantChangeThresholdPercentage :: int32
  InfeasibleUpdateBehavior :: infeasible_behavior
  BurstTimeoutSeconds :: int32

record 'q pod_level_policy =
  plp_ResourceName :: string
  plp_MinAllowed :: "'q option"
  plp_MaxAllowed :: "'q option"

record 'q container_policy =
  cp_ContainerName :: string
  cp_MinAllowed :: "'q resource_list"
  cp_MaxAllowed :: "'q resource_list"

record 'q resource_policy =
  PodLevelPolicies :: "'q pod_level_policy list"
  ContainerPolicies :: "'q container_policy list"

record recommender_policy =
  TargetPercentile :: string
  LowerBoundPercentile :: string
  UpperBoundPercentile :: string
  SafetyMarginPercentage :: int32

record cpu_thresholds =
  cpu_ScaleUpPSI :: string
  ScaleDownBufferDropPercentage :: int32

record memory_thresholds =
  memory_ScaleUpPSI :: string
  WatermarkDecayWindowHours :: int32

record scaling_thresholds =
  st_CPU :: cpu_thresholds
  st_Memory :: memory_thresholds

record 'q ppvpa_spec =
  TargetRef :: cross_ref
  TargetReplicas :: "int32 option"
  UpdatePolicy :: update_policy
  ResourcePolicy :: "'q resource_policy"
  RecommenderPolicy :: recommender_policy
  ScalingThresholds :: scaling_thresholds

record 'q container_recommendation =
  cr_ContainerName :: string
  cr_LowerBound :: "'q resource_list"
  cr_Target :: "'q resource_list"
  cr_UncappedTarget :: "'q resource_list"
  cr_UpperBound :: "'q resource_list"

record 'q pod_level_recommendation =
  pl_LowerBound :: "'q resource_list"
  pl_Target :: "'q resource_list"
  pl_UncappedTarget :: "'q resource_list"
  pl_UpperBound :: "'q resource_list"

record 'q recommendation =
  rec_PodLevelTarget :: "'q resource_list"
  rec_PodLevel :: "'q pod_level_recommendation"
  rec_ContainerRecommendations :: "'q container_recommendation list"

record 'q ppvpa_status =
  DefaultRecommendation :: "'q recommendation option"
  ActiveReplicas :: int32
  TemporaryReplicas :: int32
  ppvpa_Conditions :: "condition list"

record 'q ppvpa =
  ppvpa_meta :: object_meta
  ppvpa_Spec :: "'q ppvpa_spec"
  ppvpa_Status :: "'q ppvpa_status"

section \<open>PodResourceRecommendation\<close>

abbreviation PRRConditionAnomalous :: string where "PRRConditionAnomalous \<equiv> ''Anomalous''"
abbreviation PRRConditionInfeasible :: string where "PRRConditionInfeasible \<equiv> ''Infeasible''"
abbreviation PRRConditionPodLevelUnsupported :: string where
  "PRRConditionPodLevelUnsupported \<equiv> ''PodLevelUnsupported''"

record pod_level_contention =
  plc_Memory :: string
  plc_CPU :: string
  plc_LastUpdated :: "time option"

record container_level_contention =
  clc_ContainerName :: string
  clc_Memory :: string
  clc_CPU :: string
  clc_LastUpdated :: "time option"

record contention_high_watermarks =
  chw_PodLevel :: "pod_level_contention option"
  chw_ContainerLevel :: "container_level_contention list"

record observed_peak_pod_level =
  opp_Memory :: string

record observed_peak_container =
  opc_ContainerName :: string
  opc_Memory :: string

record observed_peak =
  op_PodLevel :: "observed_peak_pod_level option"
  op_Containers :: "observed_peak_container list"

record 'q prr_status =
  ContentionHighWatermarks :: "contention_high_watermarks option"
  ObservedPeak :: "observed_peak option"
  prr_PodLevelTarget :: "'q resource_list"
  ContainerRecommendations :: "'q container_recommendation list"
  HistogramCheckpoint :: string
  prr_Conditions :: "condition list"

record 'q prr =
  prr_meta :: object_meta
  TargetPodName :: string
  prr_Status :: "'q prr_status"

section \<open>PerPodVerticalPodAutoscalerCheckpoint\<close>

record ppvpa_checkpoint_status =
  AggregateHistogramCheckpoint :: string
  LastUpdateTime :: "time option"
  cp_Conditions :: "condition list"

record ppvpa_checkpoint =
  checkpoint_meta :: object_meta
  PPVPARef :: string
  checkpoint_Status :: ppvpa_checkpoint_status

section \<open>Shared readings of objects\<close>

text \<open>\<open>conditionTrue\<close> of the webhook and \<open>hasCondition\<close> of the controller are the same loop.\<close>

fun hasCondition :: "condition list \<Rightarrow> string \<Rightarrow> bool" where
  "hasCondition [] t = False"
| "hasCondition (c # cs) t =
     (if c_type c = t \<and> c_status c = ConditionTrue then True else hasCondition cs t)"

text \<open>The inner loop over owner references: some reference carries the given UID.\<close>

fun owned_by :: "string \<Rightarrow> owner_ref list \<Rightarrow> bool" where
  "owned_by uid [] = False"
| "owned_by uid (o' # os) = (if or_uid o' = uid then True else owned_by uid os)"

lemma hasCondition_iff:
  "hasCondition cs t \<longleftrightarrow> (\<exists>c \<in> set cs. c_type c = t \<and> c_status c = ConditionTrue)"
  by (induction cs) auto

lemma owned_by_iff: "owned_by uid os \<longleftrightarrow> (\<exists>r \<in> set os. or_uid r = uid)"
  by (induction os) auto

section \<open>Concrete objects\<close>

text \<open>Inputs at which the theorems of the component theories are evaluated.\<close>

definition demo_status :: "string \<Rightarrow> string list \<Rightarrow> string option \<Rightarrow> int prr_status" where
  "demo_status ck names peak =
     \<lparr>ContentionHighWatermarks = None,
      ObservedPeak = map_option (\<lambda>s. \<lparr>op_PodLevel = Some \<lparr>opp_Memory = s\<rparr>, op_Containers = []\<rparr>) peak,
      prr_PodLevelTarget = Map.empty,
      ContainerRecommendations =
        map (\<lambda>n. \<lparr>cr_ContainerName = n, cr_LowerBound = Map.empty, cr_Target = Map.empty,
                 cr_UncappedTarget = Map.empty, cr_UpperBound = Map.empty\<rparr>) names,
      HistogramCheckpoint = ck, prr_Conditions = []\<rparr>"

definition demo_meta :: "string \<Rightarrow> object_meta" where
  "demo_meta n =
     \<lparr>om_namespace = ''ns'', om_name = n, om_uid = n, om_annotations = Map.empty, om_ownerRefs = [],
      om_finalizers = [], om_deletionTimestamp = None, om_creationTimestamp = 0\<rparr>"

definition demo_prr :: "string \<Rightarrow> string list \<Rightarrow> string option \<Rightarrow> int prr" where
  "demo_prr ck names peak =
     \<lparr>prr_meta = demo_meta ''prr'', TargetPodName = ''pod'', prr_Status = demo_status ck names peak\<rparr>"

text \<open>Quantities as plain integers, written as the number of bytes, with 1000 milli-units each.\<close>

definition demo_quantity :: "int quantity_ops" where
  "demo_quantity =
     \<lparr>q_parse = (\<lambda>s. if s = ''3G'' then Some 3000000000 else None), q_value = (\<lambda>n. n),
      q_milli = (\<lambda>n. n * 1000), q_new = (\<lambda>n. n), q_new_milli = (\<lambda>n. n div 1000)\<rparr>"

end
