(* ===== verification/Patcher.thy ===== *)
theory Patcher
  imports Api "HOL-Library.Multiset"
begin

text \<open>
  Package \<open>nodeagent/patcher\<close>: the queue of pending resize patches, a max-heap by impact,
  and the submission of one patch. \<open>container/heap\<close> is modelled as it is written: sifting
  up and down on the slice.
\<close>

section \<open>container/heap\<close>

definition swap :: "'a list \<Rightarrow> nat \<Rightarrow> nat \<Rightarrow> 'a list" where
  "swap xs i j = xs[i := xs ! j, j := xs ! i]"

abbreviation parent :: "nat \<Rightarrow> nat" where
  "parent j \<equiv> (j - 1) div 2"

function heap_up :: "('a \<Rightarrow> 'a \<Rightarrow> bool) \<Rightarrow> 'a list \<Rightarrow> nat \<Rightarrow> 'a list" where
  "heap_up lt xs j =
     (let i = parent j
      in if i = j \<or> \<not> lt (xs ! j) (xs ! i) then xs else heap_up lt (swap xs i j) i)"
  by pat_completeness auto
termination
  by (relation "measure (\<lambda>(_, _, j). j)") auto

function heap_down :: "('a \<Rightarrow> 'a \<Rightarrow> bool) \<Rightarrow> 'a list \<Rightarrow> nat \<Rightarrow> nat \<Rightarrow> 'a list" where
  "heap_down lt xs i n =
     (let j1 = 2 * i + 1; j2 = j1 + 1
      in if n \<le> j1 then xs
         else
           (let j = (if j2 < n \<and> lt (xs ! j2) (xs ! j1) then j2 else j1)
            in if \<not> lt (xs ! j) (xs ! i) then xs else heap_down lt (swap xs i j) j n))"
  by pat_completeness auto
termination
  by (relation "measure (\<lambda>(_, _, i, n). n - i)") (auto simp: Let_def)

declare heap_up.simps [simp del] heap_down.simps [simp del]

definition heap_push :: "('a \<Rightarrow> 'a \<Rightarrow> bool) \<Rightarrow> 'a list \<Rightarrow> 'a \<Rightarrow> 'a list" where
  "heap_push lt xs x = (let ys = xs @ [x] in heap_up lt ys (length ys - 1))"

text \<open>\<open>heap.Pop\<close> on a non-empty slice; on an empty one the index \<open>-1\<close> panics.\<close>

definition heap_pop :: "('a \<Rightarrow> 'a \<Rightarrow> bool) \<Rightarrow> 'a list \<Rightarrow> ('a \<times> 'a list) go" where
  "heap_pop lt xs =
     (if xs = [] then Panic
      else
        (let n = length xs - 1; ys = heap_down lt (swap xs 0 n) 0 n
         in Ret (ys ! n, take n ys)))"

section \<open>Pending patches\<close>

record 'q pending_patch =
  pp_Namespace :: string
  pp_Pod :: string
  pp_Container :: string
  NewCPU :: 'q
  NewMemory :: 'q
  NodeTotalCPU :: float64
  NodeTotalMemory :: float64
  DeltaCPU :: float64
  DeltaMemory :: float64

definition absf :: "float64 \<Rightarrow> float64" where
  "absf x = (if x < 0 then - x else x)"

definition Priority :: "'q pending_patch \<Rightarrow> float64" where
  "Priority p =
     (let score = Fin 0;
          score = (if 0 < NodeTotalCPU p then score + absf (DeltaCPU p) / NodeTotalCPU p else score)
      in if 0 < NodeTotalMemory p then score + absf (DeltaMemory p) / NodeTotalMemory p else score)"

definition patch_less :: "'q pending_patch \<Rightarrow> 'q pending_patch \<Rightarrow> bool" where
  "patch_less p q \<longleftrightarrow> Priority q < Priority p"

type_synonym 'q queue = "'q pending_patch list"

definition NewQueue :: "'q queue" where
  "NewQueue = []"

definition queue_Push :: "'q queue \<Rightarrow> 'q pending_patch \<Rightarrow> 'q queue" where
  "queue_Push h p = heap_push patch_less h p"

definition queue_Pop :: "'q queue \<Rightarrow> ('q pending_patch option \<times> 'q queue) go" where
  "queue_Pop h =
     (if length h = 0 then Ret (None, h)
      else go_bind (heap_pop patch_less h) (\<lambda>(p, h'). Ret (Some p, h')))"

definition queue_Len :: "'q queue \<Rightarrow> int" where
  "queue_Len h = int (length h)"

section \<open>Submission\<close>

text \<open>
  The body of the patch, before it is marshalled, and the API server as a parameter: its
  state \<open>'w\<close>, the JSON encoder, and the PATCH of the \<open>resize\<close> subresource of a pod.
\<close>

record 'q container_patch =
  cpa_Name :: string
  cpa_Requests :: "'q resource_list"
  cpa_Limits :: "'q resource_list"

record patch_options =
  FieldManager :: string

definition patchOpts :: patch_options where
  "patchOpts = \<lparr>FieldManager = ''pp-vpa-node-agent''\<rparr>"

record ('q, 'w) resize_api =
  ra_marshal :: "'q container_patch list \<Rightarrow> go_error + string"
  ra_patch :: "'w \<Rightarrow> string \<Rightarrow> string \<Rightarrow> string \<Rightarrow> patch_options \<Rightarrow> string \<Rightarrow> 'w \<times> go_error option"

definition patch_body :: "'q pending_patch \<Rightarrow> 'q container_patch list" where
  "patch_body p =
     [\<lparr>cpa_Name = pp_Container p,
       cpa_Requests = [ResourceCPU \<mapsto> NewCPU p, ResourceMemory \<mapsto> NewMemory p],
       cpa_Limits = [ResourceCPU \<mapsto> NewCPU p, ResourceMemory \<mapsto> NewMemory p]\<rparr>]"

definition Submit :: "('q, 'w) resize_api \<Rightarrow> 'w \<Rightarrow> 'q pending_patch \<Rightarrow> 'w \<times> go_error option" where
  "Submit api w p =
     (case ra_marshal api (patch_body p) of
        Inl e \<Rightarrow> (w, Some e)
      | Inr body \<Rightarrow>
          (case ra_patch api w (pp_Namespace p) (pp_Pod p) body patchOpts ''resize'' of
             (w', None) \<Rightarrow> (w', None)
           | (w', Some e) \<Rightarrow>
               (w', Some (if has_reason Forbidden e \<or> has_reason Invalid e
                          then Wrap ''resize rejected by kubelet (likely KEP-1287 unsupported)'' e
                          else e))))"

section \<open>Sifting restores the heap\<close>

lemma length_swap [simp]: "length (swap xs i j) = length xs"
  by (simp add: swap_def)

lemma mset_swap: "i < length xs \<Longrightarrow> j < length xs \<Longrightarrow> mset (swap xs i j) = mset xs"
  by (simp add: swap_def mset_swap)

lemma set_swap: "i < length xs \<Longrightarrow> j < length xs \<Longrightarrow> set (swap xs i j) = set xs"
  by (metis mset_swap set_mset_mset)

lemma nth_swap:
  "i < length xs \<Longrightarrow> j < length xs \<Longrightarrow> k < length xs \<Longrightarrow>
   swap xs i j ! k = (if k = j then xs ! i else if k = i then xs ! j else xs ! k)"
  by (simp add: swap_def nth_list_update)

text \<open>
  The interface of the order: on the elements of \<open>C\<close>, \<open>lt\<close> is a strict weak order.
\<close>

locale heap_order =
  fixes C :: "'a set" and lt :: "'a \<Rightarrow> 'a \<Rightarrow> bool"
  assumes asym: "\<lbrakk>a \<in> C; b \<in> C; lt a b\<rbrakk> \<Longrightarrow> \<not> lt b a"
    and negtrans: "\<lbrakk>a \<in> C; b \<in> C; c \<in> C; \<not> lt a b; \<not> lt b c\<rbrakk> \<Longrightarrow> \<not> lt a c"
begin

lemma less_not_trans: "\<lbrakk>a \<in> C; b \<in> C; c \<in> C; lt a b; \<not> lt c b\<rbrakk> \<Longrightarrow> lt a c"
  using asym negtrans by blast

lemma irrefl: "a \<in> C \<Longrightarrow> \<not> lt a a"
  using asym by blast

end

definition heap_upto :: "('a \<Rightarrow> 'a \<Rightarrow> bool) \<Rightarrow> nat \<Rightarrow> 'a list \<Rightarrow> bool" where
  "heap_upto lt n xs \<longleftrightarrow> (\<forall>k. 0 < k \<and> k < n \<longrightarrow> \<not> lt (xs ! k) (xs ! parent k))"

abbreviation is_heap :: "('a \<Rightarrow> 'a \<Rightarrow> bool) \<Rightarrow> 'a list \<Rightarrow> bool" where
  "is_heap lt xs \<equiv> heap_upto lt (length xs) xs"

text \<open>A heap everywhere except between \<open>j\<close> and its parent.\<close>

definition sift_up_inv :: "('a \<Rightarrow> 'a \<Rightarrow> bool) \<Rightarrow> 'a list \<Rightarrow> nat \<Rightarrow> bool" where
  "sift_up_inv lt xs j \<longleftrightarrow>
     (\<forall>k. 0 < k \<and> k < length xs \<longrightarrow>
        (k \<noteq> j \<longrightarrow> \<not> lt (xs ! k) (xs ! parent k)) \<and>
        (parent k = j \<and> 0 < j \<longrightarrow> \<not> lt (xs ! k) (xs ! parent j)))"

text \<open>A heap on the first \<open>n\<close> elements except between \<open>i\<close> and its children.\<close>

definition sift_down_inv :: "('a \<Rightarrow> 'a \<Rightarrow> bool) \<Rightarrow> 'a list \<Rightarrow> nat \<Rightarrow> nat \<Rightarrow> bool" where
  "sift_down_inv lt xs i n \<longleftrightarrow>
     (\<forall>k. 0 < k \<and> k < n \<longrightarrow>
        (parent k \<noteq> i \<longrightarrow> \<not> lt (xs ! k) (xs ! parent k)) \<and>
        (parent k = i \<and> 0 < i \<longrightarrow> \<not> lt (xs ! k) (xs ! parent i)))"

lemma heap_up_mset: "j < length xs \<Longrightarrow> mset (heap_up lt xs j) = mset xs \<and> length (heap_up lt xs j) = length xs"
proof (induction lt xs j rule: heap_up.induct)
  case (1 lt xs j)
  then show ?case by (subst (1 2) heap_up.simps) (auto simp: Let_def mset_swap)
qed

lemma heap_down_mset:
  "n \<le> length xs \<Longrightarrow> i < n \<Longrightarrow>
   mset (heap_down lt xs i n) = mset xs \<and> length (heap_down lt xs i n) = length xs \<and>
   (\<forall>k. n \<le> k \<and> k < length xs \<longrightarrow> heap_down lt xs i n ! k = xs ! k)"
proof (induction lt xs i n rule: heap_down.induct)
  case (1 lt xs i n)
  let ?j1 = "2 * i + 1"
  let ?j = "if ?j1 + 1 < n \<and> lt (xs ! (?j1 + 1)) (xs ! ?j1) then ?j1 + 1 else ?j1"
  show ?case
  proof (cases "n \<le> ?j1 \<or> \<not> lt (xs ! ?j) (xs ! i)")
    case True
    then have "heap_down lt xs i n = xs" by (subst heap_down.simps) (auto simp: Let_def)
    then show ?thesis by simp
  next
    case False
    then have e: "heap_down lt xs i n = heap_down lt (swap xs i ?j) ?j n"
      by (subst heap_down.simps) (auto simp: Let_def)
    have j: "?j < n" using False by auto
    have "mset (heap_down lt (swap xs i ?j) ?j n) = mset (swap xs i ?j) \<and>
        length (heap_down lt (swap xs i ?j) ?j n) = length (swap xs i ?j) \<and>
        (\<forall>k. n \<le> k \<and> k < length (swap xs i ?j) \<longrightarrow> heap_down lt (swap xs i ?j) ?j n ! k = swap xs i ?j ! k)"
      using 1(1) [OF refl refl _ refl] False j 1(2) by auto
    then show ?thesis
      unfolding e using j 1(2,3) by (auto simp: mset_swap nth_swap)
  qed
qed

lemma children: "parent k = i \<Longrightarrow> 0 < k \<Longrightarrow> k = 2 * i + 1 \<or> k = 2 * i + 2"
  by presburger

lemma parent_less: "0 < k \<Longrightarrow> parent k < k"
  by presburger

context heap_order
begin

lemma up_step:
  assumes "set xs \<subseteq> C" "j < length xs" "0 < j" "lt (xs ! j) (xs ! parent j)" "sift_up_inv lt xs j"
  shows "sift_up_inv lt (swap xs (parent j) j) (parent j)"
  unfolding sift_up_inv_def
proof (intro allI impI, elim conjE)
  fix k assume k: "0 < k" "k < length (swap xs (parent j) j)"
  let ?i = "parent j" and ?ys = "swap xs (parent j) j"
  have C: "xs ! l \<in> C" if "l < length xs" for l using assms(1) that nth_mem by blast
  have i: "?i < j" using assms(3) by (rule parent_less)
  have kl: "k < length xs" using k by simp
  have pk: "parent k < k" using k(1) by (rule parent_less)
  note ys = nth_swap [of ?i xs j]
  have inv: "l \<noteq> j \<Longrightarrow> \<not> lt (xs ! l) (xs ! parent l)" "parent l = j \<Longrightarrow> \<not> lt (xs ! l) (xs ! ?i)"
    if "0 < l" "l < length xs" for l using assms(3,5) that unfolding sift_up_inv_def by blast+
  have ij: "\<not> lt (xs ! ?i) (xs ! j)" using assms(2,4) i C by (intro asym) auto
  have "\<not> lt (?ys ! k) (?ys ! parent k)" if "k \<noteq> ?i"
  proof -
    consider "k = j" | "k \<noteq> j" "parent k = j" | "k \<noteq> j" "parent k = ?i" | "k \<noteq> j" "parent k \<noteq> j" "parent k \<noteq> ?i"
      by blast
    then show ?thesis
    proof cases
      case 3
      have "\<not> lt (xs ! k) (xs ! j)"
        using negtrans [of "xs ! k" "xs ! ?i" "xs ! j"] inv(1) [OF k(1) kl 3(1)] ij 3 C kl i assms(2) by auto
      then show ?thesis using 3 that kl i assms(2) ys by auto
    qed (use that kl i assms(2) ys ij inv [OF k(1) kl] pk in auto)
  qed
  moreover have "\<not> lt (?ys ! k) (?ys ! parent ?i)" if "parent k = ?i" "0 < ?i"
  proof -
    have p: "parent ?i < ?i" using that(2) by (rule parent_less)
    have up: "\<not> lt (xs ! ?i) (xs ! parent ?i)" using inv(1) [of ?i] that(2) i assms(2) by simp
    show ?thesis
    proof (cases "k = j")
      case True
      then show ?thesis using up p i assms(2) ys by auto
    next
      case False
      have "\<not> lt (xs ! k) (xs ! parent ?i)"
        using negtrans [of "xs ! k" "xs ! ?i" "xs ! parent ?i"] inv(1) [OF k(1) kl False] up that C kl i p assms(2) by auto
      then show ?thesis using False that p i kl pk assms(2) ys by auto
    qed
  qed
  ultimately show "(k \<noteq> ?i \<longrightarrow> \<not> lt (?ys ! k) (?ys ! parent k)) \<and>
      (parent k = ?i \<and> 0 < ?i \<longrightarrow> \<not> lt (?ys ! k) (?ys ! parent ?i))" by blast
qed

lemma up_heap:
  assumes "set xs \<subseteq> C" "j < length xs" "sift_up_inv lt xs j"
  shows "is_heap lt (heap_up lt xs j)"
  using assms
proof (induction j arbitrary: xs rule: less_induct)
  case (less j)
  show ?case
  proof (cases "parent j = j \<or> \<not> lt (xs ! j) (xs ! parent j)")
    case True
    then have "heap_up lt xs j = xs" by (subst heap_up.simps) (simp add: Let_def)
    moreover have "j = 0 \<or> \<not> lt (xs ! j) (xs ! parent j)" using True parent_less [of j] by auto
    ultimately show ?thesis using less.prems(3) by (auto simp: heap_upto_def sift_up_inv_def)
  next
    case False
    then have j: "0 < j" "parent j < j" using parent_less [of j] by auto
    have "heap_up lt xs j = heap_up lt (swap xs (parent j) j) (parent j)"
      using False by (subst heap_up.simps) (simp add: Let_def)
    moreover have "is_heap lt (heap_up lt (swap xs (parent j) j) (parent j))"
      using less.prems j False by (intro less.IH up_step) (auto simp: set_swap)
    ultimately show ?thesis by simp
  qed
qed

lemma down_step:
  assumes "set xs \<subseteq> C" "n \<le> length xs" "0 < j" "j < n" "parent j = i" "lt (xs ! j) (xs ! i)"
    and "sift_down_inv lt xs i n" "\<And>k. \<lbrakk>0 < k; k < n; parent k = i\<rbrakk> \<Longrightarrow> \<not> lt (xs ! k) (xs ! j)"
  shows "sift_down_inv lt (swap xs i j) j n"
  unfolding sift_down_inv_def
proof (intro allI impI, elim conjE)
  fix k assume k: "0 < k" "k < n"
  let ?ys = "swap xs i j"
  have C: "xs ! l \<in> C" if "l < n" for l using assms(1,2) that nth_mem by force
  have i: "i < j" using parent_less [OF assms(3)] assms(5) by simp
  have pk: "parent k < k" using k(1) by (rule parent_less)
  note ys = nth_swap [of i xs j]
  note inv = assms(7) [unfolded sift_down_inv_def, rule_format, OF conjI [OF k]]
  have ij: "\<not> lt (xs ! i) (xs ! j)" using assms(4,6) i C by (intro asym) auto
  have "\<not> lt (?ys ! k) (?ys ! parent k)" if "parent k \<noteq> j"
  proof -
    consider "k = j" | "k \<noteq> j" "parent k = i" | "k = i" | "k \<noteq> i" "k \<noteq> j" "parent k \<noteq> i" by blast
    then show ?thesis
    proof cases
      case 2
      then show ?thesis using assms(8) [OF k] i k pk assms(2,4) ys by auto
    next
      case 3
      have "\<not> lt (xs ! j) (xs ! parent i)"
        using assms(7) 3 k assms(3-5) unfolding sift_down_inv_def by blast
      then show ?thesis using 3 i k pk assms(2,4) ys by auto
    qed (use that i k pk assms(2,4,5) ys ij inv in auto)
  qed
  moreover have "\<not> lt (?ys ! k) (?ys ! parent j)" if "parent k = j"
    using inv that i k pk assms(2,4,5) ys by auto
  ultimately show "(parent k \<noteq> j \<longrightarrow> \<not> lt (?ys ! k) (?ys ! parent k)) \<and>
      (parent k = j \<and> 0 < j \<longrightarrow> \<not> lt (?ys ! k) (?ys ! parent j))" by blast
qed

lemma down_heap:
  assumes "set xs \<subseteq> C" "n \<le> length xs" "sift_down_inv lt xs i n"
  shows "heap_upto lt n (heap_down lt xs i n)"
  using assms
proof (induction "n - i" arbitrary: xs i rule: less_induct)
  case less
  let ?j1 = "2 * i + 1" and ?j2 = "2 * i + 1 + 1"
  define j where "j = (if ?j2 < n \<and> lt (xs ! ?j2) (xs ! ?j1) then ?j2 else ?j1)"
  have C: "xs ! l \<in> C" if "l < n" for l using less.prems(1,2) that nth_mem by force
  show ?case
  proof (cases "n \<le> ?j1")
    case True
    then have e: "heap_down lt xs i n = xs" by (subst heap_down.simps) simp
    have "parent k \<noteq> i" if "0 < k" "k < n" for k using children [of k i] that True by auto
    then show ?thesis unfolding e heap_upto_def using less.prems(3) by (auto simp: sift_down_inv_def)
  next
    case False
    then have j: "0 < j" "j < n" "parent j = i" "i < j" by (auto simp: j_def)
    have sib: "\<not> lt (xs ! k) (xs ! j)" if "0 < k" "k < n" "parent k = i" for k
      using children [OF that(3,1)]
    proof
      assume "k = 2 * i + 1"
      then show ?thesis using that(2) C irrefl [of "xs ! k"] asym [of "xs ! ?j2" "xs ! k"] by (auto simp: j_def)
    next
      assume "k = 2 * i + 2"
      then show ?thesis using that(2) C irrefl [of "xs ! k"] by (auto simp: j_def)
    qed
    have step: "heap_down lt xs i n = (if \<not> lt (xs ! j) (xs ! i) then xs else heap_down lt (swap xs i j) j n)"
      using False by (subst heap_down.simps) (simp only: Let_def j_def if_False)
    show ?thesis
    proof (cases "lt (xs ! j) (xs ! i)")
      case True
      have "heap_down lt xs i n = heap_down lt (swap xs i j) j n" using True step by simp
      moreover have "heap_upto lt n (heap_down lt (swap xs i j) j n)"
        using less.prems j True sib by (intro less.hyps down_step) (auto simp: set_swap)
      ultimately show ?thesis by simp
    next
      case stop: False
      have e: "heap_down lt xs i n = xs" using stop step by simp
      have "\<not> lt (xs ! k) (xs ! i)" if "0 < k" "k < n" "parent k = i" for k
        using negtrans [of "xs ! k" "xs ! j" "xs ! i"] sib [OF that] stop C that j by auto
      then show ?thesis unfolding e heap_upto_def using less.prems(3) by (auto simp: sift_down_inv_def)
    qed
  qed
qed

lemma root_first:
  assumes "set xs \<subseteq> C" "is_heap lt xs" "k < length xs"
  shows "\<not> lt (xs ! k) (xs ! 0)"
  using assms(3)
proof (induction k rule: less_induct)
  case (less k)
  have C: "xs ! l \<in> C" if "l < length xs" for l using assms(1) that nth_mem by blast
  show ?case
  proof (cases "k = 0")
    case True
    then show ?thesis using irrefl C less.prems by auto
  next
    case False
    then have p: "parent k < k" by (intro parent_less) simp
    have "\<not> lt (xs ! k) (xs ! parent k)" using assms(2) False less.prems by (simp add: heap_upto_def)
    then show ?thesis
      using less.IH [OF p] p less.prems C [of k] C [of "parent k"] C [of 0]
        negtrans [of "xs ! k" "xs ! parent k" "xs ! 0"] by fastforce
  qed
qed

lemma push_heap:
  assumes "set xs \<subseteq> C" "x \<in> C" "is_heap lt xs"
  shows "is_heap lt (heap_push lt xs x)" and "mset (heap_push lt xs x) = add_mset x (mset xs)"
proof -
  have "parent k < length xs" if "0 < k" "k \<le> length xs" for k
    using that parent_less [of k] by simp
  moreover from this have "parent k \<noteq> length xs" if "0 < k" "k \<le> length xs" for k
    using that by (metis less_irrefl)
  ultimately have "sift_up_inv lt (xs @ [x]) (length xs)"
    using assms(3) unfolding sift_up_inv_def heap_upto_def
    by (auto simp: nth_append less_Suc_eq_le)
  then show "is_heap lt (heap_push lt xs x)"
    using assms by (auto simp: heap_push_def Let_def intro!: up_heap)
  show "mset (heap_push lt xs x) = add_mset x (mset xs)"
    using heap_up_mset [of "length xs" "xs @ [x]" lt] by (simp add: heap_push_def Let_def)
qed

lemma pop_heap:
  assumes "set xs \<subseteq> C" "is_heap lt xs" "xs \<noteq> []"
  obtains ys where "heap_pop lt xs = Ret (xs ! 0, ys)" "is_heap lt ys" "mset xs = add_mset (xs ! 0) (mset ys)"
proof -
  define n where "n = length xs - 1"
  have n: "n < length xs" "length xs = Suc n" using assms(3) by (auto simp: n_def)
  let ?s = "swap xs 0 n" and ?d = "heap_down lt (swap xs 0 n) 0 n"
  have d: "mset ?d = mset xs" "length ?d = length xs" "?d ! n = xs ! 0"
  proof -
    have "n = 0 \<Longrightarrow> ?d = ?s" by (subst heap_down.simps) simp
    then show "mset ?d = mset xs" "length ?d = length xs" "?d ! n = xs ! 0"
      using heap_down_mset [of n ?s 0 lt] n by (cases "n = 0"; auto simp: mset_swap nth_swap)+
  qed
  have "sift_down_inv lt ?s 0 n"
    using assms(2) n by (auto simp: sift_down_inv_def heap_upto_def nth_swap dest: parent_less)
  then have "heap_upto lt n ?d" using assms(1) n by (intro down_heap) (auto simp: set_swap)
  then have h: "is_heap lt (take n ?d)" using n d(2) by (auto simp: heap_upto_def dest: parent_less)
  have "?d = take n ?d @ [?d ! n]" using n d(2) by (metis lessI take_Suc_conv_app_nth take_all order_refl)
  then have "mset xs = add_mset (xs ! 0) (mset (take n ?d))" using d by (metis mset.simps mset_append add_mset_add_single)
  then show thesis using that [of "take n ?d"] h d(3) assms(3) by (simp add: heap_pop_def n_def Let_def)
qed

end

section \<open>The queue as a priority queue\<close>

text \<open>
  What a client of a priority queue relies on: an abstraction to a multiset, pushing adds,
  popping removes an element no other precedes, and only an empty queue yields none.
\<close>

locale priority_queue =
  fixes good :: "'s \<Rightarrow> bool" and elems :: "'s \<Rightarrow> 'a multiset" and ok :: "'a \<Rightarrow> bool"
    and before :: "'a \<Rightarrow> 'a \<Rightarrow> bool" and push :: "'s \<Rightarrow> 'a \<Rightarrow> 's" and pop :: "'s \<Rightarrow> ('a option \<times> 's) go"
  assumes push: "\<lbrakk>good s; ok x\<rbrakk> \<Longrightarrow> good (push s x) \<and> elems (push s x) = add_mset x (elems s)"
    and pop_empty: "\<lbrakk>good s; elems s = {#}\<rbrakk> \<Longrightarrow> pop s = Ret (None, s)"
    and pop_first: "\<lbrakk>good s; elems s \<noteq> {#}\<rbrakk> \<Longrightarrow> \<exists>x s'. pop s = Ret (Some x, s') \<and> good s' \<and>
       elems s = add_mset x (elems s') \<and> (\<forall>y \<in># elems s. \<not> before y x)"
begin

lemma pop_cases:
  assumes "good s"
  obtains (empty) "pop s = Ret (None, s)" "elems s = {#}"
  | (first) x s' where "pop s = Ret (Some x, s')" "good s'" "elems s = add_mset x (elems s')"
      "\<forall>y \<in># elems s. \<not> before y x"
  using pop_empty [OF assms] pop_first [OF assms] by blast

end

text \<open>Popping the elements \<open>xs\<close> one after the other leads from one state of a queue to another.\<close>

inductive pops :: "('s \<Rightarrow> ('a option \<times> 's) go) \<Rightarrow> 's \<Rightarrow> 'a list \<Rightarrow> 's \<Rightarrow> bool" for pop where
  pops_none: "pops pop s [] s"
| pops_one: "pop s = Ret (Some x, s') \<Longrightarrow> pops pop s' xs s'' \<Longrightarrow> pops pop s (x # xs) s''"

inductive_cases pops_NilE: "pops pop s [] s'"
inductive_cases pops_ConsE: "pops pop s (x # xs) s'"

context priority_queue
begin

lemma pops_elems:
  assumes "pops pop s xs s'" "good s"
  shows "good s' \<and> elems s = mset xs + elems s'"
  using assms
proof (induction rule: pops.induct)
  case (pops_one s x s' xs s'')
  from \<open>good s\<close> show ?case using pops_one by (cases rule: pop_cases) auto
qed simp

lemma pops_sorted:
  assumes "pops pop s xs s'" "good s"
  shows "sorted_wrt (\<lambda>x y. \<not> before y x) xs \<and> (\<forall>x \<in> set xs. \<forall>y \<in># elems s'. \<not> before y x)"
  using assms
proof (induction rule: pops.induct)
  case (pops_one s x s' xs s'')
  from \<open>good s\<close> show ?case
  proof (cases rule: pop_cases)
    case (first x' t)
    then have "x' = x" "t = s'" using pops_one.hyps(1) by simp_all
    moreover have "elems s' = mset xs + elems s''"
      using pops_elems [OF pops_one.hyps(2)] first calculation by simp
    ultimately show ?thesis using first pops_one.IH by auto
  qed (use pops_one.hyps(1) in simp)
qed simp

end

text \<open>Patches whose priority is a number; finite deltas over finite totals always give one.\<close>

definition scored :: "'q pending_patch \<Rightarrow> bool" where
  "scored p \<longleftrightarrow> Priority p \<noteq> NaN"

definition queue_good :: "'q queue \<Rightarrow> bool" where
  "queue_good h \<longleftrightarrow> list_all scored h \<and> is_heap patch_less h"

interpretation patch_order: heap_order "{p. scored p}" patch_less
proof
  fix a b c :: "'q pending_patch"
  show "patch_less a b \<Longrightarrow> \<not> patch_less b a"
    by (cases "Priority a"; cases "Priority b") (auto simp: patch_less_def)
  assume "a \<in> {p. scored p}" "b \<in> {p. scored p}" "c \<in> {p. scored p}" "\<not> patch_less a b" "\<not> patch_less b c"
  then show "\<not> patch_less a c"
    by (auto simp: patch_less_def scored_def f64_not_less intro: f64_le_trans)
qed

lemma queue_good_carrier: "queue_good h \<Longrightarrow> set h \<subseteq> {p. scored p}"
  by (auto simp: queue_good_def list_all_iff)

interpretation patch_queue: priority_queue queue_good mset scored patch_less queue_Push queue_Pop
proof
  fix h :: "'q queue" and p :: "'q pending_patch"
  assume h: "queue_good h"
  note c = queue_good_carrier [OF h]
  have heap: "is_heap patch_less h" using h by (simp add: queue_good_def)
  {
    assume p: "scored p"
    then have m: "mset (queue_Push h p) = add_mset p (mset h)" "is_heap patch_less (queue_Push h p)"
      using patch_order.push_heap [OF c _ heap, of p] by (simp_all add: queue_Push_def)
    then have "set (queue_Push h p) = insert p (set h)" by (metis set_mset_add_mset_insert set_mset_mset)
    then show "queue_good (queue_Push h p) \<and> mset (queue_Push h p) = add_mset p (mset h)"
      using m p h by (simp add: queue_good_def list_all_iff)
  }
  show "mset h = {#} \<Longrightarrow> queue_Pop h = Ret (None, h)" by (simp add: queue_Pop_def)
  assume "mset h \<noteq> {#}"
  then have ne: "h \<noteq> []" by simp
  from patch_order.pop_heap [OF c heap ne] obtain ys where
    ys: "heap_pop patch_less h = Ret (h ! 0, ys)" "is_heap patch_less ys" "mset h = add_mset (h ! 0) (mset ys)" by blast
  have "set ys \<subseteq> set h" using ys(3) by (metis set_mset_add_mset_insert set_mset_mset subset_insertI)
  then have "queue_good ys" using ys(2) h by (auto simp: queue_good_def list_all_iff)
  moreover have "\<forall>y \<in># mset h. \<not> patch_less y (h ! 0)"
    using patch_order.root_first [OF c heap] by (auto simp: in_set_conv_nth)
  ultimately show "\<exists>x s'. queue_Pop h = Ret (Some x, s') \<and> queue_good s' \<and> mset h = add_mset x (mset s') \<and>
      (\<forall>y \<in># mset h. \<not> patch_less y x)"
    using ys ne by (auto simp: queue_Pop_def)
qed

lemmas queue_Push_laws = patch_queue.push [THEN conjunct1] patch_queue.push [THEN conjunct2]

lemma f64_quot_score:
  assumes "is_fin d" "Fin 0 < t"
  shows "Fin 0 \<le> absf d / t"
proof -
  obtain a where "d = Fin a" using assms(1) by auto
  then have "absf d = Fin \<bar>a\<bar>" by (simp add: absf_def f64_consts f64_ops)
  then show ?thesis using assms(2) by (cases t) (auto simp: f64_ops intro!: rnd_nonneg divide_nonneg_pos)
qed

lemma Priority_nonneg:
  assumes "is_fin (DeltaCPU p)" "is_fin (DeltaMemory p)"
  shows "Fin 0 \<le> Priority p"
  using f64_quot_score [OF assms(1)] f64_quot_score [OF assms(2)] f64_add_nonneg
  by (auto simp: Priority_def Let_def f64_consts)

lemma scored_finite: "is_fin (DeltaCPU p) \<Longrightarrow> is_fin (DeltaMemory p) \<Longrightarrow> scored p"
  using Priority_nonneg [of p] by (auto simp: scored_def)

section \<open>Properties of the queue\<close>

text \<open>
  (C2) \<open>Queue.Pop\<close> returns a patch of the highest priority in the queue, never panics and
  loses nothing: on a non-empty queue the answer and the remaining queue together are the
  old queue; on an empty queue it reports none and changes nothing.
\<close>

theorem queue_pop_highest:
  assumes "queue_good h"
  shows "(h = [] \<and> queue_Pop h = Ret (None, h)) \<or>
    (\<exists>p h'. queue_Pop h = Ret (Some p, h') \<and> queue_good h' \<and> mset h = add_mset p (mset h') \<and>
       (\<forall>q \<in> set h. Priority q \<le> Priority p))"
proof (cases rule: patch_queue.pop_cases [OF assms])
  case 1
  then show ?thesis by simp
next
  case (2 p h')
  have "scored q" if "q \<in> set h" for q using assms that by (auto simp: queue_good_def list_all_iff)
  moreover have "p \<in> set h" using 2(3) by (metis union_single_eq_member set_mset_mset)
  ultimately have "\<forall>q \<in> set h. Priority q \<le> Priority p"
    using 2(4) by (auto simp: patch_less_def scored_def f64_not_less)
  then show ?thesis using 2 by blast
qed

definition demo_patch :: "string \<Rightarrow> rat \<Rightarrow> int pending_patch" where
  "demo_patch n d =
     \<lparr>pp_Namespace = ''ns'', pp_Pod = n, pp_Container = ''app'', NewCPU = 1, NewMemory = 64,
      NodeTotalCPU = Fin 4, NodeTotalMemory = Fin 1024, DeltaCPU = Fin d, DeltaMemory = Fin 0\<rparr>"

definition demo_queue :: "int queue" where
  "demo_queue = queue_Push (queue_Push (queue_Push NewQueue (demo_patch ''a'' 1)) (demo_patch ''b'' (- 3))) (demo_patch ''c'' 2)"

lemma demo_queue_good:
  "queue_good demo_queue" "mset demo_queue = {#demo_patch ''a'' 1, demo_patch ''b'' (- 3), demo_patch ''c'' 2#}"
proof -
  have n: "queue_good (NewQueue :: int queue)" "mset (NewQueue :: int queue) = {#}" by (simp_all add: queue_good_def heap_upto_def NewQueue_def)
  have "scored (demo_patch n d)" for n d by (rule scored_finite) (simp_all add: demo_patch_def)
  then show "queue_good demo_queue" "mset demo_queue = {#demo_patch ''a'' 1, demo_patch ''b'' (- 3), demo_patch ''c'' 2#}"
    unfolding demo_queue_def using n by (simp_all add: queue_Push_laws add_mset_commute)
qed

theorem queue_pop_highest_witness:
  "\<exists>p h'. queue_Pop demo_queue = Ret (Some p, h') \<and> Fin (3 / 4) \<le> Priority p"
proof -
  have "demo_patch ''b'' (- 3) \<in># mset demo_queue" using demo_queue_good(2) by simp
  then have "demo_patch ''b'' (- 3) \<in> set demo_queue" by simp
  moreover have "Priority (demo_patch ''b'' (- 3)) = Fin (3 / 4)" by code_simp
  ultimately show ?thesis
    using queue_pop_highest [OF demo_queue_good(1)] by (auto dest!: bspec)
qed

end
