(* ===== verification/Agent.thy ===== *)
theory Agent
  imports Ingest NodeProbe Patcher
begin

text \<open>
  Package \<open>nodeagent\<close>: the agent's state, the registration of pods, sampling, draining of
  the patch queue, checkpoint writing and the event loop of \<open>Run\<close>. The map of pods is a
  partial function; where Go ranges over it, the order in which the keys are visited, which
  the language leaves open, is an argument. The methods hold the agent's mutex, so each of
  them is one step.
\<close>

section \<open>State\<close>

record config =
  NodeName :: string
  CgroupRoot :: string
  KubeletConfig :: string
  SampleInterval :: duration
  CheckpointEvery :: duration

record pod_state =
  ps_uid :: string
  ps_namespace :: string
  ps_name :: string
  ps_prrName :: string
  ps_qos :: qos_class
  ps_cgroupPath :: string
  ps_cpu :: cpu_stream
  ps_mem :: memory_peak
  ps_cpuWatermark :: watermark
  ps_memWatermark :: watermark
  ps_prevOOMKill :: uint64
  ps_memLimit :: float64

record 'q agent =
  a_Cfg :: config
  a_Caps :: node_capabilities
  a_pods :: "string \<rightharpoonup> pod_state"
  a_queue :: "'q queue"

text \<open>The fields of a pod that registration reads.\<close>

record pod_info =
  pi_uid :: string
  pi_namespace :: string
  pi_name :: string
  pi_qos :: qos_class

text \<open>What the checkpoint writer calls on the API client.\<close>

record ('q, 'w) prr_client =
  pc_get :: "'w \<Rightarrow> string \<Rightarrow> string \<Rightarrow> go_error + 'q prr"
  pc_patch_status :: "'w \<Rightarrow> 'q prr \<Rightarrow> 'q prr \<Rightarrow> 'w \<times> go_error option"

section \<open>Operations\<close>

definition agent_New :: "node_fs \<Rightarrow> config \<Rightarrow> go_error + 'q agent" where
  "agent_New fs cfg =
     (case ProbeNode fs (CgroupRoot cfg) (KubeletConfig cfg) of
        (Some e, _) \<Rightarrow> Inl e
      | (None, caps) \<Rightarrow>
          if \<not> CgroupV2 caps then Inl (Err ''cgroup v2 is required for PP-VPA node-agent'')
          else
            (let cfg1 = (if SampleInterval cfg \<le> 0 then cfg\<lparr>SampleInterval := 10 * Second\<rparr> else cfg);
                 cfg2 = (if CheckpointEvery cfg1 \<le> 0 then cfg1\<lparr>CheckpointEvery := Minute\<rparr> else cfg1)
             in Inr \<lparr>a_Cfg = cfg2, a_Caps = caps, a_pods = Map.empty, a_queue = NewQueue\<rparr>))"

text \<open>Restoring a checkpoint merges into the histogram the stream holds; errors are dropped.\<close>

definition restore_checkpoint :: "go_math \<Rightarrow> checkpoint codec \<Rightarrow> cpu_stream \<Rightarrow> string \<Rightarrow> cpu_stream go" where
  "restore_checkpoint m c cs ck =
     (if ck = [] then Ret cs
      else go_bind (Decode m c ck) (\<lambda>r.
             case r of
               Inl _ \<Rightarrow> Ret cs
             | Inr h \<Rightarrow> go_bind (Merge m (cpu_Snapshot cs) h) (\<lambda>(_, h'). Ret (cs\<lparr>cs_h := h'\<rparr>))))"

definition EnsurePod ::
  "go_math \<Rightarrow> node_fs \<Rightarrow> checkpoint codec \<Rightarrow> 'q agent \<Rightarrow> pod_info \<Rightarrow> 'q prr \<Rightarrow> (go_error option \<times> 'q agent) go" where
  "EnsurePod m fs c a p prr =
     (let uid = pi_uid p
      in if a_pods a uid \<noteq> None then Ret (None, a)
         else
           (case PodPath fs (CgroupRoot (a_Cfg a)) uid (pi_qos p) of
              Inl e \<Rightarrow> Ret (Some e, a)
            | Inr slicePath \<Rightarrow>
                go_bind (NewCPUStream m) (\<lambda>r.
                  case r of
                    Inl e \<Rightarrow> Ret (Some e, a)
                  | Inr cs \<Rightarrow>
                      go_bind (NewMemoryPeakExtractor m Minute) (\<lambda>r.
                        case r of
                          Inl e \<Rightarrow> Ret (Some e, a)
                        | Inr mp \<Rightarrow>
                            go_bind (restore_checkpoint m c cs (HistogramCheckpoint (prr_Status prr))) (\<lambda>cs'.
                              Ret (None, a\<lparr>a_pods := (a_pods a)(uid \<mapsto>
                                \<lparr>ps_uid = uid, ps_namespace = pi_namespace p, ps_name = pi_name p,
                                 ps_prrName = om_name (prr_meta prr), ps_qos = pi_qos p,
                                 ps_cgroupPath = slicePath, ps_cpu = cs', ps_mem = mp,
                                 ps_cpuWatermark = wm_New Hour, ps_memWatermark = wm_New (24 * Hour),
                                 ps_prevOOMKill = 0, ps_memLimit = 0\<rparr>)\<rparr>))))))"

definition ForgetPod :: "'q agent \<Rightarrow> string \<Rightarrow> 'q agent" where
  "ForgetPod a uid = a\<lparr>a_pods := (a_pods a)(uid := None)\<rparr>"

text \<open>The body of the loop of \<open>sampleAll\<close>; what it reads from the pressure files is discarded.\<close>

definition sample_memory :: "go_math \<Rightarrow> node_fs \<Rightarrow> pod_state \<Rightarrow> time \<Rightarrow> pod_state go" where
  "sample_memory m fs st t =
     (case fs_read fs (ps_cgroupPath st @ ''/memory.current'') of
        Inl _ \<Rightarrow> Ret st
      | Inr b \<Rightarrow>
          go_bind (mem_Record m (ps_mem st) (word_of_int (sscanf_uint b)) t)
            (\<lambda>mp. Ret (st\<lparr>ps_mem := mp\<rparr>)))"

definition sample_oom :: "go_math \<Rightarrow> node_fs \<Rightarrow> pod_state \<Rightarrow> time \<Rightarrow> pod_state go" where
  "sample_oom m fs st t =
     (case oom_Parse fs (MemoryEventsFile (ps_cgroupPath st)) of
        Inl _ \<Rightarrow> Ret st
      | Inr ev \<Rightarrow>
          if ps_prevOOMKill st < OOMKill ev \<and> 0 < ps_memLimit st
          then go_bind (mem_Record m (ps_mem st) (f64_to_uint m (SyntheticSample (ps_memLimit st))) t)
                 (\<lambda>mp. Ret (st\<lparr>ps_mem := mp, ps_prevOOMKill := OOMKill ev\<rparr>))
          else Ret st)"

definition sample_pod :: "go_math \<Rightarrow> node_fs \<Rightarrow> pod_state \<Rightarrow> time \<Rightarrow> pod_state go" where
  "sample_pod m fs st t =
     (let _ = psi_ReadFile fs (PSIFile (ps_cgroupPath st) ''cpu'');
          _ = psi_ReadFile fs (PSIFile (ps_cgroupPath st) ''memory'')
      in go_bind (sample_memory m fs st t) (\<lambda>st1. sample_oom m fs st1 t))"

fun sampleAll_loop ::
  "go_math \<Rightarrow> node_fs \<Rightarrow> time \<Rightarrow> string list \<Rightarrow> (string \<rightharpoonup> pod_state) \<Rightarrow> (string \<rightharpoonup> pod_state) go" where
  "sampleAll_loop m fs t [] pods = Ret pods"
| "sampleAll_loop m fs t (uid # uids) pods =
     (case pods uid of
        None \<Rightarrow> sampleAll_loop m fs t uids pods
      | Some st \<Rightarrow>
          go_bind (sample_pod m fs st t) (\<lambda>st'. sampleAll_loop m fs t uids (pods(uid \<mapsto> st'))))"

definition sampleAll :: "go_math \<Rightarrow> node_fs \<Rightarrow> 'q agent \<Rightarrow> string list \<Rightarrow> time \<Rightarrow> 'q agent go" where
  "sampleAll m fs a order t =
     go_bind (sampleAll_loop m fs t order (a_pods a)) (\<lambda>ps. Ret (a\<lparr>a_pods := ps\<rparr>))"

lemma queue_Pop_shorter: "queue_Pop h = Ret (Some p, h') \<Longrightarrow> length h' < length h"
  by (auto simp: queue_Pop_def heap_pop_def Let_def min_less_iff_disj split: if_splits)

function drainPatches :: "('q, 'w) resize_api \<Rightarrow> 'w \<Rightarrow> 'q queue \<Rightarrow> ('w \<times> 'q queue) go" where
  "drainPatches api w h =
     (case queue_Pop h of
        Panic \<Rightarrow> Panic
      | Ret (None, h') \<Rightarrow> Ret (w, h')
      | Ret (Some p, h') \<Rightarrow>
          (case Submit api w p of
             (w', None) \<Rightarrow> drainPatches api w' h'
           | (w', Some e) \<Rightarrow> Ret (w', queue_Push h' p)))"
  by pat_completeness auto
termination
  by (relation "measure (\<lambda>(_, _, h). length h)") (auto dest: queue_Pop_shorter)

declare drainPatches.simps [simp del]

definition checkpoint_Write ::
  "checkpoint codec \<Rightarrow> ('q, 'w) prr_client \<Rightarrow> 'w \<Rightarrow> string \<Rightarrow> string \<Rightarrow> histogram \<Rightarrow> 'w \<times> go_error option" where
  "checkpoint_Write c cl w ns prrName h =
     (case Encode c h of
        Inl e \<Rightarrow> (w, Some e)
      | Inr enc \<Rightarrow>
          (case pc_get cl w ns prrName of
             Inl e \<Rightarrow> (w, Some e)
           | Inr prr \<Rightarrow>
               pc_patch_status cl w (prr\<lparr>prr_Status := (prr_Status prr)\<lparr>HistogramCheckpoint := enc\<rparr>\<rparr>) prr))"

fun writeCheckpoints_loop ::
  "checkpoint codec \<Rightarrow> ('q, 'w) prr_client \<Rightarrow> 'w \<Rightarrow> pod_state list \<Rightarrow> 'w" where
  "writeCheckpoints_loop c cl w [] = w"
| "writeCheckpoints_loop c cl w (st # sts) =
     writeCheckpoints_loop c cl
       (fst (checkpoint_Write c cl w (ps_namespace st) (ps_prrName st) (cpu_Snapshot (ps_cpu st)))) sts"

definition writeCheckpoints ::
  "checkpoint codec \<Rightarrow> ('q, 'w) prr_client \<Rightarrow> 'w \<Rightarrow> 'q agent \<Rightarrow> string list \<Rightarrow> 'w" where
  "writeCheckpoints c cl w a order = writeCheckpoints_loop c cl w (List.map_filter (a_pods a) order)"

definition Enqueue :: "'q agent \<Rightarrow> 'q pending_patch \<Rightarrow> 'q agent" where
  "Enqueue a p = a\<lparr>a_queue := queue_Push (a_queue a) p\<rparr>"

definition PodForUID :: "'q agent \<Rightarrow> string \<Rightarrow> (string \<times> string) option" where
  "PodForUID a uid = map_option (\<lambda>st. (ps_namespace st, ps_name st)) (a_pods a uid)"

section \<open>The event loop\<close>

text \<open>
  \<open>Run\<close> waits for its two tickers; pods are registered and forgotten and patches are queued
  by calls from outside. An event is one of these, with what the environment decides: the
  content of the node's files at that moment and the order in which maps are visited.
\<close>

record ('q, 'w) agent_env =
  e_math :: go_math
  e_codec :: "checkpoint codec"
  e_api :: "('q, 'w) resize_api"
  e_client :: "('q, 'w) prr_client"

datatype 'q event =
    SampleTick node_fs "string list" time
  | CheckpointTick "string list"
  | EnsureCall node_fs pod_info "'q prr"
  | ForgetCall string
  | EnqueueCall "'q pending_patch"

definition visits :: "'q agent \<Rightarrow> string list \<Rightarrow> bool" where
  "visits a order \<longleftrightarrow> distinct order \<and> set order = dom (a_pods a)"

fun handle :: "('q, 'w) agent_env \<Rightarrow> 'q agent \<times> 'w \<Rightarrow> 'q event \<Rightarrow> ('q agent \<times> 'w) go" where
  "handle E (a, w) (SampleTick fs order t) =
     go_bind (sampleAll (e_math E) fs a order t) (\<lambda>a1.
       go_bind (drainPatches (e_api E) w (a_queue a1)) (\<lambda>(w', h). Ret (a1\<lparr>a_queue := h\<rparr>, w')))"
| "handle E (a, w) (CheckpointTick order) =
     Ret (a, writeCheckpoints (e_codec E) (e_client E) w a order)"
| "handle E (a, w) (EnsureCall fs p prr) =
     go_bind (EnsurePod (e_math E) fs (e_codec E) a p prr) (\<lambda>(_, a'). Ret (a', w))"
| "handle E (a, w) (ForgetCall uid) = Ret (ForgetPod a uid, w)"
| "handle E (a, w) (EnqueueCall p) = Ret (Enqueue a p, w)"

text \<open>The events that can occur: any at all, but a loop over the map of the pods visits them all once.\<close>

fun admissible :: "'q agent \<Rightarrow> 'q event \<Rightarrow> bool" where
  "admissible a (SampleTick fs order t) = visits a order"
| "admissible a (CheckpointTick order) = visits a order"
| "admissible a (EnsureCall fs p prr) = True"
| "admissible a (ForgetCall uid) = True"
| "admissible a (EnqueueCall p) = True"

inductive reachable :: "('q, 'w) agent_env \<Rightarrow> node_fs \<Rightarrow> config \<Rightarrow> 'w \<Rightarrow> 'q agent \<times> 'w \<Rightarrow> bool"
  for E fs0 cfg w0 where
  init: "agent_New fs0 cfg = Inr a \<Longrightarrow> reachable E fs0 cfg w0 (a, w0)"
| step: "reachable E fs0 cfg w0 (a, w) \<Longrightarrow> admissible a ev \<Longrightarrow> handle E (a, w) ev = Ret (a', w') \<Longrightarrow>
         reachable E fs0 cfg w0 (a', w')"

inductive_cases reachableE: "reachable E fs0 cfg w0 s"

section \<open>Draining\<close>

fun submits :: "('q, 'w) resize_api \<Rightarrow> 'w \<Rightarrow> 'q pending_patch list \<Rightarrow> 'w option" where
  "submits api w [] = Some w"
| "submits api w (p # ps) =
     (case Submit api w p of (w', None) \<Rightarrow> submits api w' ps | (_, Some _) \<Rightarrow> None)"

text \<open>
  The two ways a drain ends: everything was accepted, or the last patch popped was refused
  and went back.
\<close>

definition drained ::
  "('q, 'w) resize_api \<Rightarrow> 'w \<Rightarrow> 'q queue \<Rightarrow> 'q pending_patch list \<Rightarrow> 'w \<Rightarrow> 'q queue \<Rightarrow> bool" where
  "drained api w h ps w' h' \<longleftrightarrow>
     pops queue_Pop h ps h' \<and> submits api w ps = Some w' \<and> h' = [] \<or>
     (\<exists>p e w1 h1. pops queue_Pop h (ps @ [p]) h1 \<and> submits api w ps = Some w1 \<and>
        Submit api w1 p = (w', Some e) \<and> h' = queue_Push h1 p)"

lemma drainPatches_drained:
  assumes "queue_good h"
  shows "\<exists>ps w' h'. drainPatches api w h = Ret (w', h') \<and> drained api w h ps w' h'"
  using assms
proof (induction "length h" arbitrary: w h rule: less_induct)
  case less
  show ?case
  proof (cases rule: patch_queue.pop_cases [OF less.prems])
    case 1
    then have "drainPatches api w h = Ret (w, [])" by (subst drainPatches.simps) simp
    moreover have "drained api w h [] w []" using 1 by (simp add: drained_def pops_none)
    ultimately show ?thesis by blast
  next
    case (2 p h1)
    show ?thesis
    proof (cases "Submit api w p")
      case (Pair w1 r)
      show ?thesis
      proof (cases r)
        case None
        obtain ps w' h' where ih: "drainPatches api w1 h1 = Ret (w', h')" "drained api w1 h1 ps w' h'"
          using less.hyps [OF queue_Pop_shorter [OF 2(1)] 2(2)] by blast
        have "drained api w h (p # ps) w' h'"
          using ih(2) Pair None pops_one [of queue_Pop h p h1] 2(1) by (auto simp: drained_def) blast+
        moreover have "drainPatches api w h = Ret (w', h')"
          using 2(1) Pair None ih(1) by (subst drainPatches.simps) simp
        ultimately show ?thesis by blast
      next
        case (Some e)
        have "pops queue_Pop h [p] h1" by (rule pops_one [of queue_Pop, OF 2(1) pops_none])
        then have "drained api w h [] w1 (queue_Push h1 p)" using Pair Some by (auto simp: drained_def)
        moreover have "drainPatches api w h = Ret (w1, queue_Push h1 p)"
          using 2(1) Pair Some by (subst drainPatches.simps) simp
        ultimately show ?thesis by blast
      qed
    qed
  qed
qed

lemma drained_good:
  assumes "drained api w h ps w' h'" "queue_good h"
  shows "queue_good h' \<and> mset h = mset ps + mset h' \<and> sorted_wrt (\<lambda>p q. \<not> patch_less q p) ps \<and>
    (\<forall>p \<in> set ps. \<forall>q \<in> set h'. \<not> patch_less q p) \<and>
    (\<exists>w1. submits api w ps = Some w1 \<and>
       (h' = [] \<and> w' = w1 \<or> (\<exists>p e. p \<in> set h' \<and> Submit api w1 p = (w', Some e))))"
  using assms(1) unfolding drained_def
proof (elim disjE exE conjE)
  assume "pops queue_Pop h ps h'" and "submits api w ps = Some w'" "h' = []"
  from patch_queue.pops_elems [OF this(1) assms(2)] patch_queue.pops_sorted [OF this(1) assms(2)] this
  show ?thesis by simp
next
  fix p e w1 h1
  assume *: "pops queue_Pop h (ps @ [p]) h1" "h' = queue_Push h1 p"
    and sub: "submits api w ps = Some w1" "Submit api w1 p = (w', Some e)"
  note e = patch_queue.pops_elems [OF *(1) assms(2)]
  have "p \<in> set h" using e by (metis in_multiset_in_set mset_append union_iff set_mset_mset list.set_intros(1) set_append Un_iff)
  then have "scored p" using assms(2) by (auto simp: queue_good_def list_all_iff)
  then have push: "queue_good h'" "mset h' = add_mset p (mset h1)" using e *(2) by (simp_all add: queue_Push_laws)
  then have "set h' = insert p (set h1)" by (metis set_mset_add_mset_insert set_mset_mset)
  then show ?thesis
    using patch_queue.pops_sorted [OF *(1) assms(2)] e push sub by (auto simp: sorted_wrt_append)
qed

section \<open>Invariants of the agent\<close>

definition wf_pod :: "go_math \<Rightarrow> pod_state \<Rightarrow> bool" where
  "wf_pod m st \<longleftrightarrow>
     wf_hist m (cs_h (ps_cpu st)) \<and> opts (cs_h (ps_cpu st)) = DefaultCPUOptions \<and>
     wf_hist m (mp_h (ps_mem st)) \<and> mp_interval (ps_mem st) = Minute \<and>
     ps_memLimit st = Fin 0 \<and> ps_prevOOMKill st = 0"

definition wf_agent :: "go_math \<Rightarrow> 'q agent \<Rightarrow> bool" where
  "wf_agent m a \<longleftrightarrow> (\<forall>uid st. a_pods a uid = Some st \<longrightarrow> wf_pod m st \<and> ps_uid st = uid)"

lemma mem_Record_wf:
  assumes "wf_hist m (mp_h p)"
  shows "\<exists>p'. mem_Record m p b t = Ret p' \<and> wf_hist m (mp_h p') \<and> mp_interval p' = mp_interval p"
proof -
  obtain h where "wf_hist m h" "mem_records m p [(b, t)] = Ret (p\<lparr>mp_h := h,
      curStart := fst (snd (windows (mp_interval p) (curStart p) (curPeak p) [(b, t)])),
      curPeak := snd (snd (windows (mp_interval p) (curStart p) (curPeak p) [(b, t)])),
      absPeak := fold max (map fst [(b, t)]) (absPeak p)\<rparr>)"
    using mem_records_windows [OF assms, of "[(b, t)]"] by blast
  then show ?thesis by (auto elim!: go_bind_RetE)
qed

lemma sample_pod_wf:
  assumes "wf_pod m st"
  shows "\<exists>st'. sample_pod m fs st t = Ret st' \<and> wf_pod m st' \<and> ps_uid st' = ps_uid st"
proof -
  have "\<exists>st1. sample_memory m fs st t = Ret st1 \<and> wf_pod m st1 \<and> ps_uid st1 = ps_uid st"
  proof (cases "fs_read fs (ps_cgroupPath st @ ''/memory.current'')")
    case (Inr b)
    obtain p' where "mem_Record m (ps_mem st) (word_of_int (sscanf_uint b)) t = Ret p'"
      "wf_hist m (mp_h p')" "mp_interval p' = mp_interval (ps_mem st)"
      using mem_Record_wf [of m "ps_mem st"] assms unfolding wf_pod_def by metis
    then show ?thesis using assms Inr by (simp add: sample_memory_def wf_pod_def)
  qed (use assms in \<open>simp add: sample_memory_def\<close>)
  then obtain st1 where st1: "sample_memory m fs st t = Ret st1" "wf_pod m st1" "ps_uid st1 = ps_uid st" by blast
  moreover have "sample_oom m fs st1 t = Ret st1"
    using st1(2) by (auto simp: sample_oom_def wf_pod_def f64_consts split: sum.split)
  ultimately show ?thesis by (simp add: sample_pod_def)
qed

lemma sampleAll_loop_wf:
  assumes "\<forall>uid st. pods uid = Some st \<longrightarrow> wf_pod m st \<and> ps_uid st = uid"
  shows "\<exists>pods'. sampleAll_loop m fs t uids pods = Ret pods' \<and>
    (\<forall>uid st. pods' uid = Some st \<longrightarrow> wf_pod m st \<and> ps_uid st = uid) \<and> dom pods' = dom pods"
  using assms
proof (induction uids arbitrary: pods)
  case (Cons u us)
  show ?case
  proof (cases "pods u")
    case (Some st)
    then obtain st' where st': "sample_pod m fs st t = Ret st'" "wf_pod m st'" "ps_uid st' = u"
      using sample_pod_wf [of m st fs t] Cons.prems by blast
    then have "\<forall>uid x. (pods(u \<mapsto> st')) uid = Some x \<longrightarrow> wf_pod m x \<and> ps_uid x = uid" using Cons.prems by simp
    from Cons.IH [OF this] obtain pods' where "sampleAll_loop m fs t us (pods(u \<mapsto> st')) = Ret pods'"
      "\<forall>uid x. pods' uid = Some x \<longrightarrow> wf_pod m x \<and> ps_uid x = uid" "dom pods' = dom (pods(u \<mapsto> st'))" by blast
    moreover have "dom (pods(u \<mapsto> st')) = dom pods" using Some by auto
    ultimately show ?thesis using Some st'(1) by simp
  qed (use Cons in simp)
qed simp

lemma restore_checkpoint_wf:
  assumes "wf_hist m (cs_h cs)" "ck \<noteq> [] \<longrightarrow> Decode m c ck \<noteq> Panic"
  shows "\<exists>cs'. restore_checkpoint m c cs ck = Ret cs' \<and> wf_hist m (cs_h cs') \<and> opts (cs_h cs') = opts (cs_h cs)"
proof (cases "ck \<noteq> [] \<and> (\<exists>h. Decode m c ck = Ret (Inr h))")
  case True
  then obtain h where h: "ck \<noteq> []" "Decode m c ck = Ret (Inr h)" by blast
  then show ?thesis
    using Merge_returns [OF assms(1) Decode_wf [OF h(2)]] by (auto simp: restore_checkpoint_def cpu_Snapshot_def)
next
  case False
  then show ?thesis using assms
    by (cases "Decode m c ck") (auto simp: restore_checkpoint_def split: sum.splits)
qed

lemma restore_checkpoint_panics:
  assumes "ck \<noteq> []" "Decode m c ck = Panic"
  shows "restore_checkpoint m c cs ck = Panic"
  using assms by (simp add: restore_checkpoint_def)

text \<open>Registering a pod: how far it gets, and what it panics on.\<close>

definition restores :: "node_fs \<Rightarrow> 'q agent \<Rightarrow> pod_info \<Rightarrow> 'q prr \<Rightarrow> bool" where
  "restores fs a p prr \<longleftrightarrow>
     a_pods a (pi_uid p) = None \<and> (\<exists>sl. PodPath fs (CgroupRoot (a_Cfg a)) (pi_uid p) (pi_qos p) = Inr sl) \<and>
     HistogramCheckpoint (prr_Status prr) \<noteq> []"

lemma EnsurePod_cases:
  assumes "wf_agent m a"
    and "numBuckets m DefaultCPUOptions \<le> max_slice_len" "numBuckets m DefaultMemoryOptions \<le> max_slice_len"
  shows "if restores fs a p prr \<and> Decode m c (HistogramCheckpoint (prr_Status prr)) = Panic
    then EnsurePod m fs c a p prr = Panic
    else \<exists>e a'. EnsurePod m fs c a p prr = Ret (e, a') \<and> wf_agent m a' \<and> a_queue a' = a_queue a"
proof (cases "a_pods a (pi_uid p) \<noteq> None \<or> (\<exists>e. PodPath fs (CgroupRoot (a_Cfg a)) (pi_uid p) (pi_qos p) = Inl e)")
  case True
  then show ?thesis using assms(1) by (auto simp: EnsurePod_def restores_def Let_def)
next
  case False
  let ?ck = "HistogramCheckpoint (prr_Status prr)"
  obtain sl where sl: "PodPath fs (CgroupRoot (a_Cfg a)) (pi_uid p) (pi_qos p) = Inr sl"
    using False by (cases "PodPath fs (CgroupRoot (a_Cfg a)) (pi_uid p) (pi_qos p)") auto
  obtain h where h: "New m DefaultCPUOptions = Ret (Inr h)" using assms(2) Validate_defaults New_cases by blast
  obtain g where g: "New m DefaultMemoryOptions = Ret (Inr g)" using assms(3) Validate_defaults New_cases by blast
  note parts = EnsurePod_def NewCPUStream_def NewMemoryPeakExtractor_def restores_def
  show ?thesis
  proof (cases "?ck \<noteq> [] \<and> Decode m c ?ck = Panic")
    case True
    then show ?thesis using False sl h g restore_checkpoint_panics [of ?ck m c] by (auto simp: parts Let_def)
  next
    case d: False
    have w: "wf_hist m (cs_h \<lparr>cs_h = h\<rparr>)" using New_wf(1) [OF h] by simp
    obtain cs where "restore_checkpoint m c \<lparr>cs_h = h\<rparr> ?ck = Ret cs" "wf_hist m (cs_h cs)" "opts (cs_h cs) = opts h"
      using restore_checkpoint_wf [OF w, of ?ck c] d by auto
    then show ?thesis
      using False d sl h g assms(1) New_wf(1) [OF g] New_wf(3) [OF h]
      by (auto simp: parts wf_agent_def wf_pod_def f64_consts Let_def)
  qed
qed

text \<open>A drain ends whatever the queue holds, priorities that are no numbers included.\<close>

lemma queue_Pop_returns: "\<exists>r h'. queue_Pop h = Ret (r, h')"
  by (simp add: queue_Pop_def heap_pop_def Let_def)

lemma drainPatches_returns: "\<exists>w' h'. drainPatches api w h = Ret (w', h')"
proof (induction "length h" arbitrary: w h rule: less_induct)
  case less
  obtain r h1 where p: "queue_Pop h = Ret (r, h1)" using queue_Pop_returns by blast
  show ?case
  proof (cases r)
    case (Some x)
    obtain w1 e where "Submit api w x = (w1, e)" by fastforce
    then show ?thesis using p Some less.hyps [OF queue_Pop_shorter, of x h1 w1]
      by (cases e) (auto simp: drainPatches.simps [of api w h])
  qed (use p in \<open>simp add: drainPatches.simps [of api w h]\<close>)
qed

lemma drainPatches_good: "queue_good h \<Longrightarrow> drainPatches api w h = Ret (w', h') \<Longrightarrow> queue_good h'"
  using drainPatches_drained [of h api w] drained_good by fastforce

text \<open>The one event that panics, and the queue an event leaves.\<close>

fun panics_on :: "('q, 'w) agent_env \<Rightarrow> 'q agent \<Rightarrow> 'q event \<Rightarrow> bool" where
  "panics_on E a (EnsureCall fs p prr) =
     (restores fs a p prr \<and> Decode (e_math E) (e_codec E) (HistogramCheckpoint (prr_Status prr)) = Panic)"
| "panics_on E a _ = False"

fun enqueues_number :: "'q event \<Rightarrow> bool" where
  "enqueues_number (EnqueueCall p) = scored p"
| "enqueues_number _ = True"

lemma enqueues_number_iff: "enqueues_number ev \<longleftrightarrow> (\<forall>p. ev = EnqueueCall p \<longrightarrow> scored p)"
  by (cases ev) simp_all

lemma handle_cases:
  assumes "wf_agent (e_math E) a"
    and "numBuckets (e_math E) DefaultCPUOptions \<le> max_slice_len"
    and "numBuckets (e_math E) DefaultMemoryOptions \<le> max_slice_len"
  shows "if panics_on E a ev then handle E (a, w) ev = Panic
    else \<exists>a' w'. handle E (a, w) ev = Ret (a', w') \<and> wf_agent (e_math E) a' \<and>
      (queue_good (a_queue a) \<and> enqueues_number ev \<longrightarrow> queue_good (a_queue a'))"
proof (cases ev)
  case (SampleTick fs order t)
  obtain pods where pods: "sampleAll_loop (e_math E) fs t order (a_pods a) = Ret pods"
    "\<forall>uid st. pods uid = Some st \<longrightarrow> wf_pod (e_math E) st \<and> ps_uid st = uid"
    using sampleAll_loop_wf [OF assms(1) [unfolded wf_agent_def]] by blast
  obtain w' h' where "drainPatches (e_api E) w (a_queue a) = Ret (w', h')"
    using drainPatches_returns [of "e_api E" w "a_queue a"] by (elim exE)
  then show ?thesis using SampleTick pods drainPatches_good [of "a_queue a" "e_api E" w] by (simp add: sampleAll_def wf_agent_def)
next
  case (EnsureCall fs p prr)
  then show ?thesis using EnsurePod_cases [OF assms, of fs p prr "e_codec E"] by (auto split: if_split_asm)
next
  case (ForgetCall uid)
  then show ?thesis using assms(1) by (simp add: ForgetPod_def wf_agent_def)
next
  case (EnqueueCall p)
  then show ?thesis using assms(1) by (simp add: Enqueue_def wf_agent_def queue_Push_laws)
qed (use assms(1) in simp)

lemma handle_wf:
  assumes "wf_agent (e_math E) a" "handle E (a, w) ev = Ret (a', w')"
    and "numBuckets (e_math E) DefaultCPUOptions \<le> max_slice_len"
    and "numBuckets (e_math E) DefaultMemoryOptions \<le> max_slice_len"
  shows "wf_agent (e_math E) a' \<and> (queue_good (a_queue a) \<and> enqueues_number ev \<longrightarrow> queue_good (a_queue a'))"
  using handle_cases [OF assms(1,3,4), of ev w] assms(2) by (auto split: if_split_asm)

lemma agent_New_wf: "agent_New fs cfg = Inr a \<Longrightarrow> wf_agent m a"
  by (auto simp: agent_New_def wf_agent_def Let_def split: prod.splits option.splits if_splits)

lemma reachable_wf:
  assumes "reachable E fs0 cfg w0 s"
    and "numBuckets (e_math E) DefaultCPUOptions \<le> max_slice_len"
    and "numBuckets (e_math E) DefaultMemoryOptions \<le> max_slice_len"
  shows "wf_agent (e_math E) (fst s)"
  using assms(1)
proof (induction rule: reachable.induct)
  case (step a w ev a' w')
  then show ?case using handle_wf [OF _ step(3) assms(2,3)] by simp
qed (simp add: agent_New_wf)

text \<open>Decoding panics exactly when the stored options are valid but ask for too many buckets.\<close>

lemma Decode_panics:
  "Decode m c ck = Panic \<longleftrightarrow>
   (\<exists>raw cp. base64_decode c ck = Inr raw \<and> gob_decode c raw = Inr cp \<and> Validate (checkpoint_options cp) = None \<and>
      max_slice_len < numBuckets m (checkpoint_options cp))"
  by (auto simp: Decode_def New_def Let_def split: sum.split option.split prod.split)

section \<open>Properties of the agent\<close>

text \<open>
  (C21) A drain terminates and loses no patch: it submits patches in order of falling
  priority, each accepted one before the next is tried; what was accepted and what is still
  queued together are the old queue, and everything accepted outranks everything left. It
  stops with an empty queue or at the first refusal, with the refused patch back in the queue.
\<close>

theorem drain_by_priority:
  assumes "queue_good h"
  shows "\<exists>ps w1 w' h'. drainPatches api w h = Ret (w', h') \<and> queue_good h' \<and>
    mset h = mset ps + mset h' \<and> sorted_wrt (\<lambda>p q. Priority q \<le> Priority p) ps \<and>
    (\<forall>p \<in> set ps. \<forall>q \<in> set h'. Priority q \<le> Priority p) \<and> submits api w ps = Some w1 \<and>
    (h' = [] \<and> w' = w1 \<or> (\<exists>p e. p \<in> set h' \<and> Submit api w1 p = (w', Some e)))"
proof -
  obtain ps w' h' where d: "drainPatches api w h = Ret (w', h')" "drained api w h ps w' h'"
    using drainPatches_drained [OF assms, of api w] by blast
  note g = drained_good [OF d(2) assms]
  have sc: "scored q" if "q \<in> set ps \<union> set h'" for q
  proof -
    have "q \<in># mset h" using that g by auto
    then show ?thesis using assms by (auto simp: queue_good_def list_all_iff)
  qed
  have le: "Priority q \<le> Priority p" if "p \<in> set ps \<union> set h'" "q \<in> set ps \<union> set h'" "\<not> patch_less q p" for p q
    using sc [OF that(1)] sc [OF that(2)] that(3) by (simp add: patch_less_def scored_def f64_not_less)
  have "sorted_wrt (\<lambda>p q. Priority q \<le> Priority p) ps"
    using g le by (auto intro: sorted_wrt_mono_rel [of ps "\<lambda>p q. \<not> patch_less q p"])
  moreover have "\<forall>p \<in> set ps. \<forall>q \<in> set h'. Priority q \<le> Priority p" using g le by blast
  ultimately show ?thesis using d(1) g by blast
qed

definition demo_api :: "(int, nat) resize_api" where
  "demo_api = \<lparr>ra_marshal = (\<lambda>_. Inr []), ra_patch = (\<lambda>w _ _ _ _ _. (Suc w, if w < 1 then None else Some (ApiErr TooManyRequests)))\<rparr>"

theorem drain_by_priority_witness:
  "\<exists>w' h'. drainPatches demo_api 0 demo_queue = Ret (w', h') \<and> queue_good h'"
  using drain_by_priority [OF demo_queue_good(1), of demo_api 0] by blast

fun drain_times :: "nat \<Rightarrow> ('q, 'w) resize_api \<Rightarrow> 'w \<Rightarrow> 'q queue \<Rightarrow> ('w \<times> 'q queue) go" where
  "drain_times 0 api w h = Ret (w, h)"
| "drain_times (Suc n) api w h = go_bind (drainPatches api w h) (\<lambda>(w', h'). drain_times n api w' h')"

lemma drain_refused:
  assumes "queue_good h" "p \<in> set h" "\<forall>q \<in> set h. q \<noteq> p \<longrightarrow> Priority q < Priority p"
    and "snd (Submit api w p) \<noteq> None"
  shows "\<exists>h'. drainPatches api w h = Ret (fst (Submit api w p), h') \<and> queue_good h' \<and> mset h' = mset h"
proof (cases rule: patch_queue.pop_cases [OF assms(1)])
  case 1
  then show ?thesis using assms(2) by simp
next
  case (2 x h1)
  have "x \<in> set h" using 2(3) by (metis union_single_eq_member set_mset_mset)
  moreover have "\<not> patch_less p x" using 2(4) assms(2) by simp
  ultimately have "x = p" using assms(3) by (auto simp: patch_less_def)
  moreover have "scored p" using assms(1,2) by (auto simp: queue_good_def list_all_iff)
  moreover obtain w' e where "Submit api w p = (w', Some e)"
    using assms(4) by (cases "Submit api w p") auto
  ultimately show ?thesis using 2 by (subst drainPatches.simps) (simp add: queue_Push_laws)
qed

text \<open>
  (C35) A patch the API server keeps refusing blocks the queue: as long as the patch of the
  highest priority is refused, any number of drains submits only that patch and leaves every
  other patch waiting.
\<close>

theorem refused_patch_blocks_queue:
  assumes "queue_good h" "p \<in> set h" "\<forall>q \<in> set h. q \<noteq> p \<longrightarrow> Priority q < Priority p"
    and "\<forall>w. snd (Submit api w p) \<noteq> None"
  shows "\<exists>h'. drain_times n api w h = Ret (((\<lambda>w. fst (Submit api w p)) ^^ n) w, h') \<and> mset h' = mset h"
  using assms(1-3)
proof (induction n arbitrary: w h)
  case (Suc n)
  obtain h1 where h1: "drainPatches api w h = Ret (fst (Submit api w p), h1)" "queue_good h1" "mset h1 = mset h"
    using drain_refused [OF Suc.prems assms(4) [THEN spec, of w]] by (elim exE conjE)
  have "set h1 = set h" using h1(3) by (metis set_mset_mset)
  then have pre: "p \<in> set h1" "\<forall>q \<in> set h1. q \<noteq> p \<longrightarrow> Priority q < Priority p"
    using Suc.prems(2,3) by simp_all
  obtain h' where "drain_times n api (fst (Submit api w p)) h1 =
      Ret (((\<lambda>w. fst (Submit api w p)) ^^ n) (fst (Submit api w p)), h')" "mset h' = mset h1"
    using Suc.IH [OF h1(2) pre, of "fst (Submit api w p)"] by (elim exE conjE)
  then show ?case
    using h1 funpow_swap1 [of "\<lambda>w. fst (Submit api w p)" n w] by simp
qed simp

theorem refused_patch_blocks_queue_witness:
  "\<exists>h'. drain_times 5 (demo_api\<lparr>ra_patch := (\<lambda>w _ _ _ _ _. (Suc w, Some (ApiErr Forbidden)))\<rparr>) 0 demo_queue = Ret (5, h') \<and>
     mset h' = mset demo_queue"
proof -
  let ?api = "demo_api\<lparr>ra_patch := (\<lambda>w _ _ _ _ _. (Suc w, Some (ApiErr Forbidden)))\<rparr>"
  have pr: "Priority (demo_patch ''a'' 1) = Fin (1 / 4)" "Priority (demo_patch ''b'' (- 3)) = Fin (3 / 4)"
    "Priority (demo_patch ''c'' 2) = Fin (1 / 2)" by code_simp+
  have s: "set demo_queue = {demo_patch ''a'' 1, demo_patch ''b'' (- 3), demo_patch ''c'' 2}"
    using demo_queue_good(2) by (metis set_mset_mset set_mset_add_mset_insert set_mset_empty)
  have sub: "Submit ?api w p = (Suc w, Some (Wrap ''resize rejected by kubelet (likely KEP-1287 unsupported)'' (ApiErr Forbidden)))" for w p
    by (simp add: Submit_def demo_api_def)
  have "((\<lambda>w. fst (Submit ?api w p)) ^^ n) 0 = n" for n p by (induction n) (simp_all add: sub)
  then show ?thesis
    using refused_patch_blocks_queue [OF demo_queue_good(1), of "demo_patch ''b'' (- 3)" ?api 5 0]
    by (simp add: s pr sub)
qed

text \<open>
  (C17) The agent panics in one case only: in every state it can reach, whatever the node's
  files contain, in whatever order the pods are visited and whatever is queued, an event
  panics if and only if it registers a pod that is not registered yet, whose slice is found,
  and whose stored checkpoint decodes to options that pass the validation but ask for more
  buckets than a slice can hold. Every other event is handled to the end, the histograms of
  all registered pods stay well formed, and the queue stays a heap as long as the priorities
  queued are numbers. The default options are assumed to need no more buckets than fit.
\<close>

theorem agent_panics_only_on_decode:
  assumes "reachable E fs0 cfg w0 (a, w)"
    and "numBuckets (e_math E) DefaultCPUOptions \<le> max_slice_len"
    and "numBuckets (e_math E) DefaultMemoryOptions \<le> max_slice_len"
  shows "(handle E (a, w) ev = Panic \<longleftrightarrow>
      (\<exists>fs p prr sl raw cp. ev = EnsureCall fs p prr \<and> a_pods a (pi_uid p) = None \<and>
         PodPath fs (CgroupRoot (a_Cfg a)) (pi_uid p) (pi_qos p) = Inr sl \<and> HistogramCheckpoint (prr_Status prr) \<noteq> [] \<and>
         base64_decode (e_codec E) (HistogramCheckpoint (prr_Status prr)) = Inr raw \<and> gob_decode (e_codec E) raw = Inr cp \<and>
         Validate (checkpoint_options cp) = None \<and> max_slice_len < numBuckets (e_math E) (checkpoint_options cp))) \<and>
    (\<forall>a' w'. handle E (a, w) ev = Ret (a', w') \<longrightarrow> wf_agent (e_math E) a' \<and>
       (queue_good (a_queue a) \<and> (\<forall>p. ev = EnqueueCall p \<longrightarrow> scored p) \<longrightarrow> queue_good (a_queue a')))"
proof
  have wf: "wf_agent (e_math E) a" using reachable_wf [OF assms] by simp
  have "handle E (a, w) ev = Panic \<longleftrightarrow> panics_on E a ev"
    using handle_cases [OF wf assms(2,3), of ev w] by (auto split: if_split_asm)
  then show "handle E (a, w) ev = Panic \<longleftrightarrow>
      (\<exists>fs p prr sl raw cp. ev = EnsureCall fs p prr \<and> a_pods a (pi_uid p) = None \<and>
         PodPath fs (CgroupRoot (a_Cfg a)) (pi_uid p) (pi_qos p) = Inr sl \<and> HistogramCheckpoint (prr_Status prr) \<noteq> [] \<and>
         base64_decode (e_codec E) (HistogramCheckpoint (prr_Status prr)) = Inr raw \<and> gob_decode (e_codec E) raw = Inr cp \<and>
         Validate (checkpoint_options cp) = None \<and> max_slice_len < numBuckets (e_math E) (checkpoint_options cp))"
    by (cases ev) (auto simp: restores_def Decode_panics)
  show "\<forall>a' w'. handle E (a, w) ev = Ret (a', w') \<longrightarrow> wf_agent (e_math E) a' \<and>
       (queue_good (a_queue a) \<and> (\<forall>p. ev = EnqueueCall p \<longrightarrow> scored p) \<longrightarrow> queue_good (a_queue a'))"
    unfolding enqueues_number_iff [symmetric] by (intro allI impI) (rule handle_wf [OF wf _ assms(2,3)])
qed

definition demo_env :: "(int, nat) agent_env" where
  "demo_env = \<lparr>e_math = flat_math, e_codec = demo_codec, e_api = demo_api,
     e_client = \<lparr>pc_get = (\<lambda>_ _ _. Inl (ApiErr NotFound)), pc_patch_status = (\<lambda>w _ _. (w, None))\<rparr>\<rparr>"

definition demo_config :: config where
  "demo_config = \<lparr>NodeName = ''n1'', CgroupRoot = [], KubeletConfig = [], SampleInterval = 0, CheckpointEvery = 0\<rparr>"

definition demo_agent :: "int agent" where
  "demo_agent = \<lparr>a_Cfg = demo_config\<lparr>SampleInterval := 10 * Second, CheckpointEvery := Minute\<rparr>,
     a_Caps = \<lparr>CgroupV2 = True, SwapAccounting = True, StaticCPUManager = False\<rparr>, a_pods = Map.empty, a_queue = NewQueue\<rparr>"

lemma demo_reachable: "reachable demo_env demo_fs demo_config 0 (demo_agent, 0)"
  by (rule reachable.init)
    (simp add: agent_New_def ProbeNode_def demo_fs_def demo_config_def demo_agent_def Let_def)

text \<open>
  A pod whose stored checkpoint has valid options with the bucket ratio 3/2, under a
  logarithm for which these need \<open>2^52\<close> buckets while the defaults need one.
\<close>

definition hostile_env :: "(int, nat) agent_env" where
  "hostile_env = demo_env\<lparr>e_math := flat_math\<lparr>m_log := (\<lambda>x. if x = Fin (3 / 2) then Fin (1 / 2 ^ 52) else Fin 1)\<rparr>,
     e_codec := demo_codec\<lparr>gob_decode := (\<lambda>_. Inr \<lparr>ck_MaxValue = Fin 1000, ck_FirstBucketSize = Fin 1, ck_BucketRatio = Fin (3 / 2),
       ck_HalfLifeNS = 1, ck_Epsilon = Fin 0, ck_Buckets = [], ck_TotalWeight = Fin 0, ck_ReferenceUnixNS = 0\<rparr>)\<rparr>\<rparr>"

definition demo_guaranteed :: pod_info where
  "demo_guaranteed = \<lparr>pi_uid = ''u-1'', pi_namespace = ''ns'', pi_name = ''pod'', pi_qos = Guaranteed\<rparr>"

lemma hostile_buckets:
  "numBuckets (e_math hostile_env) DefaultCPUOptions \<le> max_slice_len"
  "numBuckets (e_math hostile_env) DefaultMemoryOptions \<le> max_slice_len"
  "max_slice_len < numBuckets (e_math hostile_env)
     \<lparr>MaxValue = Fin 1000, FirstBucketSize = Fin 1, BucketRatio = Fin (3 / 2), HalfLife = 1, Epsilon = Fin 0\<rparr>"
  unfolding hostile_env_def by code_simp+

theorem agent_panics_only_on_decode_witness:
  "handle hostile_env (demo_agent, 0) (EnsureCall demo_fs demo_guaranteed (demo_prr ''Zgob'' [] None)) = Panic \<and>
   handle hostile_env (demo_agent, 0) (EnsureCall demo_fs demo_guaranteed (demo_prr [] [] None)) \<noteq> Panic \<and>
   handle hostile_env (demo_agent, 0) (EnqueueCall (demo_patch ''a'' 1)) \<noteq> Panic"
proof -
  have r: "reachable hostile_env demo_fs demo_config 0 (demo_agent, 0)"
    by (rule reachable.init)
      (simp add: agent_New_def ProbeNode_def demo_fs_def demo_config_def demo_agent_def Let_def)
  note p = conjunct1 [OF agent_panics_only_on_decode [OF r hostile_buckets(1,2)]]
  have "PodPath demo_fs [] ''u-1'' Guaranteed = Inr ''/sys/fs/cgroup/kubepods.slice/kubepods-podu_1.slice''" by code_simp
  moreover have "Validate \<lparr>MaxValue = Fin 1000, FirstBucketSize = Fin 1, BucketRatio = Fin (3 / 2), HalfLife = 1, Epsilon = Fin 0\<rparr> = None"
    by code_simp
  ultimately show ?thesis unfolding p using hostile_buckets(3)
    by (simp add: demo_guaranteed_def demo_agent_def demo_config_def demo_prr_def demo_status_def hostile_env_def demo_codec_def
        checkpoint_options_def)
qed

text \<open>
  (C36) An OOM kill never raises the memory histogram: no operation sets the memory limit of a
  registered pod, so in every reachable state the limit is zero and the branch that injects
  the synthetic sample is dead, whatever \<open>memory.events\<close> says.
\<close>

theorem oom_bump_never_fires:
  assumes "reachable E fs0 cfg w0 (a, w)" "a_pods a uid = Some st"
    and "numBuckets (e_math E) DefaultCPUOptions \<le> max_slice_len"
    and "numBuckets (e_math E) DefaultMemoryOptions \<le> max_slice_len"
  shows "ps_memLimit st = Fin 0 \<and> sample_oom (e_math E) fs st t = Ret st"
proof -
  have "wf_pod (e_math E) st" using reachable_wf [OF assms(1,3,4)] assms(2) by (simp add: wf_agent_def)
  then show ?thesis by (auto simp: sample_oom_def wf_pod_def f64_consts split: sum.split)
qed

definition demo_pod_state :: pod_state where
  "demo_pod_state =
     \<lparr>ps_uid = ''u-1'', ps_namespace = ''ns'', ps_name = ''pod'', ps_prrName = ''prr'', ps_qos = Guaranteed,
      ps_cgroupPath = ''/sys/fs/cgroup/kubepods.slice/kubepods-podu_1.slice'',
      ps_cpu = \<lparr>cs_h = \<lparr>opts = DefaultCPUOptions, h_n = 1, buckets = [0], totalWeight = 0, referenceTime = zero_time\<rparr>\<rparr>,
      ps_mem = \<lparr>mp_h = \<lparr>opts = DefaultMemoryOptions, h_n = 1, buckets = [0], totalWeight = 0, referenceTime = zero_time\<rparr>,
        mp_interval = Minute, curStart = zero_time, curPeak = 0, absPeak = 0\<rparr>,
      ps_cpuWatermark = wm_New Hour, ps_memWatermark = wm_New (24 * Hour), ps_prevOOMKill = 0, ps_memLimit = 0\<rparr>"

lemma demo_registered:
  "reachable demo_env demo_fs demo_config 0 (demo_agent\<lparr>a_pods := [''u-1'' \<mapsto> demo_pod_state]\<rparr>, 0)"
proof (rule reachable.step [OF demo_reachable])
  let ?ev = "EnsureCall demo_fs demo_guaranteed (demo_prr [] [] None)"
  show "admissible demo_agent ?ev" by simp
  have "PodPath demo_fs [] ''u-1'' Guaranteed = Inr ''/sys/fs/cgroup/kubepods.slice/kubepods-podu_1.slice''" by code_simp
  then show "handle demo_env (demo_agent, 0) ?ev = Ret (demo_agent\<lparr>a_pods := [''u-1'' \<mapsto> demo_pod_state]\<rparr>, 0)"
    by (simp add: EnsurePod_def demo_guaranteed_def demo_agent_def demo_env_def demo_config_def NewCPUStream_def NewMemoryPeakExtractor_def
        New_def Validate_defaults flat_buckets max_slice_len_def restore_checkpoint_def demo_prr_def demo_status_def
        demo_meta_def demo_pod_state_def Let_def)
qed

theorem oom_bump_never_fires_witness:
  "sample_oom flat_math \<lparr>fs_read = (\<lambda>_. Inr (unlines [unwords [''oom_kill'', dec 7]])), fs_stat = (\<lambda>_. True),
     fs_not_exist = (\<lambda>_. False)\<rparr> demo_pod_state 0 = Ret demo_pod_state"
  using oom_bump_never_fires [OF demo_registered, of "''u-1''" demo_pod_state]
  by (simp add: demo_env_def flat_buckets max_slice_len_def)

end
