(* ===== verification/Recommender.thy ===== *)
theory Recommender
  imports Histogram GoText Api
begin

text \<open>
  Package \<open>internal/recommender\<close>: aggregation of the pods' histograms, percentile bounds,
  confidence widening, the safety margin with its memory floor, clamping to the resource
  policy, the assembled recommendation, and the workload checkpoint.
\<close>

section \<open>Aggregation\<close>

record workload_histograms =
  wh_CPU :: histogram
  wh_Memory :: histogram

definition NewWorkloadHistograms :: "go_math \<Rightarrow> (go_error + workload_histograms) go" where
  "NewWorkloadHistograms m =
     go_bind (New m DefaultCPUOptions) (\<lambda>r.
       case r of
         Inl e \<Rightarrow> Ret (Inl (Wrap ''cpu histogram'' e))
       | Inr cpu \<Rightarrow>
           go_bind (New m DefaultMemoryOptions) (\<lambda>r.
             case r of
               Inl e \<Rightarrow> Ret (Inl (Wrap ''memory histogram'' e))
             | Inr mem \<Rightarrow> Ret (Inr \<lparr>wh_CPU = cpu, wh_Memory = mem\<rparr>)))"

text \<open>One iteration of the loop over the recommendations, given the checkpoint text.\<close>

definition aggregate_step ::
  "go_math \<Rightarrow> checkpoint codec \<Rightarrow> workload_histograms \<Rightarrow> string \<Rightarrow> workload_histograms go" where
  "aggregate_step m c wh ck =
     (if ck = [] then Ret wh
      else
        go_bind (Decode m c ck) (\<lambda>r.
          case r of
            Inl _ \<Rightarrow> Ret wh
          | Inr h \<Rightarrow>
              if Fin (2 ^ 30) \<le> MaxValue (Options h)
              then go_bind (Merge m (wh_Memory wh) h) (\<lambda>(_, mem). Ret (wh\<lparr>wh_Memory := mem\<rparr>))
              else go_bind (Merge m (wh_CPU wh) h) (\<lambda>(_, cpu). Ret (wh\<lparr>wh_CPU := cpu\<rparr>))))"

fun aggregate_loop ::
  "go_math \<Rightarrow> checkpoint codec \<Rightarrow> workload_histograms \<Rightarrow> 'q prr list \<Rightarrow> workload_histograms go" where
  "aggregate_loop m c wh [] = Ret wh"
| "aggregate_loop m c wh (p # ps) =
     go_bind (aggregate_step m c wh (HistogramCheckpoint (prr_Status p)))
       (\<lambda>wh'. aggregate_loop m c wh' ps)"

definition Aggregate ::
  "go_math \<Rightarrow> checkpoint codec \<Rightarrow> 'q prr list \<Rightarrow> (go_error + workload_histograms) go" where
  "Aggregate m c prrs =
     go_bind (NewWorkloadHistograms m) (\<lambda>r.
       case r of
         Inl e \<Rightarrow> Ret (Inl e)
       | Inr wh \<Rightarrow> go_bind (aggregate_loop m c wh prrs) (\<lambda>wh'. Ret (Inr wh')))"

section \<open>Percentile bounds\<close>

record bounds =
  CPULower :: float64
  CPUTarget :: float64
  CPUUncapped :: float64
  CPUUpper :: float64
  MemoryLower :: float64
  MemoryTarget :: float64
  MemoryUncapped :: float64
  MemoryUpper :: float64

definition parsePercentile :: "string \<Rightarrow> float64 \<Rightarrow> float64" where
  "parsePercentile s fallback =
     (if s = [] then fallback
      else case ParseFloat s of (v, Some _) \<Rightarrow> fallback | (v, None) \<Rightarrow> v)"

definition ComputeBounds :: "go_math \<Rightarrow> workload_histograms \<Rightarrow> recommender_policy \<Rightarrow> bounds" where
  "ComputeBounds m wh p =
     (let lower = parsePercentile (LowerBoundPercentile p) (Fin 50);
          target = parsePercentile (TargetPercentile p) (Fin 90);
          upper = parsePercentile (UpperBoundPercentile p) (Fin 95)
      in \<lparr>CPULower = Percentile m (wh_CPU wh) lower,
          CPUTarget = Percentile m (wh_CPU wh) target,
          CPUUncapped = Percentile m (wh_CPU wh) target,
          CPUUpper = Percentile m (wh_CPU wh) upper,
          MemoryLower = Percentile m (wh_Memory wh) lower,
          MemoryTarget = Percentile m (wh_Memory wh) target,
          MemoryUncapped = Percentile m (wh_Memory wh) target,
          MemoryUpper = Percentile m (wh_Memory wh) upper\<rparr>)"

section \<open>Confidence\<close>

record confidence =
  LowerMultiplier :: float64
  UpperMultiplier :: float64

definition ConfidenceMultipliers :: "go_math \<Rightarrow> duration \<Rightarrow> confidence" where
  "ConfidenceMultipliers m lifetime =
     (let hours = Hours lifetime;
          minute = rnd (1 / 60);
          hours' = (if hours < minute then minute else hours);
          t = hours' / Fin 24
      in \<lparr>LowerMultiplier = m_pow m (Fin 1 + Fin 1 / t) (Fin (- 1 / 2)),
          UpperMultiplier = m_pow m (Fin 1 + Fin 1 / t) (Fin 1)\<rparr>)"

definition ApplyConfidence :: "bounds \<Rightarrow> confidence \<Rightarrow> bounds" where
  "ApplyConfidence b c =
     b\<lparr>CPULower := CPULower b * LowerMultiplier c,
       CPUUpper := CPUUpper b * UpperMultiplier c,
       MemoryLower := MemoryLower b * LowerMultiplier c,
       MemoryUpper := MemoryUpper b * UpperMultiplier c\<rparr>"

section \<open>Safety margin and memory floor\<close>

definition margin_factor :: "int32 \<Rightarrow> float64" where
  "margin_factor percentage =
     (let pct = f64_of_int percentage;
          pct' = (if pct < 0 then 0 else pct)
      in Fin 1 + pct' / Fin 100)"

definition raise_to :: "float64 \<Rightarrow> float64 \<Rightarrow> float64" where
  "raise_to low v = (if v < low then low else v)"

definition cut_to :: "float64 \<Rightarrow> float64 \<Rightarrow> float64" where
  "cut_to high v = (if high < v then high else v)"

definition ApplyMargin :: "bounds \<Rightarrow> recommender_policy \<Rightarrow> float64 \<Rightarrow> bounds" where
  "ApplyMargin b p observedMemoryPeak =
     (let factor = margin_factor (SafetyMarginPercentage p);
          pad = (\<lambda>v. v * factor);
          out = \<lparr>CPULower = pad (CPULower b), CPUTarget = pad (CPUTarget b),
                 CPUUncapped = CPUUncapped b, CPUUpper = pad (CPUUpper b),
                 MemoryLower = pad (MemoryLower b), MemoryTarget = pad (MemoryTarget b),
                 MemoryUncapped = MemoryUncapped b, MemoryUpper = pad (MemoryUpper b)\<rparr>
      in if 0 < observedMemoryPeak
         then (let flr = observedMemoryPeak * factor
               in out\<lparr>MemoryTarget := raise_to flr (MemoryTarget out),
                      MemoryLower := raise_to flr (MemoryLower out),
                      MemoryUpper := raise_to flr (MemoryUpper out)\<rparr>)
         else out)"

section \<open>Clamping to the resource policy\<close>

definition clamp_one :: "'q quantity_ops \<Rightarrow> 'q pod_level_policy \<Rightarrow> bounds \<Rightarrow> bounds" where
  "clamp_one q p b =
     (if plp_ResourceName p = ResourceMemory then
        (let b1 = (case plp_MinAllowed p of
                     None \<Rightarrow> b
                   | Some limq \<Rightarrow>
                       (let v = f64_of_int (q_value q limq)
                        in b\<lparr>MemoryTarget := raise_to v (MemoryTarget b),
                             MemoryLower := raise_to v (MemoryLower b)\<rparr>))
         in case plp_MaxAllowed p of
              None \<Rightarrow> b1
            | Some limq \<Rightarrow>
                (let v = f64_of_int (q_value q limq)
                 in b1\<lparr>MemoryUpper := cut_to v (MemoryUpper b1),
                       MemoryTarget := cut_to v (MemoryTarget b1)\<rparr>))
      else if plp_ResourceName p = ResourceCPU then
        (let b1 = (case plp_MinAllowed p of
                     None \<Rightarrow> b
                   | Some limq \<Rightarrow>
                       (let v = f64_of_int (q_milli q limq) / Fin 1000
                        in b\<lparr>CPUTarget := raise_to v (CPUTarget b),
                             CPULower := raise_to v (CPULower b)\<rparr>))
         in case plp_MaxAllowed p of
              None \<Rightarrow> b1
            | Some limq \<Rightarrow>
                (let v = f64_of_int (q_milli q limq) / Fin 1000
                 in b1\<lparr>CPUUpper := cut_to v (CPUUpper b1),
                       CPUTarget := cut_to v (CPUTarget b1)\<rparr>))
      else b)"

definition clampToPolicy :: "'q quantity_ops \<Rightarrow> bounds \<Rightarrow> 'q resource_policy \<Rightarrow> bounds" where
  "clampToPolicy q b policy = fold (clamp_one q) (PodLevelPolicies policy) b"

section \<open>The recommendation\<close>

fun maxObservedMemoryPeak_loop :: "'q quantity_ops \<Rightarrow> float64 \<Rightarrow> 'q prr list \<Rightarrow> float64" where
  "maxObservedMemoryPeak_loop q peak [] = peak"
| "maxObservedMemoryPeak_loop q peak (p # ps) =
     maxObservedMemoryPeak_loop q
       (case ObservedPeak (prr_Status p) of
          None \<Rightarrow> peak
        | Some op \<Rightarrow>
            (case op_PodLevel op of
               None \<Rightarrow> peak
             | Some pl \<Rightarrow>
                 if opp_Memory pl = [] then peak
                 else (case q_parse q (opp_Memory pl) of
                         None \<Rightarrow> peak
                       | Some x \<Rightarrow>
                           (let v = f64_of_int (q_value q x) in if peak < v then v else peak)))) ps"

definition maxObservedMemoryPeak :: "'q quantity_ops \<Rightarrow> 'q prr list \<Rightarrow> float64" where
  "maxObservedMemoryPeak q prrs = maxObservedMemoryPeak_loop q 0 prrs"

text \<open>
  The set \<open>seen\<close> and the slice \<open>out\<close> always hold the same names, so one list is both.
\<close>

fun unique_loop :: "string list \<Rightarrow> string list \<Rightarrow> string list" where
  "unique_loop out [] = out"
| "unique_loop out (n # ns) = unique_loop (if n \<in> set out then out else out @ [n]) ns"

fun unique_prrs_loop :: "string list \<Rightarrow> 'q prr list \<Rightarrow> string list" where
  "unique_prrs_loop out [] = out"
| "unique_prrs_loop out (p # ps) =
     unique_prrs_loop
       (unique_loop out (map cr_ContainerName (ContainerRecommendations (prr_Status p)))) ps"

definition uniqueContainerNames :: "'q prr list \<Rightarrow> string list" where
  "uniqueContainerNames prrs = unique_prrs_loop [] prrs"

definition resourceList :: "go_math \<Rightarrow> 'q quantity_ops \<Rightarrow> float64 \<Rightarrow> float64 \<Rightarrow> 'q resource_list" where
  "resourceList m q cpuCores memBytes =
     (let cpu = (if cpuCores < 0 then 0 else cpuCores);
          mem = (if memBytes < 0 then 0 else memBytes);
          cpuMilli = f64_to_int m (math_ceil (cpu * Fin 1000));
          memInt = f64_to_int m (math_ceil mem)
      in [ResourceCPU \<mapsto> q_new_milli q cpuMilli, ResourceMemory \<mapsto> q_new q memInt])"

definition podLevelList :: "go_math \<Rightarrow> 'q quantity_ops \<Rightarrow> bounds \<Rightarrow> 'q resource_list" where
  "podLevelList m q b = resourceList m q (CPUTarget b) (MemoryTarget b)"

definition container_rec ::
  "go_math \<Rightarrow> 'q quantity_ops \<Rightarrow> bounds \<Rightarrow> string \<Rightarrow> 'q container_recommendation" where
  "container_rec m q b name =
     \<lparr>cr_ContainerName = name,
      cr_LowerBound = resourceList m q (CPULower b) (MemoryLower b),
      cr_Target = resourceList m q (CPUTarget b) (MemoryTarget b),
      cr_UncappedTarget = resourceList m q (CPUUncapped b) (MemoryUncapped b),
      cr_UpperBound = resourceList m q (CPUUpper b) (MemoryUpper b)\<rparr>"

definition final_bounds ::
  "go_math \<Rightarrow> 'q quantity_ops \<Rightarrow> workload_histograms \<Rightarrow> 'q prr list \<Rightarrow> 'q ppvpa_spec \<Rightarrow> duration \<Rightarrow> bounds" where
  "final_bounds m q wh prrs spec workloadAge =
     (let b = ComputeBounds m wh (RecommenderPolicy spec);
          b = ApplyConfidence b (ConfidenceMultipliers m workloadAge);
          b = ApplyMargin b (RecommenderPolicy spec) (maxObservedMemoryPeak q prrs)
      in clampToPolicy q b (ResourcePolicy spec))"

definition Recommend ::
  "go_math \<Rightarrow> checkpoint codec \<Rightarrow> 'q quantity_ops \<Rightarrow> 'q prr list \<Rightarrow> 'q ppvpa_spec \<Rightarrow> duration \<Rightarrow>
   (go_error + 'q recommendation) go" where
  "Recommend m c q prrs spec workloadAge =
     go_bind (Aggregate m c prrs) (\<lambda>r.
       case r of
         Inl e \<Rightarrow> Ret (Inl e)
       | Inr wh \<Rightarrow>
           (let b = final_bounds m q wh prrs spec workloadAge
            in Ret (Inr
                 \<lparr>rec_PodLevelTarget = podLevelList m q b,
                  rec_PodLevel =
                    \<lparr>pl_LowerBound = resourceList m q (CPULower b) (MemoryLower b),
                     pl_Target = resourceList m q (CPUTarget b) (MemoryTarget b),
                     pl_UncappedTarget = resourceList m q (CPUUncapped b) (MemoryUncapped b),
                     pl_UpperBound = resourceList m q (CPUUpper b) (MemoryUpper b)\<rparr>,
                  rec_ContainerRecommendations =
                    map (container_rec m q b) (uniqueContainerNames prrs)\<rparr>)))"

section \<open>The workload checkpoint\<close>

record workload_checkpoint =
  wc_CPU :: string
  wc_Memory :: string
  wc_Time :: int64

definition EncodeWorkload ::
  "checkpoint codec \<Rightarrow> workload_checkpoint codec \<Rightarrow> workload_histograms \<Rightarrow> time \<Rightarrow> go_error + string" where
  "EncodeWorkload c cw wh now =
     (case Encode c (wh_CPU wh) of
        Inl e \<Rightarrow> Inl (Wrap ''encode cpu'' e)
      | Inr cpu \<Rightarrow>
          (case Encode c (wh_Memory wh) of
             Inl e \<Rightarrow> Inl (Wrap ''encode memory'' e)
           | Inr mem \<Rightarrow>
               (case gob_encode cw \<lparr>wc_CPU = cpu, wc_Memory = mem, wc_Time = UnixNano now\<rparr> of
                  Inl e \<Rightarrow> Inl e
                | Inr b \<Rightarrow> Inr (base64_encode cw b))))"

definition DecodeWorkload ::
  "go_math \<Rightarrow> checkpoint codec \<Rightarrow> workload_checkpoint codec \<Rightarrow> string \<Rightarrow>
   (go_error + workload_histograms) go" where
  "DecodeWorkload m c cw s =
     (case base64_decode cw s of
        Inl e \<Rightarrow> Ret (Inl e)
      | Inr raw \<Rightarrow>
          (case gob_decode cw raw of
             Inl e \<Rightarrow> Ret (Inl e)
           | Inr cp \<Rightarrow>
               go_bind (Decode m c (wc_CPU cp)) (\<lambda>r.
                 case r of
                   Inl e \<Rightarrow> Ret (Inl (Wrap ''decode cpu'' e))
                 | Inr cpu \<Rightarrow>
                     go_bind (Decode m c (wc_Memory cp)) (\<lambda>r.
                       case r of
                         Inl e \<Rightarrow> Ret (Inl (Wrap ''decode memory'' e))
                       | Inr mem \<Rightarrow> Ret (Inr \<lparr>wh_CPU = cpu, wh_Memory = mem\<rparr>)))))"

section \<open>Aggregation keeps the histograms well formed\<close>

definition wf_workload :: "go_math \<Rightarrow> workload_histograms \<Rightarrow> bool" where
  "wf_workload m wh \<longleftrightarrow>
     wf_hist m (wh_CPU wh) \<and> opts (wh_CPU wh) = DefaultCPUOptions \<and>
     wf_hist m (wh_Memory wh) \<and> opts (wh_Memory wh) = DefaultMemoryOptions"

text \<open>Whether an entry of the list reaches one of the two aggregates at all.\<close>

definition contributes :: "go_math \<Rightarrow> checkpoint codec \<Rightarrow> string \<Rightarrow> bool" where
  "contributes m c ck \<longleftrightarrow>
     ck \<noteq> [] \<and>
     (case Decode m c ck of
        Panic \<Rightarrow> True
      | Ret (Inl _) \<Rightarrow> False
      | Ret (Inr h) \<Rightarrow>
          (if Fin (2 ^ 30) \<le> MaxValue (opts h) then opts_eq DefaultMemoryOptions (opts h)
           else opts_eq DefaultCPUOptions (opts h)))"

lemma aggregate_step_wf [wf_preserve]:
  assumes "wf_workload m wh" "ck \<noteq> [] \<longrightarrow> Decode m c ck \<noteq> Panic"
  shows "\<exists>wh'. aggregate_step m c wh ck = Ret wh' \<and> wf_workload m wh'"
proof (cases "ck \<noteq> [] \<and> (\<exists>h. Decode m c ck = Ret (Inr h))")
  case True
  then obtain h where h: "ck \<noteq> []" "Decode m c ck = Ret (Inr h)" by blast
  then show ?thesis
    using Merge_returns [of m "wh_Memory wh" h] Merge_returns [of m "wh_CPU wh" h] assms(1) Decode_wf [OF h(2)]
    by (auto simp: aggregate_step_def wf_workload_def)
next
  case False
  then show ?thesis using assms
    by (cases "Decode m c ck") (auto simp: aggregate_step_def split: sum.splits)
qed

lemma aggregate_step_skip:
  assumes "wf_workload m wh" "\<not> contributes m c ck"
  shows "aggregate_step m c wh ck = Ret wh"
proof (cases "\<exists>h. ck \<noteq> [] \<and> Decode m c ck = Ret (Inr h)")
  case True
  then obtain h where h: "ck \<noteq> []" "Decode m c ck = Ret (Inr h)" by blast
  then have "\<not> opts_eq (if Fin (2 ^ 30) \<le> MaxValue (opts h) then DefaultMemoryOptions
      else DefaultCPUOptions) (opts h)"
    using assms(2) by (simp add: contributes_def split: if_splits)
  then show ?thesis using h assms(1)
    by (simp add: aggregate_step_def Merge_def wf_workload_def split: if_splits)
next
  case False
  then have "ck = [] \<or> (\<exists>e. Decode m c ck = Ret (Inl e))"
  proof (cases "Decode m c ck")
    case (Ret r)
    then show ?thesis using False by (cases r) auto
  qed (use assms(2) in \<open>simp add: contributes_def\<close>)
  then show ?thesis by (auto simp: aggregate_step_def)
qed

lemma aggregate_loop_wf:
  assumes "wf_workload m wh"
    and "\<forall>p \<in> set ps. HistogramCheckpoint (prr_Status p) \<noteq> [] \<longrightarrow>
           Decode m c (HistogramCheckpoint (prr_Status p)) \<noteq> Panic"
  shows "\<exists>wh'. aggregate_loop m c wh ps = Ret wh' \<and> wf_workload m wh'"
  using assms
proof (induction ps arbitrary: wh)
  case (Cons p ps)
  obtain wh1 where "aggregate_step m c wh (HistogramCheckpoint (prr_Status p)) = Ret wh1" "wf_workload m wh1"
    using aggregate_step_wf [OF Cons.prems(1)] Cons.prems(2) by (metis list.set_intros(1))
  then show ?case using Cons by simp
qed simp

text \<open>
  The invariant survives a step whatever the checkpoint says, so the loop can be compared
  with the loop over the contributing entries only.
\<close>

lemma aggregate_loop_filter:
  assumes "wf_workload m wh"
  shows "aggregate_loop m c wh ps =
    aggregate_loop m c wh (filter (\<lambda>p. contributes m c (HistogramCheckpoint (prr_Status p))) ps)"
  using assms
proof (induction ps arbitrary: wh)
  case (Cons p ps)
  let ?ck = "HistogramCheckpoint (prr_Status p)"
  show ?case
  proof (cases "contributes m c ?ck")
    case True
    show ?thesis
    proof (cases "Decode m c ?ck = Panic")
      case True
      then show ?thesis using \<open>contributes m c ?ck\<close> by (simp add: aggregate_step_def contributes_def)
    next
      case False
      then obtain wh1 where "aggregate_step m c wh ?ck = Ret wh1" "wf_workload m wh1"
        using aggregate_step_wf Cons.prems by blast
      then show ?thesis using True Cons.IH by simp
    qed
  next
    case False
    then show ?thesis using Cons by (simp add: aggregate_step_skip)
  qed
qed simp

lemma NewWorkloadHistograms_wf:
  assumes "numBuckets m DefaultCPUOptions \<le> max_slice_len" "numBuckets m DefaultMemoryOptions \<le> max_slice_len"
  shows "\<exists>wh. NewWorkloadHistograms m = Ret (Inr wh) \<and> wf_workload m wh"
proof -
  obtain h g where "New m DefaultCPUOptions = Ret (Inr h)" "New m DefaultMemoryOptions = Ret (Inr g)"
    using assms Validate_defaults New_cases by blast
  then show ?thesis using New_wf by (simp add: NewWorkloadHistograms_def wf_workload_def)
qed

lemma NewWorkloadHistograms_cases:
  assumes "NewWorkloadHistograms m = Ret (Inr wh)"
  shows "wf_workload m wh"
proof -
  obtain h g where "New m DefaultCPUOptions = Ret (Inr h)" "New m DefaultMemoryOptions = Ret (Inr g)"
    "wh = \<lparr>wh_CPU = h, wh_Memory = g\<rparr>"
    using assms by (auto simp: NewWorkloadHistograms_def elim!: go_bind_RetE split: sum.split_asm)
  then show ?thesis using New_wf by (simp add: wf_workload_def)
qed

section \<open>Order of the bounds\<close>

definition pow_conf_law :: "go_math \<Rightarrow> bool" where
  "pow_conf_law m \<longleftrightarrow>
     (\<forall>x. m_pow m x (Fin 1) = x) \<and>
     (\<forall>x. 1 \<le> x \<longrightarrow> (\<exists>l. m_pow m (Fin x) (Fin (- 1 / 2)) = Fin l \<and> 0 < l \<and> l \<le> 1))"

definition bounds_ordered :: "bounds \<Rightarrow> bool" where
  "bounds_ordered b \<longleftrightarrow>
     Fin 0 \<le> CPULower b \<and> CPULower b \<le> CPUTarget b \<and> CPUTarget b \<le> CPUUpper b \<and>
     Fin 0 \<le> MemoryLower b \<and> MemoryLower b \<le> MemoryTarget b \<and> MemoryTarget b \<le> MemoryUpper b"

lemma ComputeBounds_ordered:
  assumes "wf_hist m (wh_CPU wh)" "edges_ok m (wh_CPU wh)" "weight_ok (totalWeight (wh_CPU wh))"
    and "wf_hist m (wh_Memory wh)" "edges_ok m (wh_Memory wh)" "weight_ok (totalWeight (wh_Memory wh))"
    and "parsePercentile (LowerBoundPercentile p) (Fin 50) \<le> parsePercentile (TargetPercentile p) (Fin 90)"
    and "parsePercentile (TargetPercentile p) (Fin 90) \<le> parsePercentile (UpperBoundPercentile p) (Fin 95)"
  shows "bounds_ordered (ComputeBounds m wh p)"
  using assms
  by (simp add: bounds_ordered_def ComputeBounds_def Let_def Percentile_mono_aux Percentile_range_aux)

text \<open>The number of days is finite and at least a minute, so \<open>1 + 1/t\<close> lies between 1 and 1441.\<close>

definition conf_base :: "duration \<Rightarrow> float64" where
  "conf_base d =
     (let h = Hours d; h' = (if h < rnd (1 / 60) then rnd (1 / 60) else h)
      in Fin 1 + Fin 1 / (h' / Fin 24))"

lemma ConfidenceMultipliers_base:
  "ConfidenceMultipliers m d =
     \<lparr>LowerMultiplier = m_pow m (conf_base d) (Fin (- 1 / 2)),
      UpperMultiplier = m_pow m (conf_base d) (Fin 1)\<rparr>"
  by (simp add: ConfidenceMultipliers_def conf_base_def Let_def)

lemma f64_recip_antimono:
  assumes "Fin 0 < x" "x \<le> y" "is_fin y"
  shows "Fin 1 / y \<le> Fin 1 / x"
proof -
  obtain a b where ab: "x = Fin a" "y = Fin b" "0 < a" "a \<le> b"
    using assms by (cases x; cases y) auto
  have "1 / b \<le> 1 / a" using ab by (simp add: frac_le)
  then show ?thesis using ab by (auto simp: f64 intro: rnd_mono)
qed

lemma conf_days:
  assumes "0 \<le> d" "d < 2 ^ 63"
  obtains a where "(if Hours d < rnd (1 / 60) then rnd (1 / 60) else Hours d) = Fin a"
    "Fin a / Fin 24 = rnd (a / 24)" "rnd (1 / 60) \<le> Fin a" "is_fin (rnd (a / 24))"
    "Fin 0 < rnd (a / 24)"
proof -
  have "Fin 0 < rnd (1 / 60) / Fin 24" by code_simp
  moreover obtain z where "rnd (1 / 60) = Fin z" using rnd_between [of "1 / 60" 1] by auto
  ultimately have one: "is_fin (rnd (1 / 60))" "repr (rnd (1 / 60))" "Fin 0 < rnd (1 / 60) / Fin 24"
    "Fin 0 \<le> rnd (1 / 60)" using rnd_nonneg [of "1 / 60"] repr_rnd [of "1 / 60"] by simp_all
  have h: "Fin 0 \<le> Hours d" "is_fin (Hours d)" using Hours_nonneg [OF assms] by simp_all
  let ?h = "if Hours d < rnd (1 / 60) then rnd (1 / 60) else Hours d"
  have "repr ?h" "Fin 0 \<le> ?h" "is_fin ?h" using h one by (simp_all add: Hours_def)
  then obtain a where a: "?h = Fin a" "0 \<le> a" "repr (Fin a)"
    by (cases ?h) (simp_all only: f64_le_Fin, auto)
  have "Hours d \<noteq> NaN" using h by auto
  then have min: "rnd (1 / 60) \<le> Fin a" 
    using one(4) f64_not_less [of "Hours d" "rnd (1 / 60)"] f64_le_refl unfolding a(1) [symmetric]
    by (auto split: if_splits)
  have e: "Fin a / Fin 24 = rnd (a / 24)" by (simp add: f64)
  have "is_fin (rnd (a / 24))"
    using rnd_between [of "a / 24" a] a by auto
  moreover have "Fin 0 < rnd (a / 24)"
    using f64_less_le_trans [OF one(3)] f64_div_mono [OF min, of 24] e by simp
  ultimately show thesis using that a e min by blast
qed

lemma conf_base_antimono:
  assumes "0 \<le> d" "d \<le> d'" "d' < 2 ^ 63"
  shows "conf_base d' \<le> conf_base d"
proof -
  obtain a where a: "(if Hours d < rnd (1 / 60) then rnd (1 / 60) else Hours d) = Fin a"
    "Fin a / Fin 24 = rnd (a / 24)" "is_fin (rnd (a / 24))" "Fin 0 < rnd (a / 24)" "rnd (1 / 60) \<le> Fin a"
    by (rule conf_days [of d]) (use assms in auto)
  obtain b where b: "(if Hours d' < rnd (1 / 60) then rnd (1 / 60) else Hours d') = Fin b"
    "Fin b / Fin 24 = rnd (b / 24)" "is_fin (rnd (b / 24))" "Fin 0 < rnd (b / 24)" "rnd (1 / 60) \<le> Fin b"
    by (rule conf_days [of d']) (use assms in auto)
  have "Hours d \<le> Hours d'" using assms by (rule Hours_mono)
  then have "Fin a \<le> Fin b"
    using a(1,5) b(1,5) by (auto split: if_splits dest: f64_le_less_trans)
  then have "rnd (a / 24) \<le> rnd (b / 24)" by (intro rnd_mono) simp
  then have "Fin 1 / rnd (b / 24) \<le> Fin 1 / rnd (a / 24)" using a b by (intro f64_recip_antimono)
  moreover have "Fin 0 \<le> Fin 1 / rnd (b / 24)"
    using b by (cases "rnd (b / 24)") (auto simp: f64 intro!: rnd_nonneg)
  ultimately show ?thesis by (simp add: conf_base_def a b Let_def f64_add_mono)
qed

lemma conf_base_range:
  assumes "0 \<le> d" "d < 2 ^ 63"
  obtains x where "conf_base d = Fin x" "1 \<le> x" "x \<le> 1441"
proof -
  obtain a where a: "(if Hours d < rnd (1 / 60) then rnd (1 / 60) else Hours d) = Fin a"
    "Fin a / Fin 24 = rnd (a / 24)" "is_fin (rnd (a / 24))" "Fin 0 < rnd (a / 24)"
    using conf_days [OF assms] by metis
  have "Fin 0 \<le> Fin 1 / rnd (a / 24)"
    using a by (cases "rnd (a / 24)") (auto simp: f64 intro!: rnd_nonneg)
  then have "Fin 1 \<le> conf_base d" by (simp add: conf_base_def a Let_def f64_le_add)
  moreover have "conf_base 0 \<le> Fin 1441" by code_simp
  then have "conf_base d \<le> Fin 1441"
    using conf_base_antimono [of 0 d] assms f64_le_trans by blast
  ultimately show thesis using that by (cases "conf_base d") auto
qed

text \<open>Widening and padding keep an ordered triple ordered.\<close>

lemma widen_ordered:
  assumes "Fin 0 \<le> l" "l \<le> t" "t \<le> u" "repr l" "repr u" "0 < a" "a \<le> 1" "1 \<le> c"
  shows "Fin 0 \<le> l * Fin a \<and> l * Fin a \<le> t \<and> t \<le> u * Fin c"
proof -
  have "l * Fin a \<le> l"
    using assms f64_scale_down by (auto elim!: f64_nonneg_cases simp: f64 f64_ops inf_sgn_def)
  moreover have "Fin 0 \<le> l * Fin a" using assms by (intro f64_mult_pos_nonneg)
  moreover have "u \<le> u * Fin c" using assms by (meson f64_le_trans f64_scale_up)
  ultimately show ?thesis using assms f64_le_trans by blast
qed

lemma pad_ordered:
  assumes "Fin 0 \<le> l" "l \<le> t" "t \<le> u" "0 < c"
  shows "Fin 0 \<le> l * Fin c \<and> l * Fin c \<le> t * Fin c \<and> t * Fin c \<le> u * Fin c"
proof -
  have "Fin 0 \<le> l * Fin c" using assms by (intro f64_mult_pos_nonneg)
  then show ?thesis using assms by (meson f64_le_trans f64_mult_mono_pos)
qed

lemma raise_to_mono: "x \<le> y \<Longrightarrow> l \<noteq> NaN \<Longrightarrow> raise_to l x \<le> raise_to l y"
  by (cases l; cases x; cases y) (auto simp: raise_to_def)

lemma raise_to_ge: "x \<noteq> NaN \<Longrightarrow> l \<noteq> NaN \<Longrightarrow> l \<le> raise_to l x \<and> x \<le> raise_to l x"
  by (cases l; cases x) (auto simp: raise_to_def f64_ord)

lemma margin_factor_fin:
  assumes "is_int32 n"
  obtains c where "margin_factor n = Fin c" "1 \<le> c"
proof -
  have n: "\<bar>n\<bar> \<le> 2 ^ 53" using assms by (auto simp: in_width_def)
  define k where "k = max n 0"
  have k: "0 \<le> k" "k \<le> 2 ^ 31" using assms by (simp_all add: k_def in_width_def)
  have e: "margin_factor n = Fin 1 + Fin (of_int k) / Fin 100"
    using n by (simp add: margin_factor_def f64_of_int_exact f64_consts k_def Let_def max_def)
  obtain z where z: "rnd (of_int k / 100) = Fin z" "0 \<le> z" "z \<le> of_int (2 ^ 31)"
    using rnd_between [of "of_int k / 100" "of_int (2 ^ 31)"] rnd_int [of "2 ^ 31"] k by auto
  obtain c where "rnd (1 + z) = Fin c"
    using rnd_between [of "1 + z" "of_int (2 ^ 32)"] rnd_int [of "2 ^ 32"] z by auto
  moreover from this have "1 \<le> c" using rnd_mono [of 1 "1 + z"] z by simp
  ultimately show thesis using that e z by (simp add: f64)
qed

lemma ApplyConfidence_ordered:
  assumes "bounds_ordered b" "repr (CPULower b)" "repr (CPUUpper b)" "repr (MemoryLower b)" "repr (MemoryUpper b)"
    and "LowerMultiplier c = Fin a" "0 < a" "a \<le> 1" "UpperMultiplier c = Fin e" "1 \<le> e"
  shows "bounds_ordered (ApplyConfidence b c)"
  using assms widen_ordered [of "CPULower b" "CPUTarget b" "CPUUpper b" a e]
    widen_ordered [of "MemoryLower b" "MemoryTarget b" "MemoryUpper b" a e]
  by (simp add: bounds_ordered_def ApplyConfidence_def)

lemma ApplyMargin_ordered:
  assumes "bounds_ordered b" "is_int32 (SafetyMarginPercentage p)" "Fin 0 \<le> peak"
  shows "bounds_ordered (ApplyMargin b p peak)"
proof -
  obtain c where c: "margin_factor (SafetyMarginPercentage p) = Fin c" "1 \<le> c"
    using margin_factor_fin [OF assms(2)] by blast
  have "Fin 0 \<le> peak * Fin c" using assms(3) c by (intro f64_mult_pos_nonneg) simp_all
  then have nan: "peak * Fin c \<noteq> NaN" by auto
  note cpu = pad_ordered [of "CPULower b" "CPUTarget b" "CPUUpper b" c]
  note mem = pad_ordered [of "MemoryLower b" "MemoryTarget b" "MemoryUpper b" c]
  have low: "Fin 0 \<le> MemoryLower b * Fin c" using mem assms(1) c(2) by (simp add: bounds_ordered_def)
  then have "MemoryLower b * Fin c \<le> raise_to (peak * Fin c) (MemoryLower b * Fin c)"
    using raise_to_ge [OF _ nan] by (metis f64_le_imp_num)
  then have "Fin 0 \<le> raise_to (peak * Fin c) (MemoryLower b * Fin c)"
    using low by (rule f64_le_trans [rotated])
  then show ?thesis
    using assms(1) c cpu mem nan
    by (simp add: bounds_ordered_def ApplyMargin_def Let_def raise_to_mono)
qed

section \<open>Clamping\<close>

text \<open>The limits a policy imposes on one resource, in the unit of the bounds.\<close>

definition limit_of :: "'q quantity_ops \<Rightarrow> string \<Rightarrow> 'q \<Rightarrow> float64" where
  "limit_of q r x =
     (if r = ResourceMemory then f64_of_int (q_value q x) else f64_of_int (q_milli q x) / Fin 1000)"

definition min_limit :: "'q quantity_ops \<Rightarrow> string \<Rightarrow> 'q pod_level_policy \<Rightarrow> float64 option" where
  "min_limit q r p = (if plp_ResourceName p = r then map_option (limit_of q r) (plp_MinAllowed p) else None)"

definition max_limit :: "'q quantity_ops \<Rightarrow> string \<Rightarrow> 'q pod_level_policy \<Rightarrow> float64 option" where
  "max_limit q r p = (if plp_ResourceName p = r then map_option (limit_of q r) (plp_MaxAllowed p) else None)"

definition clamp_value :: "float64 option \<Rightarrow> float64 option \<Rightarrow> float64 \<Rightarrow> float64" where
  "clamp_value lo hi v =
     (let w = (case lo of None \<Rightarrow> v | Some l \<Rightarrow> raise_to l v)
      in case hi of None \<Rightarrow> w | Some h \<Rightarrow> cut_to h w)"

definition in_limits :: "float64 option \<Rightarrow> float64 option \<Rightarrow> float64 \<Rightarrow> bool" where
  "in_limits lo hi v \<longleftrightarrow>
     (\<forall>l. lo = Some l \<longrightarrow> l \<le> v) \<and> (\<forall>h. hi = Some h \<longrightarrow> v \<le> h)"

lemma clamp_one_MemoryTarget:
  "MemoryTarget (clamp_one q p b) =
     clamp_value (min_limit q ResourceMemory p) (max_limit q ResourceMemory p) (MemoryTarget b)"
  by (auto simp: clamp_one_def clamp_value_def min_limit_def max_limit_def limit_of_def Let_def
      split: option.splits)

lemma clamp_one_CPUTarget:
  "CPUTarget (clamp_one q p b) =
     clamp_value (min_limit q ResourceCPU p) (max_limit q ResourceCPU p) (CPUTarget b)"
  by (auto simp: clamp_one_def clamp_value_def min_limit_def max_limit_def limit_of_def Let_def
      split: option.splits)

lemma limit_of_not_NaN: "limit_of q r x \<noteq> NaN"
proof -
  have "y / Fin 1000 \<noteq> NaN" if "y \<noteq> NaN" for y
    using that by (cases y) (simp_all add: f64_ops)
  then show ?thesis by (simp add: limit_of_def f64_of_int_def)
qed

lemma limit_not_NaN: "min_limit q r p \<noteq> Some NaN" "max_limit q r p \<noteq> Some NaN"
  by (auto simp: min_limit_def max_limit_def limit_of_not_NaN split: if_splits)

lemma raise_to_bounds:
  "x \<noteq> NaN \<Longrightarrow> l \<noteq> NaN \<Longrightarrow> raise_to l x \<noteq> NaN"
  "x \<le> h \<Longrightarrow> l \<le> h \<Longrightarrow> raise_to l x \<le> h"
  "k \<le> x \<Longrightarrow> k \<le> raise_to l x"
  by (auto simp: raise_to_def intro: f64_le_trans f64_less_imp_le)

lemma cut_to_bounds:
  "x \<noteq> NaN \<Longrightarrow> h \<noteq> NaN \<Longrightarrow> cut_to h x \<noteq> NaN"
  "x \<noteq> NaN \<Longrightarrow> h \<noteq> NaN \<Longrightarrow> cut_to h x \<le> h"
  "l \<le> x \<Longrightarrow> l \<le> h \<Longrightarrow> l \<le> cut_to h x"
  "x \<le> k \<Longrightarrow> cut_to h x \<le> k"
  by (auto simp: cut_to_def f64_not_less f64_le_refl intro: f64_le_trans f64_less_imp_le)

lemma clamp_value_within:
  assumes "v \<noteq> NaN" "\<And>l. lo = Some l \<Longrightarrow> l \<noteq> NaN" "\<And>h. hi = Some h \<Longrightarrow> h \<noteq> NaN"
    and "\<And>l h. lo = Some l \<Longrightarrow> hi = Some h \<Longrightarrow> l \<le> h"
  shows "in_limits lo hi (clamp_value lo hi v) \<and> clamp_value lo hi v \<noteq> NaN"
  using assms raise_to_ge
  by (cases lo; cases hi) (simp_all add: in_limits_def clamp_value_def raise_to_bounds cut_to_bounds)

text \<open>A value inside one range stays there when a second, overlapping range is imposed.\<close>

lemma clamp_value_keeps:
  assumes "in_limits lo hi v"
    and "\<And>l h. lo = Some l \<Longrightarrow> hi' = Some h \<Longrightarrow> l \<le> h"
    and "\<And>l h. lo' = Some l \<Longrightarrow> hi = Some h \<Longrightarrow> l \<le> h"
  shows "in_limits lo hi (clamp_value lo' hi' v)"
  using assms
  by (cases lo'; cases hi') (simp_all add: in_limits_def clamp_value_def raise_to_bounds cut_to_bounds)

definition limits_agree :: "'q quantity_ops \<Rightarrow> string \<Rightarrow> 'q pod_level_policy list \<Rightarrow> bool" where
  "limits_agree q r ps \<longleftrightarrow>
     (\<forall>p \<in> set ps. \<forall>p' \<in> set ps. case (min_limit q r p, max_limit q r p') of
        (Some l, Some h) \<Rightarrow> l \<le> h | _ \<Rightarrow> True)"

lemma limits_agreeD:
  "limits_agree q r ps \<Longrightarrow> p \<in> set ps \<Longrightarrow> p' \<in> set ps \<Longrightarrow>
   min_limit q r p = Some l \<Longrightarrow> max_limit q r p' = Some h \<Longrightarrow> l \<le> h"
  by (force simp: limits_agree_def)

lemma fold_clamp_within:
  assumes "\<And>b p. get (f p b) = clamp_value (min_limit q r p) (max_limit q r p) (get b)"
    and "limits_agree q r (pre @ ps)" "get b \<noteq> NaN"
    and "\<forall>p \<in> set pre. in_limits (min_limit q r p) (max_limit q r p) (get b)"
  shows "\<forall>p \<in> set (pre @ ps). in_limits (min_limit q r p) (max_limit q r p) (get (fold f ps b))"
  using assms(2-)
proof (induction ps arbitrary: pre b)
  case (Cons p ps)
  let ?v = "get (f p b)"
  have "l \<noteq> NaN" if "min_limit q r p = Some l \<or> max_limit q r p = Some l" for l
    using that limit_not_NaN [of q r p] by auto
  then have "in_limits (min_limit q r p) (max_limit q r p) ?v \<and> ?v \<noteq> NaN"
    unfolding assms(1) using limits_agreeD [OF Cons.prems(1), of p p] Cons.prems(2)
    by (intro clamp_value_within) simp_all
  moreover have "\<forall>p' \<in> set pre. in_limits (min_limit q r p') (max_limit q r p') ?v"
    unfolding assms(1) using limits_agreeD [OF Cons.prems(1)] Cons.prems(3)
    by (auto intro!: clamp_value_keeps)
  ultimately show ?case using Cons.IH [of "pre @ [p]" "f p b"] Cons.prems(1) by auto
qed simp

section \<open>Peaks, names and quantities\<close>

text \<open>The peak a recommendation object reports, when it reports a readable one.\<close>

definition peak_of :: "'q quantity_ops \<Rightarrow> 'q prr \<Rightarrow> float64 option" where
  "peak_of q p =
     (case Option.bind (ObservedPeak (prr_Status p)) op_PodLevel of
        None \<Rightarrow> None
      | Some pl \<Rightarrow>
          if opp_Memory pl = [] then None
          else map_option (\<lambda>x. f64_of_int (q_value q x)) (q_parse q (opp_Memory pl)))"

lemma peak_loop_Cons:
  "maxObservedMemoryPeak_loop q peak (p # ps) =
     maxObservedMemoryPeak_loop q (case peak_of q p of None \<Rightarrow> peak | Some v \<Rightarrow> raise_to v peak) ps"
  by (auto simp: peak_of_def raise_to_def Let_def split: option.split)

declare maxObservedMemoryPeak_loop.simps(2) [simp del]
declare peak_loop_Cons [simp]

lemma peak_of_not_NaN: "peak_of q p \<noteq> Some NaN"
  by (auto simp: peak_of_def f64_of_int_def split: option.splits if_splits)

lemma peak_loop_ge:
  assumes "peak \<noteq> NaN"
  shows "peak \<le> maxObservedMemoryPeak_loop q peak ps \<and>
    (\<forall>p \<in> set ps. \<forall>v. peak_of q p = Some v \<longrightarrow> v \<le> maxObservedMemoryPeak_loop q peak ps)"
  using assms
proof (induction ps arbitrary: peak)
  case Nil
  then show ?case by (simp add: f64_le_refl)
next
  case (Cons p ps)
  let ?peak = "case peak_of q p of None \<Rightarrow> peak | Some v \<Rightarrow> raise_to v peak"
  have nan: "v \<noteq> NaN" if "peak_of q p = Some v" for v using that peak_of_not_NaN [of q p] by auto
  have step: "?peak \<noteq> NaN" "peak \<le> ?peak" "\<forall>v. peak_of q p = Some v \<longrightarrow> v \<le> ?peak"
    using Cons.prems nan raise_to_bounds(1) [OF Cons.prems] raise_to_ge [OF Cons.prems]
    by (auto simp: f64_le_refl split: option.split)
  let ?r = "maxObservedMemoryPeak_loop q ?peak ps"
  have up: "?peak \<le> ?r" "\<forall>p \<in> set ps. \<forall>v. peak_of q p = Some v \<longrightarrow> v \<le> ?r"
    using Cons.IH [OF step(1)] by blast+
  have "peak \<le> ?r" using step(2) up(1) by (rule f64_le_trans)
  moreover have "v \<le> ?r" if "peak_of q p = Some v" for v
    using step(3) that up(1) by (blast intro: f64_le_trans)
  ultimately show ?case using up(2) unfolding peak_loop_Cons set_simps by blast
qed

lemma peak_nonneg: "Fin 0 \<le> maxObservedMemoryPeak q ps"
  using peak_loop_ge [of "Fin 0" q ps] by (simp add: maxObservedMemoryPeak_def f64_consts)

lemma remdups_absorb: "n \<in> set ys \<Longrightarrow> remdups (xs @ n # ys) = remdups (xs @ ys)"
  by (induction xs) auto

lemma unique_loop_remdups:
  "distinct out \<Longrightarrow> unique_loop out ns = rev (remdups (rev (out @ ns)))"
proof (induction ns arbitrary: out)
  case Nil
  then show ?case by (simp add: distinct_remdups_id)
next
  case (Cons n ns)
  then show ?case by (simp add: remdups_absorb)
qed

lemma unique_loop_append: "unique_loop out (xs @ ys) = unique_loop (unique_loop out xs) ys"
  by (induction xs arbitrary: out) simp_all

lemma unique_prrs_loop_concat:
  "unique_prrs_loop out ps =
     unique_loop out (concat (map (\<lambda>p. map cr_ContainerName (ContainerRecommendations (prr_Status p))) ps))"
  by (induction ps arbitrary: out) (simp_all add: unique_loop_append)

lemma f64_to_int_fin: "is_int64 (trunc_rat a) \<Longrightarrow> f64_to_int m (Fin a) = trunc_rat a"
  by (simp add: f64_to_int_def)

end
