(* ===== verification/Kube.thy ===== *)
theory Kube
  imports Api
begin

text \<open>
  The API server as the controllers see it: the built-in objects they read and write, and
  the client's calls as a parameter, a record of functions on the server's state \<open>'w\<close>. Reads
  leave the state alone, writes return the new state and the error, if any.
\<close>

section \<open>Built-in objects\<close>

record 'q container_spec =
  k_name :: string
  k_requests :: "'q resource_list"
  k_limits :: "'q resource_list"

record 'q pod =
  pod_meta :: object_meta
  pod_containers :: "'q container_spec list"
  pod_conditions :: "condition list"

record replica_set =
  rs_meta :: object_meta

record deployment =
  dep_meta :: object_meta
  dep_replicas :: "int32 option"

record eviction =
  ev_namespace :: string
  ev_name :: string

section \<open>The client\<close>

record ('q, 'w) client =
  k_get_ppvpa :: "'w \<Rightarrow> string \<Rightarrow> string \<Rightarrow> go_error + 'q ppvpa"
  k_list_ppvpas :: "'w \<Rightarrow> string \<Rightarrow> go_error + 'q ppvpa list"
  k_update_ppvpa :: "'w \<Rightarrow> 'q ppvpa \<Rightarrow> 'w \<times> (go_error + 'q ppvpa)"
  k_patch_ppvpa :: "'w \<Rightarrow> 'q ppvpa \<Rightarrow> 'q ppvpa \<Rightarrow> 'w \<times> go_error option"
  k_patch_ppvpa_status :: "'w \<Rightarrow> 'q ppvpa \<Rightarrow> 'q ppvpa \<Rightarrow> 'w \<times> go_error option"
  k_get_deployment :: "'w \<Rightarrow> string \<Rightarrow> string \<Rightarrow> go_error + deployment"
  k_patch_deployment :: "'w \<Rightarrow> deployment \<Rightarrow> deployment \<Rightarrow> 'w \<times> go_error option"
  k_get_replicaset :: "'w \<Rightarrow> string \<Rightarrow> string \<Rightarrow> go_error + replica_set"
  k_list_replicasets :: "'w \<Rightarrow> string \<Rightarrow> go_error + replica_set list"
  k_get_pod :: "'w \<Rightarrow> string \<Rightarrow> string \<Rightarrow> go_error + 'q pod"
  k_list_pods :: "'w \<Rightarrow> string \<Rightarrow> go_error + 'q pod list"
  k_evict :: "'w \<Rightarrow> 'q pod \<Rightarrow> eviction \<Rightarrow> 'w \<times> go_error option"
  k_get_prr :: "'w \<Rightarrow> string \<Rightarrow> string \<Rightarrow> go_error + 'q prr"
  k_list_prrs :: "'w \<Rightarrow> string \<Rightarrow> go_error + 'q prr list"
  k_create_prr :: "'w \<Rightarrow> 'q prr \<Rightarrow> 'w \<times> go_error option"
  k_delete_prr :: "'w \<Rightarrow> 'q prr \<Rightarrow> 'w \<times> go_error option"
  k_get_checkpoint :: "'w \<Rightarrow> string \<Rightarrow> string \<Rightarrow> go_error + ppvpa_checkpoint"
  k_create_checkpoint :: "'w \<Rightarrow> ppvpa_checkpoint \<Rightarrow> 'w \<times> go_error option"
  k_patch_checkpoint_status :: "'w \<Rightarrow> ppvpa_checkpoint \<Rightarrow> ppvpa_checkpoint \<Rightarrow> 'w \<times> go_error option"

text \<open>\<open>client.IgnoreNotFound\<close>\<close>

definition IgnoreNotFound :: "go_error \<Rightarrow> go_error option" where
  "IgnoreNotFound e = (if has_reason NotFound e then None else Some e)"

record ctrl_result =
  Requeue :: bool
  RequeueAfter :: duration

definition no_requeue :: ctrl_result where
  "no_requeue = \<lparr>Requeue = False, RequeueAfter = 0\<rparr>"

definition requeue_after :: "duration \<Rightarrow> ctrl_result" where
  "requeue_after d = \<lparr>Requeue = False, RequeueAfter = d\<rparr>"

section \<open>Filtering a slice in place\<close>

text \<open>
  \<open>out := s[:0]; for _, x := range s { if keep { out = append(out, x) } }\<close>: \<open>out\<close> shares the
  array of \<open>s\<close>, so the \<open>append\<close> that makes its length \<open>n + 1\<close> overwrites element \<open>n\<close> of the
  array the loop is still reading. \<open>a\<close> is the shared array, \<open>i\<close> the next index read, \<open>n\<close> the
  length of \<open>out\<close>.
\<close>

function compact_loop :: "('a \<Rightarrow> bool) \<Rightarrow> 'a list \<Rightarrow> nat \<Rightarrow> nat \<Rightarrow> 'a list" where
  "compact_loop keep a i n =
     (if i < length a then
        (if keep (a ! i) then compact_loop keep (a[n := a ! i]) (i + 1) (n + 1)
         else compact_loop keep a (i + 1) n)
      else take n a)"
  by pat_completeness auto
termination by (relation "measure (\<lambda>(_, a, i, _). length a - i)") auto

declare compact_loop.simps [simp del]

definition compact :: "('a \<Rightarrow> bool) \<Rightarrow> 'a list \<Rightarrow> 'a list" where
  "compact keep s = compact_loop keep s 0 0"

lemma compact_loop_filter:
  assumes "n \<le> i" "i \<le> length a"
  shows "compact_loop keep a i n = take n a @ filter keep (drop i a)"
  using assms
proof (induction keep a i n rule: compact_loop.induct)
  case (1 keep a i n)
  show ?case
  proof (cases "i < length a")
    case True
    then have d: "drop i a = a ! i # drop (i + 1) a" by (simp add: Cons_nth_drop_Suc)
    show ?thesis
    proof (cases "keep (a ! i)")
      case k: True
      have "take (n + 1) (a[n := a ! i]) = take n a @ [a ! i]"
        using True 1(3) by (simp add: take_Suc_conv_app_nth)
      then show ?thesis using 1(1) [OF True k] 1(3) True k d by (subst compact_loop.simps) simp
    next
      case False
      then show ?thesis using 1(2) [OF True False] 1(3) True d by (subst compact_loop.simps) simp
    qed
  qed (use 1 in \<open>simp add: compact_loop.simps\<close>)
qed

lemma compact_filter: "compact keep s = filter keep s"
  using compact_loop_filter [of 0 0 s keep] by (simp add: compact_def)

section \<open>Owned objects\<close>

text \<open>
  The loop that keeps the recommendations whose owner references name the given UID; the
  controllers share it.
\<close>

definition owned_prrs :: "string \<Rightarrow> 'q prr list \<Rightarrow> 'q prr list" where
  "owned_prrs uid ps = compact (\<lambda>p. owned_by uid (om_ownerRefs (prr_meta p))) ps"

lemma set_owned_prrs: "set (owned_prrs uid ps) = {p \<in> set ps. owned_by uid (om_ownerRefs (prr_meta p))}"
  by (simp add: owned_prrs_def compact_filter)

text \<open>The owner reference the controllers put on what they create.\<close>

definition ppvpa_owner :: "'q ppvpa \<Rightarrow> owner_ref" where
  "ppvpa_owner v =
     \<lparr>or_apiVersion = GroupVersion_String GroupVersion, or_kind = ''PerPodVerticalPodAutoscaler'',
      or_name = om_name (ppvpa_meta v), or_uid = om_uid (ppvpa_meta v), or_controller = True\<rparr>"

definition child_meta :: "'q ppvpa \<Rightarrow> string \<Rightarrow> object_meta" where
  "child_meta v name =
     \<lparr>om_namespace = om_namespace (ppvpa_meta v), om_name = name, om_uid = [], om_annotations = Map.empty,
      om_ownerRefs = [ppvpa_owner v], om_finalizers = [], om_deletionTimestamp = None,
      om_creationTimestamp = zero_time\<rparr>"

lemma owned_child: "owned_by (om_uid (ppvpa_meta v)) (om_ownerRefs (child_meta v n))"
  by (simp add: child_meta_def ppvpa_owner_def)

section \<open>A concrete API server\<close>

text \<open>
  A server that keeps its objects in lists and accepts every request it can: the instance at
  which the theorems with hypotheses on the client are evaluated.
\<close>

record 'q cluster =
  cl_ppvpas :: "'q ppvpa list"
  cl_prrs :: "'q prr list"
  cl_pods :: "'q pod list"
  cl_deployments :: "deployment list"
  cl_replicasets :: "replica_set list"
  cl_checkpoints :: "ppvpa_checkpoint list"

definition named :: "string \<Rightarrow> string \<Rightarrow> object_meta \<Rightarrow> bool" where
  "named ns n m \<longleftrightarrow> om_namespace m = ns \<and> om_name m = n"

definition get_object :: "('o \<Rightarrow> object_meta) \<Rightarrow> 'o list \<Rightarrow> string \<Rightarrow> string \<Rightarrow> go_error + 'o" where
  "get_object meta xs ns n =
     (case List.find (\<lambda>x. named ns n (meta x)) xs of None \<Rightarrow> Inl (ApiErr NotFound) | Some x \<Rightarrow> Inr x)"

definition list_objects :: "('o \<Rightarrow> object_meta) \<Rightarrow> 'o list \<Rightarrow> string \<Rightarrow> go_error + 'o list" where
  "list_objects meta xs ns = Inr (filter (\<lambda>x. om_namespace (meta x) = ns) xs)"

definition replace_object :: "('o \<Rightarrow> object_meta) \<Rightarrow> 'o \<Rightarrow> 'o list \<Rightarrow> 'o list" where
  "replace_object meta y xs =
     map (\<lambda>x. if named (om_namespace (meta y)) (om_name (meta y)) (meta x) then y else x) xs"

lemma get_replaced:
  assumes "get_object meta xs ns n = Inr x" "meta y = meta x"
  shows "get_object meta (replace_object meta y xs) ns n = Inr y"
  using assms
  by (induction xs) (auto simp: get_object_def replace_object_def named_def split: if_split_asm option.split_asm)

definition has_object :: "('o \<Rightarrow> object_meta) \<Rightarrow> 'o \<Rightarrow> 'o list \<Rightarrow> bool" where
  "has_object meta y xs \<longleftrightarrow> (\<exists>x \<in> set xs. named (om_namespace (meta y)) (om_name (meta y)) (meta x))"

definition remove_object :: "('o \<Rightarrow> object_meta) \<Rightarrow> 'o \<Rightarrow> 'o list \<Rightarrow> 'o list" where
  "remove_object meta y xs =
     filter (\<lambda>x. \<not> named (om_namespace (meta y)) (om_name (meta y)) (meta x)) xs"

definition mem_client :: "('q, 'q cluster) client" where
  "mem_client =
     \<lparr>k_get_ppvpa = (\<lambda>w. get_object ppvpa_meta (cl_ppvpas w)),
      k_list_ppvpas = (\<lambda>w. list_objects ppvpa_meta (cl_ppvpas w)),
      k_update_ppvpa = (\<lambda>w v. (w\<lparr>cl_ppvpas := replace_object ppvpa_meta v (cl_ppvpas w)\<rparr>, Inr v)),
      k_patch_ppvpa = (\<lambda>w v _. (w\<lparr>cl_ppvpas := replace_object ppvpa_meta v (cl_ppvpas w)\<rparr>, None)),
      k_patch_ppvpa_status = (\<lambda>w v _. (w\<lparr>cl_ppvpas := replace_object ppvpa_meta v (cl_ppvpas w)\<rparr>, None)),
      k_get_deployment = (\<lambda>w. get_object dep_meta (cl_deployments w)),
      k_patch_deployment = (\<lambda>w d _. (w\<lparr>cl_deployments := replace_object dep_meta d (cl_deployments w)\<rparr>, None)),
      k_get_replicaset = (\<lambda>w. get_object rs_meta (cl_replicasets w)),
      k_list_replicasets = (\<lambda>w. list_objects rs_meta (cl_replicasets w)),
      k_get_pod = (\<lambda>w. get_object pod_meta (cl_pods w)),
      k_list_pods = (\<lambda>w. list_objects pod_meta (cl_pods w)),
      k_evict = (\<lambda>w p _. (w\<lparr>cl_pods := remove_object pod_meta p (cl_pods w)\<rparr>, None)),
      k_get_prr = (\<lambda>w. get_object prr_meta (cl_prrs w)),
      k_list_prrs = (\<lambda>w. list_objects prr_meta (cl_prrs w)),
      k_create_prr = (\<lambda>w p. if has_object prr_meta p (cl_prrs w) then (w, Some (ApiErr AlreadyExists))
                            else (w\<lparr>cl_prrs := cl_prrs w @ [p]\<rparr>, None)),
      k_delete_prr = (\<lambda>w p. if has_object prr_meta p (cl_prrs w)
                            then (w\<lparr>cl_prrs := remove_object prr_meta p (cl_prrs w)\<rparr>, None)
                            else (w, Some (ApiErr NotFound))),
      k_get_checkpoint = (\<lambda>w. get_object checkpoint_meta (cl_checkpoints w)),
      k_create_checkpoint = (\<lambda>w c. if has_object checkpoint_meta c (cl_checkpoints w) then (w, Some (ApiErr AlreadyExists))
                                   else (w\<lparr>cl_checkpoints := cl_checkpoints w @ [c]\<rparr>, None)),
      k_patch_checkpoint_status =
        (\<lambda>w c _. (w\<lparr>cl_checkpoints := replace_object checkpoint_meta c (cl_checkpoints w)\<rparr>, None))\<rparr>"

definition demo_spec :: "int ppvpa_spec" where
  "demo_spec =
     \<lparr>TargetRef = \<lparr>tr_kind = ''Deployment'', tr_name = ''web''\<rparr>, TargetReplicas = Some 3,
      UpdatePolicy = \<lparr>UpdateMode = UpdateModeInPlace, AnomalyEvictionTimeoutSeconds = 60,
        SignificantChangeThresholdPercentage = 10,
        InfeasibleUpdateBehavior = \<lparr>MaxSurge = Some (IntVal 1), MaxUnavailable = None\<rparr>, BurstTimeoutSeconds = 120\<rparr>,
      ResourcePolicy = \<lparr>PodLevelPolicies = [], ContainerPolicies = []\<rparr>,
      RecommenderPolicy = \<lparr>TargetPercentile = ''90'', LowerBoundPercentile = ''50.0'', UpperBoundPercentile = [],
        SafetyMarginPercentage = 15\<rparr>,
      ScalingThresholds = \<lparr>st_CPU = \<lparr>cpu_ScaleUpPSI = ''20'', ScaleDownBufferDropPercentage = 20\<rparr>,
        st_Memory = \<lparr>memory_ScaleUpPSI = ''10'', WatermarkDecayWindowHours = 24\<rparr>\<rparr>\<rparr>"

definition demo_ppvpa :: "int32 \<Rightarrow> int ppvpa" where
  "demo_ppvpa temp =
     \<lparr>ppvpa_meta = demo_meta ''vpa'', ppvpa_Spec = demo_spec,
      ppvpa_Status = \<lparr>DefaultRecommendation = None, ActiveReplicas = 3, TemporaryReplicas = temp, ppvpa_Conditions = []\<rparr>\<rparr>"

definition demo_cluster :: "int cluster" where
  "demo_cluster =
     \<lparr>cl_ppvpas = [demo_ppvpa 1], cl_prrs = [],
      cl_pods = [\<lparr>pod_meta = (demo_meta ''pod'')\<lparr>om_ownerRefs := [\<lparr>or_apiVersion = ''apps/v1'', or_kind = ''ReplicaSet'',
                   or_name = ''rs'', or_uid = ''rs'', or_controller = True\<rparr>]\<rparr>,
                  pod_containers = [\<lparr>k_name = ''app'', k_requests = [''gpu'' \<mapsto> 1], k_limits = Map.empty\<rparr>],
                  pod_conditions = []\<rparr>],
      cl_deployments = [\<lparr>dep_meta = demo_meta ''web'', dep_replicas = Some 3\<rparr>],
      cl_replicasets = [\<lparr>rs_meta = (demo_meta ''rs'')\<lparr>om_ownerRefs := [\<lparr>or_apiVersion = ''apps/v1'', or_kind = ''Deployment'',
                   or_name = ''web'', or_uid = ''web'', or_controller = True\<rparr>]\<rparr>\<rparr>],
      cl_checkpoints = []\<rparr>"

end
