(* ===== verification/RecommenderProps.thy ===== *)
theory RecommenderProps
  imports Recommender Kube
begin

text \<open>
  What the recommender promises: aggregation is total and robust against bad checkpoints, the
  bounds stay ordered, memory never falls below an observed peak, targets respect the policy,
  quantities round up, and workload checkpoints restore. Concrete inputs for the witnesses are
  defined beside the theorems that use them.
\<close>

section \<open>Properties of the recommender\<close>

text \<open>
  (C28) \<open>Aggregate\<close> returns, whatever checkpoints the recommendations carry, unless decoding
  one of them panics: the two aggregates it returns are well formed and keep the default
  options they were built with.
\<close>

theorem aggregate_well_formed:
  assumes "numBuckets m DefaultCPUOptions \<le> max_slice_len" "numBuckets m DefaultMemoryOptions \<le> max_slice_len"
    and "\<forall>p \<in> set prrs. HistogramCheckpoint (prr_Status p) \<noteq> [] \<longrightarrow>
           Decode m c (HistogramCheckpoint (prr_Status p)) \<noteq> Panic"
  shows "\<exists>wh. Aggregate m c prrs = Ret (Inr wh) \<and>
    wf_hist m (wh_CPU wh) \<and> opts (wh_CPU wh) = DefaultCPUOptions \<and>
    wf_hist m (wh_Memory wh) \<and> opts (wh_Memory wh) = DefaultMemoryOptions"
proof -
  obtain wh where wh: "NewWorkloadHistograms m = Ret (Inr wh)" "wf_workload m wh"
    using NewWorkloadHistograms_wf [OF assms(1,2)] by blast
  then show ?thesis
    using aggregate_loop_wf [OF wh(2) assms(3)] by (auto simp: Aggregate_def wf_workload_def)
qed

theorem aggregate_well_formed_witness:
  "\<exists>wh. Aggregate flat_math demo_codec [demo_prr [] [] None, demo_prr ''Zgob'' [] None] = Ret (Inr wh) \<and>
     wf_hist flat_math (wh_CPU wh) \<and> opts (wh_CPU wh) = DefaultCPUOptions \<and>
     wf_hist flat_math (wh_Memory wh) \<and> opts (wh_Memory wh) = DefaultMemoryOptions"
proof (rule aggregate_well_formed)
  have "Decode flat_math demo_codec ''Zgob'' \<noteq> Panic" by code_simp
  then show "\<forall>p \<in> set [demo_prr [] [] None, demo_prr ''Zgob'' [] None]. HistogramCheckpoint (prr_Status p) \<noteq> [] \<longrightarrow>
      Decode flat_math demo_codec (HistogramCheckpoint (prr_Status p)) \<noteq> Panic"
    by (simp add: demo_prr_def demo_status_def)
qed (simp_all add: flat_buckets max_slice_len_def)

text \<open>
  (C29) A recommendation whose checkpoint is missing, corrupt, or written with other options
  than the defaults changes nothing: the aggregate is that of the contributing ones alone.
\<close>

theorem aggregate_ignores_unusable:
  "Aggregate m c prrs =
     Aggregate m c (filter (\<lambda>p. contributes m c (HistogramCheckpoint (prr_Status p))) prrs)"
proof (cases "\<exists>wh. NewWorkloadHistograms m = Ret (Inr wh)")
  case True
  then obtain wh where wh: "NewWorkloadHistograms m = Ret (Inr wh)" by blast
  then show ?thesis
    using aggregate_loop_filter [OF NewWorkloadHistograms_cases [OF wh], of c prrs]
    by (simp add: Aggregate_def)
next
  case False
  then show ?thesis
    by (cases "NewWorkloadHistograms m") (auto simp: Aggregate_def split: sum.split)
qed

text \<open>
  (C30) The confidence multipliers widen and never narrow: the upper one lies between 1 and
  1441, the lower one in \<open>(0, 1]\<close>, and the upper one falls as the workload gets older.
\<close>

theorem confidence_range:
  assumes "pow_conf_law m" "0 \<le> d" "d \<le> d'" "d' < 2 ^ 63"
  shows "Fin 1 \<le> UpperMultiplier (ConfidenceMultipliers m d) \<and>
    UpperMultiplier (ConfidenceMultipliers m d) \<le> Fin 1441 \<and>
    Fin 0 < LowerMultiplier (ConfidenceMultipliers m d) \<and>
    LowerMultiplier (ConfidenceMultipliers m d) \<le> Fin 1 \<and>
    UpperMultiplier (ConfidenceMultipliers m d') \<le> UpperMultiplier (ConfidenceMultipliers m d)"
proof -
  obtain x where x: "conf_base d = Fin x" "1 \<le> x" "x \<le> 1441"
    using conf_base_range [of d] assms by auto
  obtain l where "m_pow m (Fin x) (Fin (- 1 / 2)) = Fin l" "0 < l" "l \<le> 1"
    using assms(1) x(2) unfolding pow_conf_law_def by blast
  moreover have "m_pow m y (Fin 1) = y" for y using assms(1) by (simp add: pow_conf_law_def)
  ultimately show ?thesis
    using x conf_base_antimono [OF assms(2-4)] by (simp add: ConfidenceMultipliers_base)
qed

text \<open>A crude power that is constant between the exponents the multipliers use.\<close>

definition conf_pow :: "float64 \<Rightarrow> float64 \<Rightarrow> float64" where
  "conf_pow x y = (if Fin 1 \<le> y then x else if y = Fin (- 1 / 2) then Fin (1 / 32) else Fin 1)"

definition conf_math :: go_math where
  "conf_math = step_math\<lparr>m_pow := conf_pow\<rparr>"

lemma conf_pow_law: "pow_conf_law conf_math"
  by (auto simp: pow_conf_law_def conf_math_def conf_pow_def intro!: exI [of _ "1 / 32 :: rat"])

theorem confidence_range_witness:
  "Fin 1 \<le> UpperMultiplier (ConfidenceMultipliers conf_math Hour) \<and>
   UpperMultiplier (ConfidenceMultipliers conf_math (48 * Hour)) \<le> UpperMultiplier (ConfidenceMultipliers conf_math Hour) \<and>
   UpperMultiplier (ConfidenceMultipliers conf_math (48 * Hour)) = Fin (3 / 2)"
proof -
  have "UpperMultiplier (ConfidenceMultipliers conf_math (48 * Hour)) = Fin (3 / 2)" by code_simp
  then show ?thesis using confidence_range [OF conf_pow_law, of Hour "48 * Hour"] by simp
qed


lemma BucketStart_repr: "repr (BucketStart m h k)"
  by (simp add: BucketStart_def Let_def f64_consts)

lemma percentile_loop_repr:
  "repr (MaxValue (opts h)) \<Longrightarrow> repr (percentile_loop m h t i cum ws)"
  by (induction ws arbitrary: i cum) (simp_all add: Let_def BucketStart_repr)

lemma Percentile_repr: "repr (MaxValue (opts h)) \<Longrightarrow> repr (Percentile m h p)"
  by (simp add: Percentile_def Let_def percentile_loop_repr f64_consts)

text \<open>
  The bounds stay ordered through the whole pipeline: with ordered percentiles in the
  policy, \<open>0 \<le> lower \<le> target \<le> upper\<close> holds for both resources after the percentiles are
  read, the interval is widened by the confidence, and the margin and the memory floor are
  applied.
\<close>

theorem pipeline_ordered:
  assumes "wf_hist m (wh_CPU wh)" "edges_ok m (wh_CPU wh)" "weight_ok (totalWeight (wh_CPU wh))"
    and "wf_hist m (wh_Memory wh)" "edges_ok m (wh_Memory wh)" "weight_ok (totalWeight (wh_Memory wh))"
    and "repr (MaxValue (opts (wh_CPU wh)))" "repr (MaxValue (opts (wh_Memory wh)))"
    and "parsePercentile (LowerBoundPercentile p) (Fin 50) \<le> parsePercentile (TargetPercentile p) (Fin 90)"
    and "parsePercentile (TargetPercentile p) (Fin 90) \<le> parsePercentile (UpperBoundPercentile p) (Fin 95)"
    and "pow_conf_law m" "0 \<le> age" "age < 2 ^ 63" "is_int32 (SafetyMarginPercentage p)"
  shows "bounds_ordered
    (ApplyMargin (ApplyConfidence (ComputeBounds m wh p) (ConfidenceMultipliers m age)) p
       (maxObservedMemoryPeak q prrs))"
proof -
  obtain x where x: "conf_base age = Fin x" "1 \<le> x" using conf_base_range [OF assms(12,13)] by metis
  then obtain l where l: "m_pow m (Fin x) (Fin (- 1 / 2)) = Fin l" "0 < l" "l \<le> 1"
    using assms(11) unfolding pow_conf_law_def by blast
  have "m_pow m (Fin x) (Fin 1) = Fin x" using assms(11) by (simp add: pow_conf_law_def)
  then have "bounds_ordered (ApplyConfidence (ComputeBounds m wh p) (ConfidenceMultipliers m age))"
    using ComputeBounds_ordered [OF assms(1-6,9,10)] x l assms(7,8)
    by (intro ApplyConfidence_ordered)
      (simp_all add: ConfidenceMultipliers_base ComputeBounds_def Let_def Percentile_repr)
  then show ?thesis by (rule ApplyMargin_ordered [OF _ assms(14) peak_nonneg])
qed

definition demo_policy :: recommender_policy where
  "demo_policy = \<lparr>TargetPercentile = ''90'', LowerBoundPercentile = ''50.0'', UpperBoundPercentile = [],
     SafetyMarginPercentage = 15\<rparr>"

lemma conf_demo: "wf_hist conf_math demo_hist" "edges_ok conf_math demo_hist"
proof -
  show "wf_hist conf_math demo_hist" by code_simp
  have "pow_ratio_law conf_math (Fin 2)" unfolding pow_ratio_law_def
  proof (intro allI impI)
    fix x y assume x: "Fin 0 \<le> x" and xy: "x \<le> y"
    have "Fin 0 \<le> y" "Fin 1 \<le> x \<longrightarrow> Fin 1 \<le> y" using f64_le_trans [OF x xy] f64_le_trans [OF _ xy] by simp_all
    then show "Fin 1 \<le> m_pow conf_math (Fin 2) x \<and> m_pow conf_math (Fin 2) x \<le> m_pow conf_math (Fin 2) y"
      using x by (auto simp: conf_math_def conf_pow_def)
  qed
  moreover have "BucketStart conf_math demo_hist 3 \<le> Fin 15" by code_simp
  ultimately show "edges_ok conf_math demo_hist"
    using demo_shape by (simp add: edges_ok_def demo_hist_def demo_options_def)
qed

lemma demo_percentiles:
  "parsePercentile (LowerBoundPercentile demo_policy) (Fin 50) = Fin 50"
  "parsePercentile (TargetPercentile demo_policy) (Fin 90) = Fin 90"
  "parsePercentile (UpperBoundPercentile demo_policy) (Fin 95) = Fin 95"
  by code_simp+

theorem pipeline_ordered_witness:
  "bounds_ordered
     (ApplyMargin
       (ApplyConfidence (ComputeBounds conf_math \<lparr>wh_CPU = demo_hist, wh_Memory = demo_hist\<rparr> demo_policy)
         (ConfidenceMultipliers conf_math Hour)) demo_policy
       (maxObservedMemoryPeak demo_quantity [demo_prr [] [] (Some ''3G'')]))"
proof (rule pipeline_ordered)
  show "repr (MaxValue (opts (wh_CPU \<lparr>wh_CPU = demo_hist, wh_Memory = demo_hist\<rparr>)))"
    "repr (MaxValue (opts (wh_Memory \<lparr>wh_CPU = demo_hist, wh_Memory = demo_hist\<rparr>)))"
    by code_simp+
  show "is_int32 (SafetyMarginPercentage demo_policy)" by (simp add: demo_policy_def in_width_def)
qed (use conf_demo demo_weights in \<open>simp_all add: demo_percentiles conf_pow_law weights_ok_def\<close>)


text \<open>
  (C9) The memory floor: whatever the histograms say, after \<open>ApplyMargin\<close> the lower bound,
  the target and the upper bound of memory are at least the observed peak of every
  recommendation object, padded by the margin, and the padding never shrinks a peak.
\<close>

theorem memory_floor:
  assumes "is_int32 (SafetyMarginPercentage p)" "r \<in> set prrs" "peak_of q r = Some v" "Fin 0 < v"
    and "MemoryLower b \<noteq> NaN" "MemoryTarget b \<noteq> NaN" "MemoryUpper b \<noteq> NaN"
  shows "let a = ApplyMargin b p (maxObservedMemoryPeak q prrs);
             padded = v * margin_factor (SafetyMarginPercentage p)
    in v \<le> padded \<and> padded \<le> MemoryLower a \<and> padded \<le> MemoryTarget a \<and> padded \<le> MemoryUpper a"
proof -
  let ?peak = "maxObservedMemoryPeak q prrs"
  obtain c where c: "margin_factor (SafetyMarginPercentage p) = Fin c" "1 \<le> c"
    using margin_factor_fin [OF assms(1)] by blast
  have le: "v \<le> ?peak"
    using peak_loop_ge [of "Fin 0" q prrs] assms(2,3) by (simp add: maxObservedMemoryPeak_def f64_consts)
  have pos: "Fin 0 < ?peak" using assms(4) le by (rule f64_less_le_trans)
  have v: "Fin 0 \<le> v" using assms(4) by (rule f64_less_imp_le)
  have pad: "v * Fin c \<le> ?peak * Fin c" using le v c by (intro f64_mult_mono_pos) simp_all
  then have nan: "?peak * Fin c \<noteq> NaN" using f64_le_imp_num by blast
  have fin: "x * Fin c \<noteq> NaN" if "x \<noteq> NaN" for x
    using that c by (cases x) (simp_all add: f64_ops inf_sgn_def)
  have up: "v * Fin c \<le> raise_to (?peak * Fin c) (x * Fin c)" if "x \<noteq> NaN" for x
    using raise_to_ge [OF fin [OF that] nan] pad f64_le_trans by blast
  have "repr v" using assms(3) by (auto simp: peak_of_def split: option.splits if_splits)
  then have "v \<le> v * Fin c" using v c by (intro f64_scale_up)
  then show ?thesis
    using pos up [OF assms(5)] up [OF assms(6)] up [OF assms(7)]
    by (simp add: ApplyMargin_def Let_def c f64_consts)
qed

definition demo_bounds :: bounds where
  "demo_bounds = \<lparr>CPULower = Fin 1, CPUTarget = Fin 2, CPUUncapped = Fin 2, CPUUpper = Fin 3,
     MemoryLower = Fin 100, MemoryTarget = Fin 200, MemoryUncapped = Fin 200, MemoryUpper = Fin 400\<rparr>"

theorem memory_floor_witness:
  "let a = ApplyMargin demo_bounds demo_policy
             (maxObservedMemoryPeak demo_quantity [demo_prr [] [] None, demo_prr [] [] (Some ''3G'')]);
       padded = Fin 3000000000 * margin_factor 15
   in Fin 3000000000 \<le> padded \<and> padded \<le> MemoryLower a \<and> padded \<le> MemoryTarget a \<and> padded \<le> MemoryUpper a"
proof -
  have "peak_of demo_quantity (demo_prr [] [] (Some ''3G'')) = Some (Fin 3000000000)"
    by (simp add: peak_of_def demo_prr_def demo_status_def demo_quantity_def f64_of_int_exact)
  then show ?thesis
    using memory_floor [of demo_policy "demo_prr [] [] (Some ''3G'')"
        "[demo_prr [] [] None, demo_prr [] [] (Some ''3G'')]" demo_quantity "Fin 3000000000" demo_bounds]
    by (simp add: demo_policy_def in_width_def demo_bounds_def)
qed

text \<open>
  (C31) Clamping puts the target of memory and of CPU inside the limits of every policy of the
  list, as long as no policy's minimum exceeds a maximum for the same resource.
\<close>

theorem clamp_target_in_limits:
  assumes "limits_agree q ResourceMemory (PodLevelPolicies pol)" "limits_agree q ResourceCPU (PodLevelPolicies pol)"
    and "MemoryTarget b \<noteq> NaN" "CPUTarget b \<noteq> NaN" "p \<in> set (PodLevelPolicies pol)"
  shows "in_limits (min_limit q ResourceMemory p) (max_limit q ResourceMemory p) (MemoryTarget (clampToPolicy q b pol)) \<and>
    in_limits (min_limit q ResourceCPU p) (max_limit q ResourceCPU p) (CPUTarget (clampToPolicy q b pol))"
proof
  show "in_limits (min_limit q ResourceMemory p) (max_limit q ResourceMemory p) (MemoryTarget (clampToPolicy q b pol))"
    using fold_clamp_within [of MemoryTarget "clamp_one q" q ResourceMemory "[]" "PodLevelPolicies pol" b] assms
    by (simp add: clampToPolicy_def clamp_one_MemoryTarget)
  show "in_limits (min_limit q ResourceCPU p) (max_limit q ResourceCPU p) (CPUTarget (clampToPolicy q b pol))"
    using fold_clamp_within [of CPUTarget "clamp_one q" q ResourceCPU "[]" "PodLevelPolicies pol" b] assms
    by (simp add: clampToPolicy_def clamp_one_CPUTarget)
qed

definition demo_resource_policy :: "int resource_policy" where
  "demo_resource_policy =
     \<lparr>PodLevelPolicies =
        [\<lparr>plp_ResourceName = ResourceMemory, plp_MinAllowed = Some 10, plp_MaxAllowed = Some 50\<rparr>,
         \<lparr>plp_ResourceName = ResourceMemory, plp_MinAllowed = None, plp_MaxAllowed = Some 40\<rparr>],
      ContainerPolicies = []\<rparr>"

lemma demo_limit: "limit_of demo_quantity ResourceMemory n = f64_of_int n"
  by (simp add: limit_of_def demo_quantity_def)

theorem clamp_target_in_limits_witness:
  "MemoryTarget (clampToPolicy demo_quantity demo_bounds demo_resource_policy) \<le> Fin 40"
proof -
  have "limits_agree demo_quantity ResourceMemory (PodLevelPolicies demo_resource_policy)"
    "limits_agree demo_quantity ResourceCPU (PodLevelPolicies demo_resource_policy)"
    by (simp_all add: limits_agree_def demo_resource_policy_def min_limit_def max_limit_def demo_limit f64_of_int_exact)
  then show ?thesis
    using clamp_target_in_limits [of demo_quantity demo_resource_policy demo_bounds
        "\<lparr>plp_ResourceName = ResourceMemory, plp_MinAllowed = None, plp_MaxAllowed = Some 40\<rparr>"]
    by (simp add: demo_bounds_def demo_resource_policy_def min_limit_def max_limit_def demo_limit in_limits_def
        f64_of_int_exact)
qed

text \<open>
  (C32) \<open>MaxAllowed\<close> cuts the target and the upper bound but not the lower bound: when the
  lower bound exceeds the allowed maximum, the recommendation that comes out has a lower
  bound above both its target and its upper bound.
\<close>

theorem clamp_inverts_bounds:
  assumes "bounds_ordered b" "f64_of_int (q_value q x) < MemoryLower b"
    and "PodLevelPolicies pol = [\<lparr>plp_ResourceName = ResourceMemory, plp_MinAllowed = None, plp_MaxAllowed = Some x\<rparr>]"
  shows "MemoryLower (clampToPolicy q b pol) = MemoryLower b \<and>
    MemoryTarget (clampToPolicy q b pol) = f64_of_int (q_value q x) \<and>
    MemoryUpper (clampToPolicy q b pol) = f64_of_int (q_value q x) \<and>
    MemoryUpper (clampToPolicy q b pol) < MemoryLower (clampToPolicy q b pol)"
proof -
  have "f64_of_int (q_value q x) < MemoryTarget b" "f64_of_int (q_value q x) < MemoryUpper b"
    using assms(1,2) f64_less_le_trans unfolding bounds_ordered_def by blast+
  then show ?thesis using assms(2) by (simp add: clampToPolicy_def assms(3) clamp_one_def Let_def cut_to_def)
qed

theorem clamp_inverts_bounds_witness:
  "MemoryUpper (clampToPolicy demo_quantity demo_bounds
     \<lparr>PodLevelPolicies = [\<lparr>plp_ResourceName = ResourceMemory, plp_MinAllowed = None, plp_MaxAllowed = Some 64\<rparr>],
      ContainerPolicies = []\<rparr>) = Fin 64"
  using clamp_inverts_bounds [of demo_bounds demo_quantity 64
      "\<lparr>PodLevelPolicies = [\<lparr>plp_ResourceName = ResourceMemory, plp_MinAllowed = None, plp_MaxAllowed = Some 64\<rparr>],
        ContainerPolicies = []\<rparr>"]
  by (simp add: bounds_ordered_def demo_bounds_def demo_quantity_def f64_of_int_exact)

lemma ceil_to_int:
  assumes "0 \<le> y" "y \<le> of_int (2 ^ 62)"
  shows "f64_to_int m (math_ceil (Fin y)) = \<lceil>y\<rceil>"
proof -
  have "\<lceil>y\<rceil> \<le> 2 ^ 62" "0 \<le> \<lceil>y\<rceil>" using assms ceiling_mono [of 0 y] by (simp_all only: ceiling_le_iff ceiling_zero)
  then show ?thesis by (simp add: f64_to_int_def trunc_rat_def in_width_def)
qed

text \<open>What is written for a finite number of cores and bytes below the limits.\<close>

lemma resourceList_fin:
  assumes "x \<le> 2 ^ 43" "a \<le> 2 ^ 62"
  shows "\<exists>z. rnd (max 0 x * 1000) = Fin z \<and> 0 \<le> z \<and>
    resourceList m q (Fin x) (Fin a) = [ResourceCPU \<mapsto> q_new_milli q \<lceil>z\<rceil>, ResourceMemory \<mapsto> q_new q \<lceil>max 0 a\<rceil>]"
proof -
  have "max 0 x * 1000 \<le> of_int (2 ^ 53)" using assms(1) by (auto simp: max_def)
  then obtain z where z: "rnd (max 0 x * 1000) = Fin z" "0 \<le> z" "z \<le> of_int (2 ^ 53)"
    using rnd_between [of "max 0 x * 1000" "of_int (2 ^ 53)"] rnd_int [of "2 ^ 53"] by auto
  have "(if Fin x < 0 then 0 else Fin x) = Fin (max 0 x)" "(if Fin a < 0 then 0 else Fin a) = Fin (max 0 a)"
    by (simp_all add: f64_consts)
  then show ?thesis using z ceil_to_int [of z] ceil_to_int [of "max 0 a"] assms(2)
    by (intro exI [of _ z]) (simp add: resourceList_def Let_def f64)
qed

text \<open>
  The quantities written to the API round up to whole millicores and bytes and are never
  negative: memory is the least integer at or above the byte value, CPU the least integer at
  or above a thousand times the number of cores as the float product gives it.
\<close>

theorem quantities_round_up:
  assumes "x \<le> 2 ^ 43" "a \<le> 2 ^ 62"
  shows "\<exists>c b. resourceList m q (Fin x) (Fin a) =
      [ResourceCPU \<mapsto> q_new_milli q c, ResourceMemory \<mapsto> q_new q b] \<and>
    0 \<le> c \<and> Fin (max 0 x) * Fin 1000 \<le> Fin (of_int c) \<and> Fin (of_int c - 1) < Fin (max 0 x) * Fin 1000 \<and>
    0 \<le> b \<and> max 0 a \<le> of_int b \<and> of_int b < max 0 a + 1"
proof -
  obtain z where z: "rnd (max 0 x * 1000) = Fin z" "0 \<le> z"
    "resourceList m q (Fin x) (Fin a) = [ResourceCPU \<mapsto> q_new_milli q \<lceil>z\<rceil>, ResourceMemory \<mapsto> q_new q \<lceil>max 0 a\<rceil>]"
    using resourceList_fin [OF assms] by blast
  have "0 \<le> \<lceil>z\<rceil>" "0 \<le> \<lceil>max 0 a\<rceil>" "z \<le> of_int \<lceil>z\<rceil>" "of_int \<lceil>z\<rceil> - 1 < z"
    "max 0 a \<le> of_int \<lceil>max 0 a\<rceil>" "of_int \<lceil>max 0 a\<rceil> < max 0 a + 1"
    using z(2) ceiling_correct [of z] ceiling_correct [of "max 0 a"] ceiling_mono [of 0 z] ceiling_mono [of 0 "max 0 a"]
    by (simp_all add: le_of_int_ceiling) 
  then show ?thesis using z(1,3) by (intro exI [of _ "\<lceil>z\<rceil>"] exI [of _ "\<lceil>max 0 a\<rceil>"]) (simp add: f64)
qed

theorem quantities_round_up_witness:
  "\<exists>c b. resourceList step_math demo_quantity (Fin (1 / 2)) (Fin (5 / 2)) =
      [ResourceCPU \<mapsto> q_new_milli demo_quantity c, ResourceMemory \<mapsto> q_new demo_quantity b] \<and> b = 3"
proof -
  obtain c b where "resourceList step_math demo_quantity (Fin (1 / 2)) (Fin (5 / 2)) =
      [ResourceCPU \<mapsto> q_new_milli demo_quantity c, ResourceMemory \<mapsto> q_new demo_quantity b]"
    "5 / 2 \<le> (of_int b :: rat)" "(of_int b :: rat) < 5 / 2 + 1"
    using quantities_round_up [of "1 / 2" "5 / 2" step_math demo_quantity] by auto
  moreover from this(2,3) have "b = 3" by linarith
  ultimately show ?thesis by blast
qed

section \<open>The recommendation is ordered\<close>

text \<open>The quantities of three rows, lower, target and upper.\<close>

definition quantities_ordered ::
  "'q quantity_ops \<Rightarrow> 'q resource_list \<Rightarrow> 'q resource_list \<Rightarrow> 'q resource_list \<Rightarrow> bool" where
  "quantities_ordered q l t u \<longleftrightarrow>
     (\<exists>cl ct cu ml mt mu. 0 \<le> cl \<and> cl \<le> ct \<and> ct \<le> cu \<and> 0 \<le> ml \<and> ml \<le> mt \<and> mt \<le> mu \<and>
        l = [ResourceCPU \<mapsto> q_new_milli q cl, ResourceMemory \<mapsto> q_new q ml] \<and>
        t = [ResourceCPU \<mapsto> q_new_milli q ct, ResourceMemory \<mapsto> q_new q mt] \<and>
        u = [ResourceCPU \<mapsto> q_new_milli q cu, ResourceMemory \<mapsto> q_new q mu])"

lemma bounded_fin: "Fin 0 \<le> x \<Longrightarrow> x \<le> Fin c \<Longrightarrow> \<exists>a. x = Fin a \<and> 0 \<le> a \<and> a \<le> c"
  by (cases x) auto

lemma resourceList_ordered:
  assumes "bounds_ordered b" "CPUUpper b \<le> Fin (2 ^ 43)" "MemoryUpper b \<le> Fin (2 ^ 62)"
  shows "quantities_ordered q (resourceList m q (CPULower b) (MemoryLower b))
    (resourceList m q (CPUTarget b) (MemoryTarget b)) (resourceList m q (CPUUpper b) (MemoryUpper b))"
proof -
  note o = assms(1) [unfolded bounds_ordered_def]
  obtain x3 where x3: "CPUUpper b = Fin x3" "x3 \<le> 2 ^ 43"
    using bounded_fin [OF _ assms(2)] o f64_le_trans by blast
  obtain x2 where x2: "CPUTarget b = Fin x2" "x2 \<le> x3"
    using bounded_fin [of "CPUTarget b" x3] o x3(1) f64_le_trans by metis
  obtain x1 where x1: "CPULower b = Fin x1" "0 \<le> x1" "x1 \<le> x2"
    using bounded_fin [of "CPULower b" x2] o x2(1) by metis
  obtain a3 where a3: "MemoryUpper b = Fin a3" "a3 \<le> 2 ^ 62"
    using bounded_fin [OF _ assms(3)] o f64_le_trans by blast
  obtain a2 where a2: "MemoryTarget b = Fin a2" "a2 \<le> a3"
    using bounded_fin [of "MemoryTarget b" a3] o a3(1) f64_le_trans by metis
  obtain a1 where a1: "MemoryLower b = Fin a1" "0 \<le> a1" "a1 \<le> a2"
    using bounded_fin [of "MemoryLower b" a2] o a2(1) by metis
  obtain z1 where z1: "rnd (max 0 x1 * 1000) = Fin z1" "0 \<le> z1" "resourceList m q (Fin x1) (Fin a1) =
      [ResourceCPU \<mapsto> q_new_milli q \<lceil>z1\<rceil>, ResourceMemory \<mapsto> q_new q \<lceil>max 0 a1\<rceil>]"
    using resourceList_fin [of x1 a1 m q] x1 x2 x3 a1 a2 a3 by auto
  obtain z2 where z2: "rnd (max 0 x2 * 1000) = Fin z2" "resourceList m q (Fin x2) (Fin a2) =
      [ResourceCPU \<mapsto> q_new_milli q \<lceil>z2\<rceil>, ResourceMemory \<mapsto> q_new q \<lceil>max 0 a2\<rceil>]"
    using resourceList_fin [of x2 a2 m q] x2 x3 a2 a3 by auto
  obtain z3 where z3: "rnd (max 0 x3 * 1000) = Fin z3" "resourceList m q (Fin x3) (Fin a3) =
      [ResourceCPU \<mapsto> q_new_milli q \<lceil>z3\<rceil>, ResourceMemory \<mapsto> q_new q \<lceil>max 0 a3\<rceil>]"
    using resourceList_fin [of x3 a3 m q] x3 a3 by auto
  have "z1 \<le> z2" "z2 \<le> z3"
    using rnd_mono [of "max 0 x1 * 1000" "max 0 x2 * 1000"] rnd_mono [of "max 0 x2 * 1000" "max 0 x3 * 1000"] z1 z2 z3 x1 x2
    by simp_all
  then have c: "\<lceil>z1\<rceil> \<le> \<lceil>z2\<rceil>" "\<lceil>z2\<rceil> \<le> \<lceil>z3\<rceil>" by (simp_all only: ceiling_mono)
  have "max 0 a1 \<le> max 0 a2" "max 0 a2 \<le> max 0 a3" using a1 a2 by simp_all
  then have a: "\<lceil>max 0 a1\<rceil> \<le> \<lceil>max 0 a2\<rceil>" "\<lceil>max 0 a2\<rceil> \<le> \<lceil>max 0 a3\<rceil>" by (simp_all only: ceiling_mono)
  have z: "0 \<le> \<lceil>z1\<rceil>" "0 \<le> \<lceil>max 0 a1\<rceil>"
    using z1(2) ceiling_mono [of 0 z1] ceiling_mono [of 0 "max 0 a1"] by simp_all
  show ?thesis
    unfolding quantities_ordered_def x1(1) x2(1) x3(1) a1(1) a2(1) a3(1) z1(3) z2(2) z3(2)
    by (rule exI [of _ "\<lceil>z1\<rceil>"], rule exI [of _ "\<lceil>z2\<rceil>"], rule exI [of _ "\<lceil>z3\<rceil>"], rule exI [of _ "\<lceil>max 0 a1\<rceil>"],
        rule exI [of _ "\<lceil>max 0 a2\<rceil>"], rule exI [of _ "\<lceil>max 0 a3\<rceil>"]) (intro conjI refl z c a)
qed

lemma aggregate_loop_keeps_wf:
  "wf_workload m wh \<Longrightarrow> aggregate_loop m c wh ps = Ret wh' \<Longrightarrow> wf_workload m wh'"
proof (induction ps arbitrary: wh)
  case (Cons p ps)
  let ?ck = "HistogramCheckpoint (prr_Status p)"
  obtain wh1 where s: "aggregate_step m c wh ?ck = Ret wh1" "aggregate_loop m c wh1 ps = Ret wh'"
    using Cons.prems(2) by (auto elim!: go_bind_RetE)
  then have "?ck \<noteq> [] \<longrightarrow> Decode m c ?ck \<noteq> Panic" by (auto simp: aggregate_step_def)
  from aggregate_step_wf [OF Cons.prems(1) this] s(1) have "wf_workload m wh1" by (elim exE conjE) simp
  then show ?case using Cons.IH s(2) by blast
qed simp

lemma Aggregate_wf: "Aggregate m c ps = Ret (Inr wh) \<Longrightarrow> wf_workload m wh"
  using aggregate_loop_keeps_wf NewWorkloadHistograms_cases
  by (fastforce simp: Aggregate_def elim!: go_bind_RetE split: sum.split_asm)

lemma default_repr: "repr (MaxValue DefaultCPUOptions)" "repr (MaxValue DefaultMemoryOptions)"
  by code_simp+

text \<open>
  The percentiles have to be ordered themselves, which nothing checks: with a lower-bound
  percentile of 99 and the default target percentile, 92 samples in the first bucket and 8 in
  the last one put the lower bound above the target, even when the confidence halves it.
\<close>

definition skewed_hist :: histogram where
  "skewed_hist = demo_hist\<lparr>buckets := [Fin 92, Fin 0, Fin 0, Fin 8], totalWeight := Fin 100\<rparr>"

lemma skewed_percentiles: "Percentile step_math skewed_hist (Fin 99) = Fin 15" "Percentile step_math skewed_hist (Fin 90) = Fin 1"
  by code_simp+

lemma unordered_percentiles_invert:
  assumes "b = ApplyConfidence (ComputeBounds step_math \<lparr>wh_CPU = skewed_hist, wh_Memory = skewed_hist\<rparr>
      (demo_policy\<lparr>LowerBoundPercentile := ''99'', TargetPercentile := []\<rparr>)) \<lparr>LowerMultiplier = Fin (1 / 2), UpperMultiplier = Fin 2\<rparr>"
  shows "CPUTarget b < CPULower b \<and> MemoryTarget b < MemoryLower b"
proof -
  have "parsePercentile ''99'' (Fin 50) = Fin 99" "parsePercentile [] (Fin 90) = Fin 90" by code_simp+
  moreover have "Fin 1 < Fin 15 * Fin (1 / 2)" by code_simp
  ultimately show ?thesis using assms by (simp add: ApplyConfidence_def ComputeBounds_def skewed_percentiles Let_def)
qed

text \<open>
  (C20) What is written to the API is ordered: unless a pod-level policy clamps it, in a
  computed recommendation \<open>0 \<le> lower \<le> target \<le> upper\<close> holds for the millicores and the bytes,
  for the pod and for every container, through aggregation, percentiles, confidence, margin,
  memory floor and rounding. This needs the policy's lower-bound, target and upper-bound
  percentiles, or the defaults 50, 90 and 95 that stand for those left out, to be in that
  order, which the API does not check. It also needs the total weights of the two aggregated
  histograms to be non-negative numbers, their bucket edges to stay within the range of the
  options, the upper bounds to stay below \<open>2^43\<close> cores and \<open>2^62\<close> bytes, an age that is not
  negative, and the laws of \<open>math.Pow\<close> at the exponents \<open>1\<close> and \<open>-1/2\<close> and at the bucket ratio.
\<close>

theorem recommendation_ordered:
  assumes "Aggregate m c prrs = Ret (Inr wh)" "Recommend m c q prrs spec age = Ret (Inr rec)"
    and "edges_ok m (wh_CPU wh)" "weight_ok (totalWeight (wh_CPU wh))"
    and "edges_ok m (wh_Memory wh)" "weight_ok (totalWeight (wh_Memory wh))"
    and "parsePercentile (LowerBoundPercentile (RecommenderPolicy spec)) (Fin 50) \<le>
         parsePercentile (TargetPercentile (RecommenderPolicy spec)) (Fin 90)"
    and "parsePercentile (TargetPercentile (RecommenderPolicy spec)) (Fin 90) \<le>
         parsePercentile (UpperBoundPercentile (RecommenderPolicy spec)) (Fin 95)"
    and "pow_conf_law m" "0 \<le> age" "age < 2 ^ 63" "is_int32 (SafetyMarginPercentage (RecommenderPolicy spec))"
    and "PodLevelPolicies (ResourcePolicy spec) = []"
    and "CPUUpper (final_bounds m q wh prrs spec age) \<le> Fin (2 ^ 43)"
    and "MemoryUpper (final_bounds m q wh prrs spec age) \<le> Fin (2 ^ 62)"
  shows "quantities_ordered q (pl_LowerBound (rec_PodLevel rec)) (pl_Target (rec_PodLevel rec)) (pl_UpperBound (rec_PodLevel rec)) \<and>
    (\<forall>r \<in> set (rec_ContainerRecommendations rec). quantities_ordered q (cr_LowerBound r) (cr_Target r) (cr_UpperBound r))"
proof -
  let ?b = "final_bounds m q wh prrs spec age"
  note wf = Aggregate_wf [OF assms(1), unfolded wf_workload_def]
  have "bounds_ordered ?b"
    using pipeline_ordered [OF _ assms(3,4) _ assms(5,6) _ _ assms(7-12), of q prrs] wf assms(13)
    by (simp add: final_bounds_def clampToPolicy_def default_repr)
  from resourceList_ordered [OF this assms(14,15), of q m] show ?thesis
    using assms(1,2) by (auto simp: Recommend_def Let_def container_rec_def)
qed

text \<open>Histograms of one bucket, and one recommendation with an observed peak of 3 GB.\<close>

definition plain_math :: go_math where
  "plain_math = conf_math\<lparr>m_log := (\<lambda>_. Fin 1)\<rparr>"

lemma plain_laws: "pow_conf_law plain_math" "numBuckets plain_math a = 1" "1 < r \<Longrightarrow> pow_ratio_law plain_math (Fin r)"
proof -
  show "pow_conf_law plain_math" using conf_pow_law by (simp add: pow_conf_law_def plain_math_def)
  have "Fin 1 / Fin 1 = Fin 1" by (simp add: f64)
  then show "numBuckets plain_math a = 1" 
    by (simp add: numBuckets_def plain_math_def Let_def f64_to_int_def trunc_rat_def in_width_def f64)
  assume r: "1 < r"
  show "pow_ratio_law plain_math (Fin r)" unfolding pow_ratio_law_def
  proof (intro allI impI)
    fix x y assume x: "Fin 0 \<le> x" and xy: "x \<le> y"
    have "Fin 0 \<le> y" "Fin 1 \<le> x \<longrightarrow> Fin 1 \<le> y" using f64_le_trans [OF x xy] f64_le_trans [OF _ xy] by simp_all
    then show "Fin 1 \<le> m_pow plain_math (Fin r) x \<and> m_pow plain_math (Fin r) x \<le> m_pow plain_math (Fin r) y"
      using x r by (auto simp: plain_math_def conf_math_def conf_pow_def)
  qed
qed

definition demo_advised_prrs :: "int prr list" where
  "demo_advised_prrs = [demo_prr [] [''app''] (Some ''3G'')]"

definition new_hist :: "options \<Rightarrow> histogram" where
  "new_hist a = \<lparr>opts = a, h_n = 1, buckets = [0], totalWeight = 0, referenceTime = zero_time\<rparr>"

lemma plain_aggregate:
  "Aggregate plain_math demo_codec demo_advised_prrs =
     Ret (Inr \<lparr>wh_CPU = new_hist DefaultCPUOptions, wh_Memory = new_hist DefaultMemoryOptions\<rparr>)"
  by (simp add: Aggregate_def NewWorkloadHistograms_def New_def Validate_defaults plain_laws(2) max_slice_len_def new_hist_def
      demo_advised_prrs_def demo_prr_def demo_status_def aggregate_step_def)

lemma plain_edges: "edges_ok plain_math (new_hist DefaultCPUOptions)" "edges_ok plain_math (new_hist DefaultMemoryOptions)"
proof -
  have s: "shape_ok DefaultCPUOptions" "shape_ok DefaultMemoryOptions" by code_simp+
  have "Fin 1 < rnd (105 / 100) \<and> rnd (105 / 100) \<le> Fin 2" by code_simp
  then obtain r where "rnd (105 / 100) = Fin r" "1 < r" by (cases "rnd (105 / 100)") auto
  then have "pow_ratio_law plain_math (rnd (105 / 100))" using plain_laws(3) by simp
  then show "edges_ok plain_math (new_hist DefaultCPUOptions)" "edges_ok plain_math (new_hist DefaultMemoryOptions)"
    using s by (simp_all add: edges_ok_def new_hist_def BucketStart_def Let_def f64_consts
        DefaultCPUOptions_def DefaultMemoryOptions_def)
qed

definition idle_bounds :: bounds where
  "idle_bounds =
     \<lparr>CPULower = Fin 0, CPUTarget = Fin 0, CPUUncapped = Fin 0, CPUUpper = Fin 0,
      MemoryLower = Fin 0, MemoryTarget = Fin 0, MemoryUncapped = Fin 0, MemoryUpper = Fin 0\<rparr>"

lemma plain_final_bounds:
  "final_bounds plain_math demo_quantity \<lparr>wh_CPU = new_hist DefaultCPUOptions, wh_Memory = new_hist DefaultMemoryOptions\<rparr>
     demo_advised_prrs demo_spec Hour =
   ApplyMargin (ApplyConfidence idle_bounds \<lparr>LowerMultiplier = Fin (1 / 32), UpperMultiplier = Fin 25\<rparr>) demo_policy
     (f64_of_int 3000000000)"
proof -
  have c: "ConfidenceMultipliers plain_math Hour = \<lparr>LowerMultiplier = Fin (1 / 32), UpperMultiplier = Fin 25\<rparr>" by code_simp
  have z: "Percentile plain_math (new_hist a) p = Fin 0" for a p
    by (simp add: Percentile_def new_hist_def f64_consts)
  have "(0::float64) < f64_of_int 3000000000" by code_simp
  then have p: "maxObservedMemoryPeak demo_quantity demo_advised_prrs = f64_of_int 3000000000"
    by (simp add: maxObservedMemoryPeak_def peak_of_def raise_to_def demo_advised_prrs_def demo_prr_def demo_status_def
        demo_quantity_def)
  have policy: "RecommenderPolicy demo_spec = demo_policy" "PodLevelPolicies (ResourcePolicy demo_spec) = []"
    by (simp_all add: demo_spec_def demo_policy_def)
  have b: "ComputeBounds plain_math \<lparr>wh_CPU = new_hist DefaultCPUOptions, wh_Memory = new_hist DefaultMemoryOptions\<rparr> demo_policy =
      idle_bounds"
    by (simp add: ComputeBounds_def Let_def z idle_bounds_def)
  show ?thesis unfolding final_bounds_def Let_def policy(1) b c p clampToPolicy_def policy(2) by simp
qed

theorem recommendation_ordered_witness:
  "\<exists>rec. Recommend plain_math demo_codec demo_quantity demo_advised_prrs demo_spec Hour = Ret (Inr rec) \<and>
     quantities_ordered demo_quantity (pl_LowerBound (rec_PodLevel rec)) (pl_Target (rec_PodLevel rec)) (pl_UpperBound (rec_PodLevel rec)) \<and>
     map cr_ContainerName (rec_ContainerRecommendations rec) = [''app'']"
proof -
  let ?wh = "\<lparr>wh_CPU = new_hist DefaultCPUOptions, wh_Memory = new_hist DefaultMemoryOptions\<rparr>"
  have names: "uniqueContainerNames demo_advised_prrs = [''app'']"
    by (simp add: uniqueContainerNames_def demo_advised_prrs_def demo_prr_def demo_status_def)
  obtain rec where r: "Recommend plain_math demo_codec demo_quantity demo_advised_prrs demo_spec Hour = Ret (Inr rec)"
    "map cr_ContainerName (rec_ContainerRecommendations rec) = [''app'']"
    by (simp add: Recommend_def plain_aggregate Let_def names container_rec_def)
  have up: "CPUUpper (final_bounds plain_math demo_quantity ?wh demo_advised_prrs demo_spec Hour) \<le> Fin (2 ^ 43)"
    "MemoryUpper (final_bounds plain_math demo_quantity ?wh demo_advised_prrs demo_spec Hour) \<le> Fin (2 ^ 62)"
    unfolding plain_final_bounds by code_simp+
  have policy: "RecommenderPolicy demo_spec = demo_policy" "PodLevelPolicies (ResourcePolicy demo_spec) = []"
    by (simp_all add: demo_spec_def demo_policy_def)
  have h: "edges_ok plain_math (wh_CPU ?wh)" "weight_ok (totalWeight (wh_CPU ?wh))"
    "edges_ok plain_math (wh_Memory ?wh)" "weight_ok (totalWeight (wh_Memory ?wh))"
    using plain_edges by (simp_all add: new_hist_def f64_consts)
  have o: "parsePercentile (LowerBoundPercentile (RecommenderPolicy demo_spec)) (Fin 50) \<le>
      parsePercentile (TargetPercentile (RecommenderPolicy demo_spec)) (Fin 90)"
    "parsePercentile (TargetPercentile (RecommenderPolicy demo_spec)) (Fin 90) \<le>
      parsePercentile (UpperBoundPercentile (RecommenderPolicy demo_spec)) (Fin 95)"
    unfolding policy(1) demo_percentiles by simp_all
  have a: "0 \<le> Hour" "Hour < 2 ^ 63" "is_int32 (SafetyMarginPercentage (RecommenderPolicy demo_spec))"
    unfolding policy(1) by (simp_all add: demo_policy_def in_width_def)
  have "quantities_ordered demo_quantity (pl_LowerBound (rec_PodLevel rec)) (pl_Target (rec_PodLevel rec)) (pl_UpperBound (rec_PodLevel rec))"
    by (rule conjunct1 [OF recommendation_ordered [OF plain_aggregate r(1) h o plain_laws(1) a policy(2) up]])
  then show ?thesis using r by (intro exI [of _ rec] conjI)
qed

text \<open>
  \<open>uniqueContainerNames\<close> lists every container name that occurs in some
  recommendation exactly once, in the order of first occurrence.
\<close>

theorem container_names_unique:
  "uniqueContainerNames prrs =
     rev (remdups (rev (concat
       (map (\<lambda>p. map cr_ContainerName (ContainerRecommendations (prr_Status p))) prrs))))"
  by (simp add: uniqueContainerNames_def unique_prrs_loop_concat unique_loop_remdups)

text \<open>
  Every container of the workload is given the whole pod's figures: the recommendation
  has one entry per container name, and each entry repeats the pod-level lower bound, target
  and upper bound, however many containers share the pod.
\<close>

theorem containers_get_pod_total:
  assumes "Recommend m c q prrs spec age = Ret (Inr r)"
  shows "map cr_ContainerName (rec_ContainerRecommendations r) = uniqueContainerNames prrs \<and>
    rec_PodLevelTarget r = pl_Target (rec_PodLevel r) \<and>
    (\<forall>e \<in> set (rec_ContainerRecommendations r).
       cr_LowerBound e = pl_LowerBound (rec_PodLevel r) \<and> cr_Target e = pl_Target (rec_PodLevel r) \<and>
       cr_UpperBound e = pl_UpperBound (rec_PodLevel r))"
  using assms
  by (auto simp: Recommend_def podLevelList_def container_rec_def comp_def Let_def
      elim!: go_bind_RetE split: sum.split_asm)

theorem containers_get_pod_total_witness:
  "\<exists>r. Recommend flat_math demo_codec demo_quantity [demo_prr [] [''app'', ''log'', ''app''] None] demo_spec Hour = Ret (Inr r) \<and>
     map cr_ContainerName (rec_ContainerRecommendations r) = [''app'', ''log''] \<and>
     (\<forall>e \<in> set (rec_ContainerRecommendations r). cr_Target e = rec_PodLevelTarget r)"
proof -
  obtain wh where "NewWorkloadHistograms flat_math = Ret (Inr wh)"
    using NewWorkloadHistograms_wf [of flat_math] by (auto simp: flat_buckets max_slice_len_def)
  then obtain r where r: "Recommend flat_math demo_codec demo_quantity [demo_prr [] [''app'', ''log'', ''app''] None] demo_spec Hour = Ret (Inr r)"
    by (simp add: Recommend_def Aggregate_def aggregate_step_def demo_prr_def demo_status_def Let_def)
  have "uniqueContainerNames [demo_prr [] [''app'', ''log'', ''app''] None] = [''app'', ''log'']"
    by (simp add: uniqueContainerNames_def demo_prr_def demo_status_def)
  then show ?thesis using r containers_get_pod_total [OF r] by auto
qed

text \<open>
  A workload checkpoint restores both histograms it was written from, given that the two
  codecs invert each other on the values written.
\<close>

theorem workload_checkpoint_roundtrip:
  assumes "wf_hist m (wh_CPU wh)" "Validate (opts (wh_CPU wh)) = None" "h_n (wh_CPU wh) \<le> max_slice_len"
    and "codec_ok c (checkpoint_of (wh_CPU wh))" "is_int64 (referenceTime (wh_CPU wh))"
    and "wf_hist m (wh_Memory wh)" "Validate (opts (wh_Memory wh)) = None" "h_n (wh_Memory wh) \<le> max_slice_len"
    and "codec_ok c (checkpoint_of (wh_Memory wh))" "is_int64 (referenceTime (wh_Memory wh))"
    and "Encode c (wh_CPU wh) = Inr s" "Encode c (wh_Memory wh) = Inr t"
    and "codec_ok cw \<lparr>wc_CPU = s, wc_Memory = t, wc_Time = UnixNano now\<rparr>"
  shows "\<exists>s. EncodeWorkload c cw wh now = Inr s \<and> DecodeWorkload m c cw s = Ret (Inr wh)"
proof -
  have s: "Decode m c s = Ret (Inr (wh_CPU wh))"
    using Decode_Encode [OF assms(1-4)] assms(5,11) by (auto simp: UnixNano_Unix)
  have t: "Decode m c t = Ret (Inr (wh_Memory wh))"
    using Decode_Encode [OF assms(6-9)] assms(10,12) by (auto simp: UnixNano_Unix)
  show ?thesis
    using s t assms(11-13) by (auto simp: EncodeWorkload_def DecodeWorkload_def codec_ok_def)
qed

definition demo_workload_codec :: "workload_checkpoint codec" where
  "demo_workload_codec =
     \<lparr>gob_encode = (\<lambda>_. Inr ''gob''),
      gob_decode = (\<lambda>_. Inr \<lparr>wc_CPU = ''Zgob'', wc_Memory = ''Zgob'', wc_Time = 7\<rparr>),
      base64_encode = (\<lambda>b. ''Z'' @ b), base64_decode = (\<lambda>s. Inr (tl s))\<rparr>"

theorem workload_checkpoint_roundtrip_witness:
  "\<exists>s. EncodeWorkload demo_codec demo_workload_codec \<lparr>wh_CPU = demo_hist, wh_Memory = demo_hist\<rparr> 7 = Inr s \<and>
     DecodeWorkload step_math demo_codec demo_workload_codec s = Ret (Inr \<lparr>wh_CPU = demo_hist, wh_Memory = demo_hist\<rparr>)"
proof (rule workload_checkpoint_roundtrip)
  show "codec_ok demo_workload_codec \<lparr>wc_CPU = ''Zgob'', wc_Memory = ''Zgob'', wc_Time = UnixNano 7\<rparr>"
    by (simp add: codec_ok_def demo_workload_codec_def UnixNano_def wrap_def)
qed (use demo_wf in \<open>simp_all add: demo_hist_def demo_options_def Validate_def f64_consts max_slice_len_def
      codec_ok_def demo_codec_def in_width_def Encode_def\<close>)

end
