(* ===== verification/Handover.thy ===== *)
theory Handover
  imports Agent RecommenderProps
begin

text \<open>
  The checkpoint that connects the components: the node agent writes its CPU histogram into the
  status of a recommendation, an agent that starts later reads it back when it registers the
  pod, and the recommender of the manager reads it when it aggregates. Both readers merge into
  a fresh histogram, which restores what was written except for a reference time outside the
  range of Unix nanoseconds, the unset one in particular.
\<close>

section \<open>Merging into a fresh histogram\<close>

lemma plus_zero: "weight_ok x \<Longrightarrow> 0 + x = x"
  using weight_okD [of x] by (auto simp: f64)

lemma map2_zero: "list_all weight_ok xs \<Longrightarrow> map2 (+) (replicate (length xs) 0) xs = xs"
  by (induction xs) (simp_all add: plus_zero)

lemma opts_eq_default: "opts_eq DefaultCPUOptions DefaultCPUOptions"
  by code_simp

lemma Merge_fresh:
  assumes "New m DefaultCPUOptions = Ret (Inr f)" "wf_hist m g" "opts g = DefaultCPUOptions"
    and "weights_ok g" "zero_time \<le> referenceTime g"
  shows "Merge m f g = Ret (None, g)"
proof -
  have f: "wf_hist m f" "opts f = DefaultCPUOptions" "IsZero (referenceTime f)" "totalWeight f = 0" "h_n f = h_n g"
    "buckets f = replicate (length (buckets g)) 0"
    using New_wf [OF assms(1)] assms(1-3) by (auto simp: New_cases wf_hist_def IsZero_def)
  have t: "merge_time f g = referenceTime g" using f(3) assms(5) by (simp add: merge_time_def IsZero_def)
  have s: "shiftReference m g (referenceTime g) = g" by (simp add: shiftReference_def)
  have r: "shiftReference m f (referenceTime g) = f\<lparr>referenceTime := referenceTime g\<rparr>" using f(3) by (simp add: shiftReference_def)
  have o: "opts_eq (opts f) (opts g)" using f(2) assms(3) opts_eq_default by simp
  have z: "0 + totalWeight g = totalWeight g" using assms(4) by (simp add: weights_ok_def plus_zero)
  have "map2 (+) (buckets f) (buckets g) = buckets g"
    unfolding f(6) using assms(4) by (intro map2_zero) (simp add: weights_ok_def)
  then show ?thesis
    using f(2,4,5) assms(3) z by (simp add: Merge_eq [OF f(1) assms(2) o] t r s Let_def)
qed

section \<open>What was written is what is read\<close>

text \<open>
  What is relied on of the server: the status of an accepted patch is what it reads back, and
  of the encoding, that it is not empty, since an empty checkpoint counts as none.
\<close>

definition status_server :: "('q, 'w) prr_client \<Rightarrow> bool" where
  "status_server cl \<longleftrightarrow>
     (\<forall>w p b w' ns n. pc_get cl w ns n = Inr b \<longrightarrow> prr_meta p = prr_meta b \<longrightarrow> pc_patch_status cl w p b = (w', None) \<longrightarrow>
        (\<exists>p'. pc_get cl w' ns n = Inr p' \<and>
           HistogramCheckpoint (prr_Status p') = HistogramCheckpoint (prr_Status p)))"

lemma checkpoint_Write_stores:
  assumes "status_server cl" "checkpoint_Write c cl w ns n h = (w', None)" "pc_get cl w' ns n = Inr p"
  shows "Encode c h = Inr (HistogramCheckpoint (prr_Status p))"
proof -
  obtain enc p0 where e: "Encode c h = Inr enc" and g: "pc_get cl w ns n = Inr p0"
    and u: "pc_patch_status cl w (p0\<lparr>prr_Status := (prr_Status p0)\<lparr>HistogramCheckpoint := enc\<rparr>\<rparr>) p0 = (w', None)"
    using assms(2) by (auto simp: checkpoint_Write_def split: sum.split_asm)
  from assms(1) [unfolded status_server_def, rule_format, OF g _ u] show ?thesis using e assms(3) by simp
qed

text \<open>
  A histogram as the agent keeps it: default CPU options, as many buckets as they ask for,
  weights that are non-negative numbers; it need not hold a sample. The codec gives back what
  it was given, and an encoding that is not empty. What is read back has the reference time
  as it survives Unix nanoseconds.
\<close>

definition storable :: "go_math \<Rightarrow> checkpoint codec \<Rightarrow> histogram \<Rightarrow> bool" where
  "storable m c h \<longleftrightarrow>
     wf_hist m h \<and> opts h = DefaultCPUOptions \<and> weights_ok h \<and> codec_ok c (checkpoint_of h) \<and> Encode c h \<noteq> Inr []"

definition read_back :: "histogram \<Rightarrow> histogram" where
  "read_back h = h\<lparr>referenceTime := time_Unix (UnixNano (referenceTime h))\<rparr>"

lemma read_back_same: "is_int64 (referenceTime h) \<Longrightarrow> read_back h = h"
  by (simp add: read_back_def UnixNano_Unix)

lemma read_back_zero: "IsZero (referenceTime h) \<Longrightarrow> referenceTime (read_back h) = - 6795364578871345152"
  by (simp add: read_back_def IsZero_def zero_time_def time_Unix_def UnixNano_def wrap_def)

lemma read_back_time: "zero_time \<le> referenceTime (read_back h)"
proof -
  have "- (2 ^ 63) \<le> UnixNano (referenceTime h)" by (simp add: UnixNano_def wrap_def)
  then show ?thesis by (simp add: read_back_def time_Unix_def zero_time_def)
qed

lemma read_back_parts:
  "wf_hist m (read_back h) \<longleftrightarrow> wf_hist m h" "opts (read_back h) = opts h" "weights_ok (read_back h) \<longleftrightarrow> weights_ok h"
  by (simp_all add: read_back_def wf_hist_def weights_ok_def)

lemma storable_fresh:
  assumes "storable m c h" "numBuckets m DefaultCPUOptions \<le> max_slice_len" "Encode c h = Inr s"
  shows "Decode m c s = Ret (Inr (read_back h))" "s \<noteq> []"
    "\<exists>f. New m DefaultCPUOptions = Ret (Inr f) \<and> Merge m f (read_back h) = Ret (None, read_back h)"
proof -
  have n: "h_n h \<le> max_slice_len" "Validate (opts h) = None"
    using assms(1,2) Validate_defaults by (simp_all add: storable_def wf_hist_def)
  show "Decode m c s = Ret (Inr (read_back h))"
    using Decode_Encode [of m h c] assms(1,3) n by (auto simp: storable_def read_back_def)
  show "s \<noteq> []" using assms(1,3) by (auto simp: storable_def)
  obtain f where f: "New m DefaultCPUOptions = Ret (Inr f)" using assms(2) Validate_defaults New_cases by blast
  then show "\<exists>f. New m DefaultCPUOptions = Ret (Inr f) \<and> Merge m f (read_back h) = Ret (None, read_back h)"
    using Merge_fresh [OF f, of "read_back h"] read_back_time assms(1) by (auto simp: storable_def read_back_parts)
qed

lemma restored:
  assumes "storable m c h" "numBuckets m DefaultCPUOptions \<le> max_slice_len" "Encode c h = Inr s"
    and "NewCPUStream m = Ret (Inr cs)"
  shows "restore_checkpoint m c cs s = Ret \<lparr>cs_h = read_back h\<rparr>"
  using storable_fresh [OF assms(1-3)] assms(4)
  by (auto simp: restore_checkpoint_def NewCPUStream_def cpu_Snapshot_def)

lemma aggregated:
  assumes "storable m c h" "numBuckets m DefaultCPUOptions \<le> max_slice_len" "numBuckets m DefaultMemoryOptions \<le> max_slice_len"
    and "Encode c h = Inr (HistogramCheckpoint (prr_Status p))"
  shows "\<exists>wh. Aggregate m c [p] = Ret (Inr wh) \<and> wh_CPU wh = read_back h \<and> IsEmpty (wh_Memory wh)"
proof -
  note s = storable_fresh [OF assms(1,2,4)]
  obtain f where f: "New m DefaultCPUOptions = Ret (Inr f)" "Merge m f (read_back h) = Ret (None, read_back h)"
    using s(3) by blast
  obtain g where g: "New m DefaultMemoryOptions = Ret (Inr g)" using assms(3) Validate_defaults New_cases by blast
  have "\<not> Fin (2 ^ 30) \<le> MaxValue (opts (read_back h))"
    using assms(1) by (simp add: storable_def read_back_parts DefaultCPUOptions_def)
  then show ?thesis
    using s(1,2) f g New_wf(4) [OF g] by (simp add: Aggregate_def NewWorkloadHistograms_def aggregate_step_def)
qed

text \<open>
  (C7) What connects the components: once the node agent has stored its CPU histogram of a pod,
  an agent that registers the pod anew continues with that histogram, and the recommender
  aggregates the recommendation to the same one for CPU and to none for memory. It has the
  buckets and weights that were stored. Its reference time, and so the whole histogram, is
  the stored one when that fits 64-bit Unix nanoseconds; a histogram that never received a
  sample comes back with a reference time in the year 1754. This is for a histogram with the
  default options, the bucket count they ask for (no more than a slice holds) and weights
  that are non-negative numbers, for a codec that gives back what it encoded, never as the
  empty string, and for a server that stores the status it accepted.
\<close>

theorem checkpoint_handover:
  assumes "status_server cl" "storable m c h"
    and "numBuckets m DefaultCPUOptions \<le> max_slice_len" "numBuckets m DefaultMemoryOptions \<le> max_slice_len"
    and "checkpoint_Write c cl w ns n h = (w', None)" "pc_get cl w' ns n = Inr p"
    and "a_pods a (pi_uid pod) = None" "EnsurePod m fs c a pod p = Ret (None, a')"
  shows "\<exists>g st wh. a_pods a' (pi_uid pod) = Some st \<and> cpu_Snapshot (ps_cpu st) = g \<and>
    Aggregate m c [p] = Ret (Inr wh) \<and> wh_CPU wh = g \<and> IsEmpty (wh_Memory wh) \<and>
    g = h\<lparr>referenceTime := referenceTime g\<rparr> \<and> (is_int64 (referenceTime h) \<longrightarrow> g = h) \<and>
    (IsZero (referenceTime h) \<longrightarrow> referenceTime g = - 6795364578871345152)"
proof -
  note e = checkpoint_Write_stores [OF assms(1,5,6)]
  obtain wh where wh: "Aggregate m c [p] = Ret (Inr wh)" "wh_CPU wh = read_back h" "IsEmpty (wh_Memory wh)"
    using aggregated [OF assms(2-4) e] by blast
  obtain cs cs' st where "NewCPUStream m = Ret (Inr cs)"
    "restore_checkpoint m c cs (HistogramCheckpoint (prr_Status p)) = Ret cs'"
    "a_pods a' (pi_uid pod) = Some st" "ps_cpu st = cs'"
    using assms(7,8) by (auto simp: EnsurePod_def Let_def elim!: go_bind_RetE split: sum.split_asm)
  then have st: "a_pods a' (pi_uid pod) = Some st" "cpu_Snapshot (ps_cpu st) = read_back h"
    using restored [OF assms(2,3) e] by (auto simp: cpu_Snapshot_def)
  have "read_back h = h\<lparr>referenceTime := referenceTime (read_back h)\<rparr>" by (simp add: read_back_def)
  then show ?thesis
    using wh st read_back_same [of h] read_back_zero [of h] by (intro exI [of _ "read_back h"] exI [of _ st] exI [of _ wh]) simp
qed

text \<open>
  Which case the code meets: sampling leaves the CPU histograms alone, so the agent stores
  what a pod was registered with, the empty histogram unless a checkpoint was there.
\<close>

lemma sample_pod_cpu: "sample_pod m fs st t = Ret st' \<Longrightarrow> ps_cpu st' = ps_cpu st"
  by (auto simp: sample_pod_def sample_memory_def sample_oom_def elim!: go_bind_RetE split: sum.split_asm if_split_asm)

lemma sampleAll_loop_cpu:
  "sampleAll_loop m fs t uids pods = Ret pods' \<Longrightarrow> map_option ps_cpu (pods' uid) = map_option ps_cpu (pods uid)"
proof (induction uids arbitrary: pods)
  case (Cons u us)
  show ?case
  proof (cases "pods u")
    case (Some st)
    then obtain st' where st': "sample_pod m fs st t = Ret st'" "sampleAll_loop m fs t us (pods(u \<mapsto> st')) = Ret pods'"
      using Cons.prems by (auto elim!: go_bind_RetE)
    show ?thesis using Cons.IH [OF st'(2)] sample_pod_cpu [OF st'(1)] Some by (cases "uid = u") simp_all
  qed (use Cons in simp)
qed simp

lemma sampling_leaves_cpu:
  "sampleAll m fs a order t = Ret a' \<Longrightarrow> map_option ps_cpu (a_pods a' uid) = map_option ps_cpu (a_pods a uid)"
  by (auto simp: sampleAll_def elim!: go_bind_RetE intro: sampleAll_loop_cpu)

text \<open>
  One bucket, once with one sample and once unused, and a server that keeps a single
  recommendation.
\<close>

definition demo_stored :: "rat \<Rightarrow> time \<Rightarrow> histogram" where
  "demo_stored x t = \<lparr>opts = DefaultCPUOptions, h_n = 1, buckets = [Fin x], totalWeight = Fin x, referenceTime = t\<rparr>"

definition demo_codec_of :: "histogram \<Rightarrow> checkpoint codec" where
  "demo_codec_of h = demo_codec\<lparr>gob_decode := (\<lambda>_. Inr (checkpoint_of h))\<rparr>"

definition demo_prr_client :: "(int, int prr) prr_client" where
  "demo_prr_client = \<lparr>pc_get = (\<lambda>w _ _. Inr w), pc_patch_status = (\<lambda>w p _. (p, None))\<rparr>"

lemma demo_storable:
  assumes "x = 0 \<or> x = 1"
  shows "storable flat_math (demo_codec_of (demo_stored x t)) (demo_stored x t)"
    "Encode (demo_codec_of (demo_stored x t)) h = Inr ''Zgob''"
proof -
  have e: "Encode (demo_codec_of (demo_stored x t)) h = Inr ''Zgob''" for h
    by (simp add: Encode_def demo_codec_of_def demo_codec_def)
  then show "Encode (demo_codec_of (demo_stored x t)) h = Inr ''Zgob''" .
  have "wf_hist flat_math (demo_stored x t)" by (simp add: wf_hist_def demo_stored_def flat_buckets)
  moreover have "weight_ok (Fin 0)" "weight_ok (Fin 1)" by code_simp+
  then have "weights_ok (demo_stored x t)" using assms by (auto simp: weights_ok_def demo_stored_def)
  moreover have "codec_ok (demo_codec_of (demo_stored x t)) (checkpoint_of (demo_stored x t))"
    by (simp add: codec_ok_def demo_codec_of_def demo_codec_def)
  moreover have "opts (demo_stored x t) = DefaultCPUOptions" by (simp add: demo_stored_def)
  ultimately show "storable flat_math (demo_codec_of (demo_stored x t)) (demo_stored x t)"
    using e by (simp add: storable_def)
qed

text \<open>With a sample the histogram is restored; without one its reference time is another.\<close>

theorem checkpoint_handover_witness:
  "(\<exists>a' st. EnsurePod flat_math demo_fs (demo_codec_of (demo_stored 1 5)) demo_agent demo_guaranteed (demo_prr ''Zgob'' [] None) = Ret (None, a') \<and>
     a_pods a' ''u-1'' = Some st \<and> cpu_Snapshot (ps_cpu st) = demo_stored 1 5) \<and>
   (\<exists>a' st. EnsurePod flat_math demo_fs (demo_codec_of (demo_stored 0 zero_time)) demo_agent demo_guaranteed (demo_prr ''Zgob'' [] None) = Ret (None, a') \<and>
     a_pods a' ''u-1'' = Some st \<and> cpu_Snapshot (ps_cpu st) = demo_stored 0 (- 6795364578871345152))"
proof -
  let ?p = "demo_prr ''Zgob'' [] None" and ?c = "\<lambda>x t. demo_codec_of (demo_stored x t)"
  have server: "status_server demo_prr_client" by (simp add: status_server_def demo_prr_client_def)
  have n: "numBuckets flat_math o' \<le> max_slice_len" for o' by (simp add: flat_buckets max_slice_len_def)
  have g: "pc_get demo_prr_client ?p ''ns'' ''prr'' = Inr ?p" by (simp add: demo_prr_client_def)
  have free: "a_pods demo_agent (pi_uid demo_guaranteed) = None" by (simp add: demo_agent_def)
  obtain cs where cs: "NewCPUStream flat_math = Ret (Inr cs)"
    by (simp add: NewCPUStream_def New_def Validate_defaults flat_buckets max_slice_len_def)
  have path: "PodPath demo_fs [] ''u-1'' Guaranteed = Inr ''/sys/fs/cgroup/kubepods.slice/kubepods-podu_1.slice''"
    by code_simp
  have id: "pi_uid demo_guaranteed = ''u-1''" by (simp add: demo_guaranteed_def)
  have run: "\<exists>a' st g. EnsurePod flat_math demo_fs (?c x t) demo_agent demo_guaranteed ?p = Ret (None, a') \<and>
      a_pods a' ''u-1'' = Some st \<and> cpu_Snapshot (ps_cpu st) = g \<and> g = (demo_stored x t)\<lparr>referenceTime := referenceTime g\<rparr> \<and>
      (is_int64 t \<longrightarrow> g = demo_stored x t) \<and> (IsZero t \<longrightarrow> referenceTime g = - 6795364578871345152)"
    if x: "x = 0 \<or> x = 1" for x t
  proof -
    note s = demo_storable [OF x, of t]
    have w: "checkpoint_Write (?c x t) demo_prr_client (demo_prr [] [] None) ''ns'' ''prr'' (demo_stored x t) = (?p, None)"
      by (simp add: checkpoint_Write_def s(2) demo_prr_client_def demo_prr_def demo_status_def)
    have "restore_checkpoint flat_math (?c x t) cs (HistogramCheckpoint (prr_Status ?p)) = Ret \<lparr>cs_h = read_back (demo_stored x t)\<rparr>"
      using restored [OF s(1) n s(2) cs] by (simp add: demo_prr_def demo_status_def)
    then obtain a' where a': "EnsurePod flat_math demo_fs (?c x t) demo_agent demo_guaranteed ?p = Ret (None, a')"
      using cs free path by (auto simp: EnsurePod_def demo_agent_def demo_config_def demo_guaranteed_def NewMemoryPeakExtractor_def
          New_def Validate_defaults flat_buckets max_slice_len_def Let_def)
    have "referenceTime (demo_stored x t) = t" by (simp add: demo_stored_def)
    then show ?thesis using a' checkpoint_handover [OF server s(1) n n w g free a'] unfolding id by auto
  qed
  obtain a1 st1 where "EnsurePod flat_math demo_fs (?c 1 5) demo_agent demo_guaranteed ?p = Ret (None, a1)"
    "a_pods a1 ''u-1'' = Some st1" "cpu_Snapshot (ps_cpu st1) = demo_stored 1 5"
    using run [of 1 5] by (auto simp: in_width_def)
  moreover obtain a2 st2 g2 where "EnsurePod flat_math demo_fs (?c 0 zero_time) demo_agent demo_guaranteed ?p = Ret (None, a2)"
    "a_pods a2 ''u-1'' = Some st2" "cpu_Snapshot (ps_cpu st2) = g2" "g2 = (demo_stored 0 zero_time)\<lparr>referenceTime := referenceTime g2\<rparr>"
    "referenceTime g2 = - 6795364578871345152"
    using run [of 0 zero_time] by (auto simp: IsZero_def)
  moreover have "(demo_stored 0 zero_time)\<lparr>referenceTime := t\<rparr> = demo_stored 0 t" for t by (simp add: demo_stored_def)
  ultimately show ?thesis by (metis (no_types))
qed

end
