(* ===== verification/Eviction.thy ===== *)
theory Eviction
  imports Kube GoText
begin

text \<open>
  Package \<open>eviction\<close>: the anomaly handler, the budgeted surge-then-evict handler and the
  eviction call. \<open>intstr.GetScaledValueFromIntOrPercent\<close> with rounding up is the parameter
  \<open>scaled\<close>.
\<close>

section \<open>Handlers\<close>

abbreviation AnnotationSurgePod :: string where
  "AnnotationSurgePod \<equiv> ''pp-vpa.brycemclachlan.me/surge''"

type_synonym scaler = "int_or_string \<Rightarrow> int \<Rightarrow> go_error + int"

definition evictPod :: "('q, 'w) client \<Rightarrow> 'w \<Rightarrow> 'q pod \<Rightarrow> 'w \<times> go_error option" where
  "evictPod cl w p =
     k_evict cl w p \<lparr>ev_namespace = om_namespace (pod_meta p), ev_name = om_name (pod_meta p)\<rparr>"

definition anomaly_Handle :: "('q, 'w) client \<Rightarrow> 'w \<Rightarrow> 'q prr \<Rightarrow> 'w \<times> go_error option" where
  "anomaly_Handle cl w prr =
     (case k_get_pod cl w (om_namespace (prr_meta prr)) (TargetPodName prr) of
        Inl e \<Rightarrow> (w, if has_reason NotFound e then None else Some e)
      | Inr p \<Rightarrow> evictPod cl w p)"

definition defaultPercent :: "nat \<Rightarrow> int_or_string" where
  "defaultPercent p = StrVal (dec p @ ''%'')"

definition resolveBudget :: "scaler \<Rightarrow> int_or_string option \<Rightarrow> int32 \<Rightarrow> int_or_string \<Rightarrow> int32" where
  "resolveBudget scaled b base dflt =
     (case b of
        None \<Rightarrow> (case scaled dflt base of Inl _ \<Rightarrow> 0 | Inr x \<Rightarrow> wrap32 x)
      | Some v \<Rightarrow> (case scaled v base of Inl _ \<Rightarrow> 0 | Inr x \<Rightarrow> wrap32 x))"

definition surge_annotated :: "'q pod \<Rightarrow> bool" where
  "surge_annotated p \<longleftrightarrow> om_annotations (pod_meta p) AnnotationSurgePod = Some ''true''"

fun first_surge :: "'q pod list \<Rightarrow> 'q pod option" where
  "first_surge [] = None"
| "first_surge (p # ps) = (if surge_annotated p then Some p else first_surge ps)"

definition findSurgePod :: "('q, 'w) client \<Rightarrow> 'w \<Rightarrow> 'q ppvpa \<Rightarrow> go_error + 'q pod option" where
  "findSurgePod cl w v =
     (case k_list_pods cl w (om_namespace (ppvpa_meta v)) of
        Inl e \<Rightarrow> Inl e
      | Inr ps \<Rightarrow> Inr (first_surge ps))"

definition podReady :: "'q pod \<Rightarrow> bool" where
  "podReady p = hasCondition (pod_conditions p) ''Ready''"

definition with_temporary :: "'q ppvpa \<Rightarrow> int32 \<Rightarrow> 'q ppvpa" where
  "with_temporary v n = v\<lparr>ppvpa_Status := (ppvpa_Status v)\<lparr>TemporaryReplicas := n\<rparr>\<rparr>"

definition decremented :: "'q ppvpa \<Rightarrow> 'q ppvpa" where
  "decremented v =
     (let n = TemporaryReplicas (ppvpa_Status v) in if 0 < n then with_temporary v (wrap32 (n - 1)) else v)"

text \<open>\<open>time.Duration(seconds) * time.Second\<close> in 64 bits, added to the creation time.\<close>

definition burst_expired :: "'q ppvpa \<Rightarrow> 'q prr \<Rightarrow> time \<Rightarrow> bool" where
  "burst_expired v prr now \<longleftrightarrow>
     (let s = BurstTimeoutSeconds (UpdatePolicy (ppvpa_Spec v))
      in 0 < s \<and> om_creationTimestamp (prr_meta prr) + wrap64 (s * Second) < now)"

definition surge_budget :: "scaler \<Rightarrow> 'q ppvpa \<Rightarrow> int32" where
  "surge_budget scaled v =
     resolveBudget scaled (MaxSurge (InfeasibleUpdateBehavior (UpdatePolicy (ppvpa_Spec v))))
       (ActiveReplicas (ppvpa_Status v)) (defaultPercent 25)"

definition budgeted_Handle ::
  "('q, 'w) client \<Rightarrow> scaler \<Rightarrow> 'w \<Rightarrow> 'q ppvpa \<Rightarrow> 'q prr \<Rightarrow> time \<Rightarrow> 'w \<times> go_error option" where
  "budgeted_Handle cl scaled w v prr now =
     (let maxSurge = surge_budget scaled v;
          temp = TemporaryReplicas (ppvpa_Status v)
      in if temp < maxSurge then
           (case k_patch_ppvpa_status cl w (with_temporary v (wrap32 (temp + 1))) v of
              (w', None) \<Rightarrow> (w', None)
            | (w', Some e) \<Rightarrow> (w', Some (Wrap ''bumping temporaryReplicas'' e)))
         else
           (case findSurgePod cl w v of
              Inl e \<Rightarrow> (w, Some e)
            | Inr surge \<Rightarrow>
                if surge = None \<or> \<not> podReady (the surge) then
                  (if burst_expired v prr now then k_patch_ppvpa_status cl w (decremented v) v
                   else (w, None))
                else
                  (case k_get_pod cl w (om_namespace (prr_meta prr)) (TargetPodName prr) of
                     Inl e \<Rightarrow> (w, if has_reason NotFound e then None else Some e)
                   | Inr p \<Rightarrow>
                       (case evictPod cl w p of
                          (w', Some e) \<Rightarrow> (w', Some e)
                        | (w', None) \<Rightarrow> k_patch_ppvpa_status cl w' (decremented v) v))))"

section \<open>The handler as a decision and its execution\<close>

datatype 'q action = Bump | Wait | Rollback | Gone | EvictPod "'q pod" | Fail go_error

text \<open>What one call decides, as a pure function of what it reads.\<close>

definition decide ::
  "('q, 'w) client \<Rightarrow> scaler \<Rightarrow> 'w \<Rightarrow> 'q ppvpa \<Rightarrow> 'q prr \<Rightarrow> time \<Rightarrow> 'q action" where
  "decide cl scaled w v prr now =
     (if TemporaryReplicas (ppvpa_Status v) < surge_budget scaled v then Bump
      else
        (case k_list_pods cl w (om_namespace (ppvpa_meta v)) of
           Inl e \<Rightarrow> Fail e
         | Inr ps \<Rightarrow>
             (case List.find surge_annotated ps of
                Some s \<Rightarrow>
                  if podReady s then
                    (case k_get_pod cl w (om_namespace (prr_meta prr)) (TargetPodName prr) of
                       Inl e \<Rightarrow> if has_reason NotFound e then Gone else Fail e
                     | Inr p \<Rightarrow> EvictPod p)
                  else if burst_expired v prr now then Rollback else Wait
              | None \<Rightarrow> if burst_expired v prr now then Rollback else Wait)))"

definition temp_after :: "'q ppvpa \<Rightarrow> 'q action \<Rightarrow> int32" where
  "temp_after v a =
     (let n = TemporaryReplicas (ppvpa_Status v)
      in case a of
           Bump \<Rightarrow> wrap32 (n + 1)
         | Rollback \<Rightarrow> max 0 (n - 1)
         | EvictPod _ \<Rightarrow> max 0 (n - 1)
         | _ \<Rightarrow> n)"

definition perform ::
  "('q, 'w) client \<Rightarrow> 'w \<Rightarrow> 'q ppvpa \<Rightarrow> 'q action \<Rightarrow> 'w \<times> go_error option" where
  "perform cl w v a =
     (case a of
        Bump \<Rightarrow>
          (let (w', e) = k_patch_ppvpa_status cl w (with_temporary v (temp_after v a)) v
           in (w', map_option (Wrap ''bumping temporaryReplicas'') e))
      | Wait \<Rightarrow> (w, None)
      | Gone \<Rightarrow> (w, None)
      | Fail e \<Rightarrow> (w, Some e)
      | Rollback \<Rightarrow> k_patch_ppvpa_status cl w (with_temporary v (temp_after v a)) v
      | EvictPod p \<Rightarrow>
          (case evictPod cl w p of
             (w', Some e) \<Rightarrow> (w', Some e)
           | (w', None) \<Rightarrow> k_patch_ppvpa_status cl w' (with_temporary v (temp_after v a)) v))"

lemma first_surge_find: "first_surge ps = List.find surge_annotated ps"
  by (induction ps) simp_all

lemma with_temporary_same [simp]: "with_temporary v (TemporaryReplicas (ppvpa_Status v)) = v"
  by (simp add: with_temporary_def)

lemma decremented_eq:
  assumes "is_int32 (TemporaryReplicas (ppvpa_Status v))" "0 \<le> TemporaryReplicas (ppvpa_Status v)"
  shows "decremented v = with_temporary v (max 0 (TemporaryReplicas (ppvpa_Status v) - 1))"
proof (cases "0 < TemporaryReplicas (ppvpa_Status v)")
  case True
  then have "is_int32 (TemporaryReplicas (ppvpa_Status v) - 1)" using assms by (simp add: in_width_def)
  then have "wrap32 (TemporaryReplicas (ppvpa_Status v) - 1) = TemporaryReplicas (ppvpa_Status v) - 1"
    by (intro wrap_id) simp_all
  then show ?thesis using True by (simp add: decremented_def Let_def)
next
  case False
  then have "TemporaryReplicas (ppvpa_Status v) = 0" using assms(2) by simp
  then show ?thesis using with_temporary_same [of v] by (simp add: decremented_def)
qed

lemma budgeted_refines_decision_aux:
  assumes "is_int32 (TemporaryReplicas (ppvpa_Status v))" "0 \<le> TemporaryReplicas (ppvpa_Status v)"
  shows "budgeted_Handle cl scaled w v prr now = perform cl w v (decide cl scaled w v prr now)"
proof (cases "decide cl scaled w v prr now = Bump")
  case True
  then have "TemporaryReplicas (ppvpa_Status v) < surge_budget scaled v"
    by (auto simp: decide_def split: sum.split_asm option.split_asm if_split_asm)
  then show ?thesis unfolding True
    by (simp add: budgeted_Handle_def perform_def temp_after_def Let_def split: prod.split option.split)
next
  case False
  then have n: "\<not> TemporaryReplicas (ppvpa_Status v) < surge_budget scaled v" by (auto simp: decide_def)
  note d = decremented_eq [OF assms]
  show ?thesis
  proof (cases "k_list_pods cl w (om_namespace (ppvpa_meta v))")
    case (Inl e)
    then show ?thesis using n
      by (simp add: budgeted_Handle_def decide_def perform_def findSurgePod_def Let_def)
  next
    case (Inr ps)
    have f: "findSurgePod cl w v = Inr (List.find surge_annotated ps)"
      using Inr by (simp add: findSurgePod_def first_surge_find)
    show ?thesis
    proof (cases "\<exists>s. List.find surge_annotated ps = Some s \<and> podReady s")
      case True
      then obtain s where s: "List.find surge_annotated ps = Some s" "podReady s" by blast
      show ?thesis
        by (cases "k_get_pod cl w (om_namespace (prr_meta prr)) (TargetPodName prr)")
          (use n Inr f s d in \<open>simp_all add: budgeted_Handle_def decide_def perform_def
            temp_after_def Let_def\<close>)
    next
      case False
      then show ?thesis using n Inr f d
        by (cases "List.find surge_annotated ps")
          (auto simp: budgeted_Handle_def decide_def perform_def temp_after_def Let_def)
    qed
  qed
qed

text \<open>
  At the budget, as long as no pod carries the annotation or the first one that does is not
  Ready, a call does not get as far as the eviction.
\<close>

lemma at_budget_waits:
  assumes "\<not> TemporaryReplicas (ppvpa_Status v) < surge_budget scaled v"
    and "k_list_pods cl w (om_namespace (ppvpa_meta v)) = Inr ps"
    and "\<forall>s. List.find surge_annotated ps = Some s \<longrightarrow> \<not> podReady s"
  shows "budgeted_Handle cl scaled w v prr now =
    (if burst_expired v prr now then k_patch_ppvpa_status cl w (decremented v) v else (w, None))"
  using assms
  by (cases "List.find surge_annotated ps") (simp_all add: budgeted_Handle_def findSurgePod_def first_surge_find Let_def)

text \<open>
  (C19) One call of the budgeted handler is one decision of the state machine, executed: it
  bumps below the budget; at the budget it evicts only when an annotated pod is Ready and the
  target still exists, rolls back after the burst timeout, and otherwise waits. Nothing else
  is written, and every read or write error is passed on.
\<close>

theorem budgeted_refines_decision:
  assumes "is_int32 (TemporaryReplicas (ppvpa_Status v))" "0 \<le> TemporaryReplicas (ppvpa_Status v)"
  shows "budgeted_Handle cl scaled w v prr now = perform cl w v (decide cl scaled w v prr now)"
  using assms by (rule budgeted_refines_decision_aux)

definition demo_scaled :: scaler where
  "demo_scaled v base = (case v of IntVal n \<Rightarrow> Inr n | StrVal _ \<Rightarrow> Inr ((25 * base + 99) div 100))"

lemma demo_budget: "surge_budget demo_scaled (demo_ppvpa n) = 1"
  by (simp add: surge_budget_def resolveBudget_def demo_scaled_def demo_ppvpa_def demo_spec_def wrap_def)

theorem budgeted_refines_decision_witness:
  "budgeted_Handle mem_client demo_scaled demo_cluster (demo_ppvpa 0) (demo_prr [] [] None) 5 =
     (demo_cluster\<lparr>cl_ppvpas := [demo_ppvpa 1]\<rparr>, None)"
proof -
  have "decide mem_client demo_scaled demo_cluster (demo_ppvpa 0) (demo_prr [] [] None) 5 = Bump"
    unfolding decide_def demo_budget by (simp add: demo_ppvpa_def)
  then show ?thesis
    using budgeted_refines_decision [of "demo_ppvpa 0" mem_client demo_scaled demo_cluster "demo_prr [] [] None" 5]
    by (simp add: demo_ppvpa_def in_width_def perform_def temp_after_def with_temporary_def mem_client_def
        replace_object_def demo_cluster_def demo_meta_def named_def wrap_def)
qed

section \<open>The burst stays within its budget\<close>

text \<open>
  What the handler relies on of the server's bookkeeping, seen through \<open>temp\<close>, the stored
  number of temporary replicas: a status patch stores what it carries or changes nothing, an
  eviction does not touch it.
\<close>

definition temp_server :: "('q, 'w) client \<Rightarrow> ('w \<Rightarrow> int32) \<Rightarrow> bool" where
  "temp_server cl temp \<longleftrightarrow>
     (\<forall>w v v0. temp (fst (k_patch_ppvpa_status cl w v v0)) \<in> {temp w, TemporaryReplicas (ppvpa_Status v)}) \<and>
     (\<forall>w p ev. temp (fst (k_evict cl w p ev)) = temp w)"

text \<open>
  The states a burst can reach: it starts without temporary replicas; a handler call works on
  an object read now or, through a stale cache, at any earlier time, with some budget up to
  \<open>B\<close>; everything else that happens leaves the number alone.
\<close>

inductive burst :: "('q, 'w) client \<Rightarrow> scaler \<Rightarrow> ('w \<Rightarrow> int32) \<Rightarrow> int32 \<Rightarrow> 'w \<Rightarrow> bool"
  for cl scaled temp B where
  start: "temp w = 0 \<Longrightarrow> burst cl scaled temp B w"
| call: "burst cl scaled temp B w0 \<Longrightarrow> burst cl scaled temp B w \<Longrightarrow>
         TemporaryReplicas (ppvpa_Status v) = temp w0 \<Longrightarrow> surge_budget scaled v \<le> B \<Longrightarrow>
         budgeted_Handle cl scaled w v prr now = (w', e) \<Longrightarrow> burst cl scaled temp B w'"
| other: "burst cl scaled temp B w \<Longrightarrow> temp w' = temp w \<Longrightarrow> burst cl scaled temp B w'"

inductive_simps burst_simps: "burst cl scaled temp B w"

lemma temp_after_range:
  assumes "0 \<le> TemporaryReplicas (ppvpa_Status v)" "TemporaryReplicas (ppvpa_Status v) \<le> B" "B < 2 ^ 31"
    and "surge_budget scaled v \<le> B"
  shows "0 \<le> temp_after v (decide cl scaled w v prr now) \<and> temp_after v (decide cl scaled w v prr now) \<le> B"
proof (cases "decide cl scaled w v prr now = Bump")
  case True
  then have "TemporaryReplicas (ppvpa_Status v) < B"
    using assms(4) by (auto simp: decide_def split: sum.split_asm option.split_asm if_split_asm)
  moreover from this have "wrap32 (TemporaryReplicas (ppvpa_Status v) + 1) = TemporaryReplicas (ppvpa_Status v) + 1"
    using assms by (intro wrap_id) (simp_all add: in_width_def)
  ultimately show ?thesis using True assms(1) by (simp add: temp_after_def)
next
  case False
  then show ?thesis using assms
    by (cases "decide cl scaled w v prr now") (simp_all add: temp_after_def Let_def)
qed

lemma perform_temp:
  assumes "temp_server cl temp"
  shows "temp (fst (perform cl w v a)) \<in> {temp w, temp_after v a}"
proof -
  have s: "temp (fst (k_patch_ppvpa_status cl w1 (with_temporary v n) v)) \<in> {temp w1, n}" for w1 n
  proof -
    have "TemporaryReplicas (ppvpa_Status (with_temporary v n)) = n" by (simp add: with_temporary_def)
    then show ?thesis using assms unfolding temp_server_def by metis
  qed
  have e: "temp (fst (evictPod cl w p)) = temp w" for p
    using assms unfolding temp_server_def evictPod_def by blast
  show ?thesis
  proof (cases a)
    case (EvictPod p)
    obtain w1 r where r: "evictPod cl w p = (w1, r)" by (cases "evictPod cl w p")
    then have "temp w1 = temp w" using e [of p] by simp
    then show ?thesis using s [of w1 "temp_after v a"] r EvictPod by (cases r) (simp_all add: perform_def)
  qed (use s [of w "temp_after v a"] in \<open>auto simp: perform_def Let_def split: prod.split\<close>)
qed

lemma burst_range:
  assumes "burst cl scaled temp B w" "temp_server cl temp" "0 \<le> B" "B < 2 ^ 31"
  shows "0 \<le> temp w \<and> temp w \<le> B"
  using assms(1)
proof (induction rule: burst.induct)
  case (call w0 w v prr now w' e)
  have i: "is_int32 (TemporaryReplicas (ppvpa_Status v))" "0 \<le> TemporaryReplicas (ppvpa_Status v)"
    "TemporaryReplicas (ppvpa_Status v) \<le> B"
    using call assms(4) by (simp_all add: in_width_def)
  have "(w', e) = perform cl w v (decide cl scaled w v prr now)"
    using budgeted_refines_decision_aux [OF i(1,2), of cl scaled w prr now] call(5) by simp
  then have "w' = fst (perform cl w v (decide cl scaled w v prr now))" by (metis fst_conv)
  then have "temp w' \<in> {temp w, temp_after v (decide cl scaled w v prr now)}"
    using perform_temp [OF assms(2)] by simp
  then show ?case using temp_after_range [OF i(2,3) assms(4) call(4), of cl w prr now] call.IH by auto
qed (use assms(3) in auto)

subsection \<open>The contract of a handler\<close>

text \<open>
  What the recommendation controller relies on of the handlers it calls: from a state a
  burst can reach, with an object read in such a state, a handler leads to such a state.
\<close>

locale eviction_handler =
  fixes handle :: "('q, 'w) client \<Rightarrow> scaler \<Rightarrow> 'w \<Rightarrow> 'q ppvpa \<Rightarrow> 'q prr \<Rightarrow> time \<Rightarrow> 'w \<times> go_error option"
  assumes keeps_burst:
    "temp_server cl temp \<Longrightarrow> burst cl scaled temp B w0 \<Longrightarrow> burst cl scaled temp B w \<Longrightarrow>
     TemporaryReplicas (ppvpa_Status v) = temp w0 \<Longrightarrow> surge_budget scaled v \<le> B \<Longrightarrow>
     burst cl scaled temp B (fst (handle cl scaled w v p now))"
begin

lemma keeps_range:
  assumes "temp_server cl temp" "burst cl scaled temp B w" "0 \<le> B" "B < 2 ^ 31"
    and "TemporaryReplicas (ppvpa_Status v) = temp w" "surge_budget scaled v \<le> B"
  shows "0 \<le> temp (fst (handle cl scaled w v p now)) \<and> temp (fst (handle cl scaled w v p now)) \<le> B"
  using keeps_burst [OF assms(1,2,2,5,6)] by (rule burst_range) (use assms in simp_all)

end

lemma anomaly_Handle_temp: "temp_server cl temp \<Longrightarrow> temp (fst (anomaly_Handle cl w p)) = temp w"
  by (auto simp: anomaly_Handle_def temp_server_def evictPod_def split: sum.split)

interpretation anomaly_handler: eviction_handler "\<lambda>cl _ w _ p _. anomaly_Handle cl w p"
  by unfold_locales (metis burst.other anomaly_Handle_temp)

interpretation budgeted_handler: eviction_handler budgeted_Handle
  by unfold_locales (metis burst.call prod.collapse)

text \<open>
  (C6) The surge never leaves its budget: with a server that stores what it is sent, and
  whatever is evicted, fails, times out or is read from a stale cache in between, the number
  of temporary replicas stays between zero and the largest budget.
\<close>

theorem surge_within_budget:
  assumes "burst cl scaled temp B w" "temp_server cl temp" "0 \<le> B" "B < 2 ^ 31"
  shows "0 \<le> temp w \<and> temp w \<le> B"
  using assms by (rule burst_range)

definition stored_temp :: "'q cluster \<Rightarrow> int32" where
  "stored_temp w = TemporaryReplicas (ppvpa_Status (hd (cl_ppvpas w)))"

lemma mem_temp_server: "temp_server mem_client stored_temp"
proof -
  have "TemporaryReplicas (ppvpa_Status (hd (replace_object ppvpa_meta v xs))) \<in>
    {TemporaryReplicas (ppvpa_Status (hd xs)), TemporaryReplicas (ppvpa_Status v)}"
    for v :: "'a ppvpa" and xs
    by (cases xs) (simp_all add: replace_object_def)
  then show ?thesis by (simp add: temp_server_def mem_client_def stored_temp_def)
qed

lemma demo_bump:
  "budgeted_Handle mem_client demo_scaled (demo_cluster\<lparr>cl_ppvpas := [demo_ppvpa 0]\<rparr>) (demo_ppvpa 0)
     (demo_prr [] [] None) 5 = (demo_cluster, None)"
proof -
  have "TemporaryReplicas (ppvpa_Status (demo_ppvpa 0)) < surge_budget demo_scaled (demo_ppvpa 0)"
    unfolding demo_budget by (simp add: demo_ppvpa_def)
  then show ?thesis
    by (simp add: budgeted_Handle_def with_temporary_def mem_client_def replace_object_def demo_cluster_def
        demo_ppvpa_def demo_meta_def named_def wrap_def)
qed

theorem surge_within_budget_witness:
  "burst mem_client demo_scaled stored_temp 1 demo_cluster \<and> stored_temp demo_cluster = 1 \<and>
   0 \<le> stored_temp demo_cluster \<and> stored_temp demo_cluster \<le> 1"
proof -
  let ?w = "demo_cluster\<lparr>cl_ppvpas := [demo_ppvpa 0]\<rparr>"
  have "burst mem_client demo_scaled stored_temp 1 ?w"
    by (rule burst.start) (simp add: stored_temp_def demo_ppvpa_def)
  from burst.call [OF this this _ _ demo_bump]
  have b: "burst mem_client demo_scaled stored_temp 1 demo_cluster"
    unfolding demo_budget by (simp add: stored_temp_def demo_ppvpa_def)
  have "stored_temp demo_cluster = 1" by (simp add: stored_temp_def demo_cluster_def demo_ppvpa_def)
  then show ?thesis using b surge_within_budget [OF b mem_temp_server] by simp
qed

section \<open>A burst that never evicts\<close>

lemma find_unannotated: "\<forall>p \<in> set ps. \<not> surge_annotated p \<Longrightarrow> List.find surge_annotated ps = None"
  by (simp add: find_None_all)

text \<open>Below the budget a call is the bump, whatever the pods are.\<close>

lemma below_budget_bumps:
  assumes "TemporaryReplicas (ppvpa_Status v) < surge_budget scaled v"
  shows "budgeted_Handle cl scaled w v prr now =
    (let (w', e) = k_patch_ppvpa_status cl w (with_temporary v (wrap32 (TemporaryReplicas (ppvpa_Status v) + 1))) v
     in (w', map_option (Wrap ''bumping temporaryReplicas'') e))"
  using assms by (simp add: budgeted_Handle_def Let_def split: prod.split option.split)

lemma unannotated_call:
  assumes "k_list_pods cl w (om_namespace (ppvpa_meta v)) = Inr ps" "\<forall>p \<in> set ps. \<not> surge_annotated p"
  shows "budgeted_Handle cl scaled w v prr now =
    (if TemporaryReplicas (ppvpa_Status v) < surge_budget scaled v then
       (let (w', e) = k_patch_ppvpa_status cl w (with_temporary v (wrap32 (TemporaryReplicas (ppvpa_Status v) + 1))) v
        in (w', map_option (Wrap ''bumping temporaryReplicas'') e))
     else if burst_expired v prr now then k_patch_ppvpa_status cl w (decremented v) v
     else (w, None))"
proof (cases "TemporaryReplicas (ppvpa_Status v) < surge_budget scaled v")
  case True
  then show ?thesis using below_budget_bumps [OF True] by simp
next
  case False
  then show ?thesis using at_budget_waits [OF False assms(1)] find_unannotated [OF assms(2)] by simp
qed

text \<open>
  (C37) Without a pod that carries the surge annotation the handler never evicts: a call, on
  whatever autoscaler, recommendation and time, takes one more replica while the budget has
  room, gives one back when the burst has timed out, and otherwise does nothing at all; it
  does the same whatever an eviction would do. Once the timeout, which is counted from the
  creation of the recommendation, has passed and the budget is used up, one call gives a
  replica back and the next one takes it again. No part of the program sets the annotation.
\<close>

theorem surge_oscillates:
  fixes v :: "'q ppvpa" and scaled :: scaler
  defines "temp \<equiv> TemporaryReplicas (ppvpa_Status v)" and "budget \<equiv> surge_budget scaled v"
  assumes "k_list_pods cl w (om_namespace (ppvpa_meta v)) = Inr ps" "\<forall>p \<in> set ps. \<not> surge_annotated p"
  shows "budgeted_Handle cl scaled w v prr now =
      (if temp < budget then
         (let (w', e) = k_patch_ppvpa_status cl w (with_temporary v (wrap32 (temp + 1))) v
          in (w', map_option (Wrap ''bumping temporaryReplicas'') e))
       else if burst_expired v prr now then k_patch_ppvpa_status cl w (decremented v) v
       else (w, None)) \<and>
    (\<forall>f. budgeted_Handle (cl\<lparr>k_evict := f\<rparr>) scaled w v prr now = budgeted_Handle cl scaled w v prr now) \<and>
    (temp = budget \<and> 0 < budget \<and> budget < 2 ^ 31 \<and> burst_expired v prr now \<longrightarrow>
       budgeted_Handle cl scaled w v prr now = k_patch_ppvpa_status cl w (with_temporary v (budget - 1)) v \<and>
       (\<forall>w1 now1. budgeted_Handle cl scaled w1 (with_temporary v (budget - 1)) prr now1 =
         (let (w2, e) = k_patch_ppvpa_status cl w1 (with_temporary v budget) (with_temporary v (budget - 1))
          in (w2, map_option (Wrap ''bumping temporaryReplicas'') e))))"
proof -
  note call = unannotated_call [where scaled = scaled and prr = prr and now = now, OF assms(3,4)]
  have free: "budgeted_Handle (cl\<lparr>k_evict := f\<rparr>) scaled w v prr now = budgeted_Handle cl scaled w v prr now" for f
    using call unannotated_call [of "cl\<lparr>k_evict := f\<rparr>" w v ps scaled prr now] assms(3,4) by simp
  have turn: "budgeted_Handle cl scaled w v prr now = k_patch_ppvpa_status cl w (with_temporary v (budget - 1)) v \<and>
      (\<forall>w1 now1. budgeted_Handle cl scaled w1 (with_temporary v (budget - 1)) prr now1 =
         (let (w2, e) = k_patch_ppvpa_status cl w1 (with_temporary v budget) (with_temporary v (budget - 1))
          in (w2, map_option (Wrap ''bumping temporaryReplicas'') e)))"
    if t: "temp = budget" "0 < budget" "budget < 2 ^ 31" "burst_expired v prr now"
  proof -
    have i: "is_int32 budget" using t by (simp add: in_width_def)
    have "decremented v = with_temporary v (budget - 1)"
      using decremented_eq [of v] t i by (simp add: temp_def)
    moreover have "TemporaryReplicas (ppvpa_Status (with_temporary v n)) = n"
      "surge_budget scaled (with_temporary v n) = budget" "with_temporary (with_temporary v n) m = with_temporary v m" for n m
      by (simp_all add: with_temporary_def surge_budget_def budget_def)
    ultimately show ?thesis
      using call t(1,4) below_budget_bumps [of "with_temporary v (budget - 1)" scaled cl] wrap_id [OF _ i]
      by (simp add: temp_def budget_def)
  qed
  show ?thesis unfolding temp_def budget_def
    by (rule conjI [OF call conjI]) (use free turn in \<open>simp_all add: temp_def budget_def\<close>)
qed

text \<open>
  The demo workload, whose budget is used up: five nanoseconds after the recommendation was
  created nothing happens, two minutes and a nanosecond after it the replica is given back.
\<close>

theorem surge_oscillates_witness:
  "budgeted_Handle mem_client demo_scaled demo_cluster (demo_ppvpa 1) (demo_prr [] [] None) 5 = (demo_cluster, None) \<and>
   budgeted_Handle mem_client demo_scaled demo_cluster (demo_ppvpa 1) (demo_prr [] [] None) 120000000001 =
     (demo_cluster\<lparr>cl_ppvpas := [demo_ppvpa 0]\<rparr>, None)"
proof -
  have t: "TemporaryReplicas (ppvpa_Status (demo_ppvpa 1)) = surge_budget demo_scaled (demo_ppvpa 1)"
    unfolding demo_budget by (simp add: demo_ppvpa_def)
  have x: "burst_expired (demo_ppvpa 1) (demo_prr [] [] None) 120000000001"
    and y: "\<not> burst_expired (demo_ppvpa 1) (demo_prr [] [] None) 5"
    by (simp_all add: burst_expired_def demo_ppvpa_def demo_spec_def demo_prr_def demo_meta_def wrap_def)
  have l: "k_list_pods mem_client demo_cluster (om_namespace (ppvpa_meta (demo_ppvpa 1))) = Inr (cl_pods demo_cluster)"
    by (simp add: mem_client_def list_objects_def demo_cluster_def demo_ppvpa_def demo_meta_def)
  have n: "\<forall>p \<in> set (cl_pods demo_cluster). \<not> surge_annotated p"
    by (simp add: demo_cluster_def surge_annotated_def demo_meta_def)
  have z: "with_temporary (demo_ppvpa 1) (surge_budget demo_scaled (demo_ppvpa 1) - 1) = demo_ppvpa 0"
    unfolding demo_budget by (simp add: with_temporary_def demo_ppvpa_def)
  have p: "k_patch_ppvpa_status mem_client demo_cluster (demo_ppvpa 0) (demo_ppvpa 1) =
      (demo_cluster\<lparr>cl_ppvpas := [demo_ppvpa 0]\<rparr>, None)"
    by (simp add: mem_client_def replace_object_def demo_cluster_def demo_ppvpa_def demo_meta_def named_def)
  have "budgeted_Handle mem_client demo_scaled demo_cluster (demo_ppvpa 1) (demo_prr [] [] None) 5 = (demo_cluster, None)"
    using surge_oscillates [OF l n, of demo_scaled "demo_prr [] [] None" 5] t y by simp
  moreover have "budgeted_Handle mem_client demo_scaled demo_cluster (demo_ppvpa 1) (demo_prr [] [] None) 120000000001 =
      k_patch_ppvpa_status mem_client demo_cluster (demo_ppvpa 0) (demo_ppvpa 1)"
    using surge_oscillates [OF l n, of demo_scaled "demo_prr [] [] None" 120000000001,
        THEN conjunct2, THEN conjunct2, THEN mp, THEN conjunct1] t x z demo_budget by simp
  ultimately show ?thesis using p by simp
qed

end
