(* ===== verification/Controllers.thy ===== *)
theory Controllers
  imports Recommender Eviction "HOL-Library.AList"
begin

text \<open>
  Package \<open>controller\<close>: the three reconcilers of the control plane. A reconciler works on the
  server's state \<open>'w\<close> through the client; it returns the state it leaves and, unless it
  panicked, its result and error. What it needs besides the client is gathered in
  \<open>controller_env\<close>: the mathematics and codecs of the recommender and the library call that
  scales a budget. Readings of the clock are arguments.
\<close>

record ('q, 'w) controller_env =
  ce_client :: "('q, 'w) client"
  ce_math :: go_math
  ce_codec :: "checkpoint codec"
  ce_workload_codec :: "workload_checkpoint codec"
  ce_quantity :: "'q quantity_ops"
  ce_scaled :: scaler

type_synonym 'w reconcile_outcome = "'w \<times> (ctrl_result \<times> go_error option) go"

section \<open>The workload controller\<close>

abbreviation ppvpaFinalizer :: string where
  "ppvpaFinalizer \<equiv> ''autoscaling.brycemclachlan.me/ppvpa-finalizer''"

fun containsString :: "string list \<Rightarrow> string \<Rightarrow> bool" where
  "containsString [] v = False"
| "containsString (x # s) v = (if x = v then True else containsString s v)"

definition removeString :: "string list \<Rightarrow> string \<Rightarrow> string list" where
  "removeString s v = compact (\<lambda>x. x \<noteq> v) s"

text \<open>\<open>!ppvpa.DeletionTimestamp.IsZero()\<close>\<close>

definition is_deleting :: "object_meta \<Rightarrow> bool" where
  "is_deleting om = (case om_deletionTimestamp om of None \<Rightarrow> False | Some t \<Rightarrow> \<not> IsZero t)"

definition with_finalizers :: "'q ppvpa \<Rightarrow> string list \<Rightarrow> 'q ppvpa" where
  "with_finalizers v fs = v\<lparr>ppvpa_meta := (ppvpa_meta v)\<lparr>om_finalizers := fs\<rparr>\<rparr>"

definition finalize ::
  "('q, 'w) client \<Rightarrow> 'w \<Rightarrow> 'q ppvpa \<Rightarrow> 'w \<times> ctrl_result \<times> go_error option" where
  "finalize cl w v =
     (let fs = om_finalizers (ppvpa_meta v)
      in if \<not> containsString fs ppvpaFinalizer then (w, no_requeue, None)
         else (case k_update_ppvpa cl w (with_finalizers v (removeString fs ppvpaFinalizer)) of
                 (w', Inl e) \<Rightarrow> (w', no_requeue, Some e)
               | (w', Inr _) \<Rightarrow> (w', no_requeue, None)))"

subsection \<open>Pods of the target\<close>

fun rs_uids :: "string \<Rightarrow> string set \<Rightarrow> replica_set list \<Rightarrow> string set" where
  "rs_uids uid acc [] = acc"
| "rs_uids uid acc (rs # rss) =
     rs_uids uid (if owned_by uid (om_ownerRefs (rs_meta rs)) then insert (om_uid (rs_meta rs)) acc else acc) rss"

fun owner_in :: "string set \<Rightarrow> owner_ref list \<Rightarrow> bool" where
  "owner_in uids [] = False"
| "owner_in uids (r # rs) = (if or_uid r \<in> uids then True else owner_in uids rs)"

fun pods_of :: "string set \<Rightarrow> 'q pod list \<Rightarrow> 'q pod list \<Rightarrow> 'q pod list" where
  "pods_of uids out [] = out"
| "pods_of uids out (p # ps) =
     pods_of uids (if owner_in uids (om_ownerRefs (pod_meta p)) then out @ [p] else out) ps"

definition targetedPods :: "('q, 'w) client \<Rightarrow> 'w \<Rightarrow> 'q ppvpa \<Rightarrow> go_error + 'q pod list" where
  "targetedPods cl w v =
     (let tr = TargetRef (ppvpa_Spec v); ns = om_namespace (ppvpa_meta v)
      in if tr_kind tr \<noteq> ''Deployment'' then Inl (Err ''unsupported targetRef kind'')
         else
           (case k_get_deployment cl w ns (tr_name tr) of
              Inl e \<Rightarrow> if has_reason NotFound e then Inr [] else Inl e
            | Inr dep \<Rightarrow>
                (case k_list_replicasets cl w ns of
                   Inl e \<Rightarrow> Inl e
                 | Inr rss \<Rightarrow>
                     (case k_list_pods cl w ns of
                        Inl e \<Rightarrow> Inl e
                      | Inr ps \<Rightarrow> Inr (pods_of (rs_uids (om_uid (dep_meta dep)) {} rss) [] ps)))))"

subsection \<open>One recommendation per pod\<close>

definition listOwnedPRRs :: "('q, 'w) client \<Rightarrow> 'w \<Rightarrow> 'q ppvpa \<Rightarrow> go_error + 'q prr list" where
  "listOwnedPRRs cl w v =
     (case k_list_prrs cl w (om_namespace (ppvpa_meta v)) of
        Inl e \<Rightarrow> Inl e
      | Inr ps \<Rightarrow> Inr (owned_prrs (om_uid (ppvpa_meta v)) ps))"

text \<open>The map from pod names to recommendations; a later entry replaces an earlier one.\<close>

fun by_pod :: "(string \<times> 'q prr) list \<Rightarrow> 'q prr list \<Rightarrow> (string \<times> 'q prr) list" where
  "by_pod acc [] = acc"
| "by_pod acc (p # ps) = by_pod (AList.update (TargetPodName p) p acc) ps"

definition prr_name :: "'q ppvpa \<Rightarrow> string \<Rightarrow> string" where
  "prr_name v pod = om_name (ppvpa_meta v) @ ''-'' @ pod @ ''-prr''"

definition new_prr :: "'q ppvpa \<Rightarrow> string \<Rightarrow> 'q prr" where
  "new_prr v pod =
     \<lparr>prr_meta = child_meta v (prr_name v pod), TargetPodName = pod,
      prr_Status = \<lparr>ContentionHighWatermarks = None, ObservedPeak = None, prr_PodLevelTarget = Map.empty,
        ContainerRecommendations = [], HistogramCheckpoint = [], prr_Conditions = []\<rparr>\<rparr>"

fun create_loop ::
  "('q, 'w) client \<Rightarrow> 'q ppvpa \<Rightarrow> (string \<times> 'q prr) list \<Rightarrow> 'w \<Rightarrow> 'q pod list \<Rightarrow> 'w \<times> go_error option" where
  "create_loop cl v byPod w [] = (w, None)"
| "create_loop cl v byPod w (p # ps) =
     (if map_of byPod (om_name (pod_meta p)) \<noteq> None then create_loop cl v byPod w ps
      else (case k_create_prr cl w (new_prr v (om_name (pod_meta p))) of
              (w', None) \<Rightarrow> create_loop cl v byPod w' ps
            | (w', Some e) \<Rightarrow> if has_reason AlreadyExists e then create_loop cl v byPod w' ps else (w', Some e)))"

fun delete_loop ::
  "('q, 'w) client \<Rightarrow> string set \<Rightarrow> 'w \<Rightarrow> (string \<times> 'q prr) list \<Rightarrow> 'w \<times> go_error option" where
  "delete_loop cl live w [] = (w, None)"
| "delete_loop cl live w ((pod, p) # ps) =
     (if pod \<in> live then delete_loop cl live w ps
      else (case k_delete_prr cl w p of
              (w', None) \<Rightarrow> delete_loop cl live w' ps
            | (w', Some e) \<Rightarrow> if has_reason NotFound e then delete_loop cl live w' ps else (w', Some e)))"

text \<open>\<open>ord\<close> is the order in which Go iterates the map.\<close>

definition reconcilePRRs ::
  "('q, 'w) client \<Rightarrow> ((string \<times> 'q prr) list \<Rightarrow> (string \<times> 'q prr) list) \<Rightarrow> 'w \<Rightarrow> 'q ppvpa \<Rightarrow> 'q pod list \<Rightarrow>
   'w \<times> go_error option" where
  "reconcilePRRs cl ord w v pods =
     (case listOwnedPRRs cl w v of
        Inl e \<Rightarrow> (w, Some e)
      | Inr existing \<Rightarrow>
          (let byPod = by_pod [] existing; live = set (map (\<lambda>p. om_name (pod_meta p)) pods)
           in case create_loop cl v byPod w pods of
                (w', Some e) \<Rightarrow> (w', Some e)
              | (w', None) \<Rightarrow> delete_loop cl live w' (ord byPod)))"

subsection \<open>Recommendation and replicas\<close>

definition reconcileRecommendation ::
  "('q, 'w) controller_env \<Rightarrow> 'w \<Rightarrow> 'q ppvpa \<Rightarrow> time \<Rightarrow> 'w \<times> go_error option go" where
  "reconcileRecommendation e w v now =
     (case listOwnedPRRs (ce_client e) w v of
        Inl err \<Rightarrow> (w, Ret (Some err))
      | Inr prrs \<Rightarrow>
          (case Recommend (ce_math e) (ce_codec e) (ce_quantity e) prrs (ppvpa_Spec v)
                  (time_sub now (om_creationTimestamp (ppvpa_meta v))) of
             Panic \<Rightarrow> (w, Panic)
           | Ret (Inl err) \<Rightarrow> (w, Ret (Some err))
           | Ret (Inr rec) \<Rightarrow>
               (case k_patch_ppvpa_status (ce_client e) w
                       (v\<lparr>ppvpa_Status := (ppvpa_Status v)\<lparr>DefaultRecommendation := Some rec\<rparr>\<rparr>) v of
                  (w', err) \<Rightarrow> (w', Ret err))))"

definition desired_replicas :: "'q ppvpa \<Rightarrow> int32" where
  "desired_replicas v =
     wrap32 ((case TargetReplicas (ppvpa_Spec v) of None \<Rightarrow> 0 | Some n \<Rightarrow> n) + TemporaryReplicas (ppvpa_Status v))"

definition current_replicas :: "deployment \<Rightarrow> int32" where
  "current_replicas dep = (case dep_replicas dep of None \<Rightarrow> 1 | Some n \<Rightarrow> n)"

definition with_target :: "'q ppvpa \<Rightarrow> int32 \<Rightarrow> 'q ppvpa" where
  "with_target v n = v\<lparr>ppvpa_Spec := (ppvpa_Spec v)\<lparr>TargetReplicas := Some n\<rparr>\<rparr>"

definition with_active :: "'q ppvpa \<Rightarrow> int32 \<Rightarrow> 'q ppvpa" where
  "with_active v n = v\<lparr>ppvpa_Status := (ppvpa_Status v)\<lparr>ActiveReplicas := n\<rparr>\<rparr>"

definition reconcileReplicas :: "('q, 'w) client \<Rightarrow> 'w \<Rightarrow> 'q ppvpa \<Rightarrow> 'w \<times> go_error option" where
  "reconcileReplicas cl w v =
     (let tr = TargetRef (ppvpa_Spec v); ns = om_namespace (ppvpa_meta v)
      in if tr_kind tr \<noteq> ''Deployment'' then (w, None)
         else
           (case k_get_deployment cl w ns (tr_name tr) of
              Inl e \<Rightarrow> (w, IgnoreNotFound e)
            | Inr dep \<Rightarrow>
                (let desired = desired_replicas v
                 in if desired \<le> 0 then
                      (let current = current_replicas dep
                       in if TargetReplicas (ppvpa_Spec v) = None then
                            (case k_patch_ppvpa cl w (with_target v current) v of
                               (w', Some e) \<Rightarrow> (w', Some e)
                             | (w', None) \<Rightarrow> k_patch_ppvpa_status cl w' (with_active v current) v)
                          else k_patch_ppvpa_status cl w (with_active v current) v)
                    else if dep_replicas dep = Some desired then (w, None)
                    else k_patch_deployment cl w (dep\<lparr>dep_replicas := Some desired\<rparr>) dep)))"

subsection \<open>Reconcile\<close>

text \<open>What follows once the finalizer is in place.\<close>

definition reconcile_live ::
  "('q, 'w) controller_env \<Rightarrow> ((string \<times> 'q prr) list \<Rightarrow> (string \<times> 'q prr) list) \<Rightarrow> 'w \<Rightarrow> 'q ppvpa \<Rightarrow> time \<Rightarrow>
   'w reconcile_outcome" where
  "reconcile_live e ord w v now =
     (case targetedPods (ce_client e) w v of
        Inl _ \<Rightarrow> (w, Ret (requeue_after (30 * Second), None))
      | Inr pods \<Rightarrow>
          (case reconcilePRRs (ce_client e) ord w v pods of
             (w1, Some _) \<Rightarrow> (w1, Ret (requeue_after (30 * Second), None))
           | (w1, None) \<Rightarrow>
               (case reconcileRecommendation e w1 v now of
                  (w2, Panic) \<Rightarrow> (w2, Panic)
                | (w2, Ret (Some _)) \<Rightarrow> (w2, Ret (requeue_after (60 * Second), None))
                | (w2, Ret None) \<Rightarrow>
                    (case reconcileReplicas (ce_client e) w2 v of
                       (w3, Some _) \<Rightarrow> (w3, Ret (requeue_after (30 * Second), None))
                     | (w3, None) \<Rightarrow> (w3, Ret (requeue_after (60 * Second), None))))))"

definition ppvpa_Reconcile ::
  "('q, 'w) controller_env \<Rightarrow> ((string \<times> 'q prr) list \<Rightarrow> (string \<times> 'q prr) list) \<Rightarrow> 'w \<Rightarrow> string \<Rightarrow> string \<Rightarrow> time \<Rightarrow>
   'w reconcile_outcome" where
  "ppvpa_Reconcile e ord w ns name now =
     (case k_get_ppvpa (ce_client e) w ns name of
        Inl err \<Rightarrow> (w, Ret (no_requeue, IgnoreNotFound err))
      | Inr v \<Rightarrow>
          if is_deleting (ppvpa_meta v) then
            (case finalize (ce_client e) w v of (w', r) \<Rightarrow> (w', Ret r))
          else if containsString (om_finalizers (ppvpa_meta v)) ppvpaFinalizer then reconcile_live e ord w v now
          else
            (case k_update_ppvpa (ce_client e) w
                    (with_finalizers v (om_finalizers (ppvpa_meta v) @ [ppvpaFinalizer])) of
               (w', Inl err) \<Rightarrow> (w', Ret (no_requeue, Some err))
             | (w', Inr v') \<Rightarrow> reconcile_live e ord w' v' now))"

section \<open>The recommendation controller\<close>

fun parent_loop ::
  "('q, 'w) client \<Rightarrow> 'w \<Rightarrow> string \<Rightarrow> owner_ref list \<Rightarrow> 'q ppvpa option \<times> go_error option" where
  "parent_loop cl w ns [] = (None, None)"
| "parent_loop cl w ns (r # rs) =
     (if or_kind r \<noteq> ''PerPodVerticalPodAutoscaler'' then parent_loop cl w ns rs
      else (case k_get_ppvpa cl w ns (or_name r) of
              Inl e \<Rightarrow> (None, IgnoreNotFound e)
            | Inr v \<Rightarrow> (Some v, None)))"

definition parentPPVPA :: "('q, 'w) client \<Rightarrow> 'w \<Rightarrow> 'q prr \<Rightarrow> 'q ppvpa option \<times> go_error option" where
  "parentPPVPA cl w p = parent_loop cl w (om_namespace (prr_meta p)) (om_ownerRefs (prr_meta p))"

definition requeue_now :: ctrl_result where
  "requeue_now = \<lparr>Requeue = True, RequeueAfter = 0\<rparr>"

text \<open>\<open>anomaly\<close> and \<open>fallback\<close> say whether the two handlers are configured.\<close>

definition prr_Reconcile ::
  "('q, 'w) controller_env \<Rightarrow> bool \<Rightarrow> bool \<Rightarrow> 'w \<Rightarrow> string \<Rightarrow> string \<Rightarrow> time \<Rightarrow>
   'w \<times> ctrl_result \<times> go_error option" where
  "prr_Reconcile e anomaly fallback w ns name now =
     (case k_get_prr (ce_client e) w ns name of
        Inl err \<Rightarrow> (w, no_requeue, IgnoreNotFound err)
      | Inr p \<Rightarrow>
          (case parentPPVPA (ce_client e) w p of
             (None, err) \<Rightarrow> (w, no_requeue, err)
           | (Some v, Some err) \<Rightarrow> (w, no_requeue, Some err)
           | (Some v, None) \<Rightarrow>
               (let conds = prr_Conditions (prr_Status p);
                    (w1, e1) = (if hasCondition conds PRRConditionAnomalous \<and> anomaly
                                then anomaly_Handle (ce_client e) w p else (w, None))
                in if e1 \<noteq> None then (w1, requeue_now, None)
                   else
                     (let (w2, e2) = (if hasCondition conds PRRConditionInfeasible \<and> fallback
                                      then budgeted_Handle (ce_client e) (ce_scaled e) w1 v p now else (w1, None))
                      in if e2 \<noteq> None then (w2, requeue_now, None) else (w2, no_requeue, None)))))"

section \<open>The checkpoint controller\<close>

definition new_checkpoint :: "'q ppvpa \<Rightarrow> ppvpa_checkpoint" where
  "new_checkpoint v =
     \<lparr>checkpoint_meta = child_meta v (om_name (ppvpa_meta v) @ ''-checkpoint''), PPVPARef = om_name (ppvpa_meta v),
      checkpoint_Status = \<lparr>AggregateHistogramCheckpoint = [], LastUpdateTime = None, cp_Conditions = []\<rparr>\<rparr>"

definition with_aggregate :: "ppvpa_checkpoint \<Rightarrow> string \<Rightarrow> time \<Rightarrow> ppvpa_checkpoint" where
  "with_aggregate cp enc t =
     cp\<lparr>checkpoint_Status := (checkpoint_Status cp)\<lparr>AggregateHistogramCheckpoint := enc, LastUpdateTime := Some t\<rparr>\<rparr>"

text \<open>Creating, reading back and patching the checkpoint object.\<close>

definition store_checkpoint ::
  "('q, 'w) client \<Rightarrow> 'w \<Rightarrow> ppvpa_checkpoint \<Rightarrow> string \<Rightarrow> time \<Rightarrow> 'w \<times> ctrl_result \<times> go_error option" where
  "store_checkpoint cl w cp enc now =
     (case k_create_checkpoint cl w cp of
        (w', err) \<Rightarrow>
          if err \<noteq> None \<and> \<not> has_reason AlreadyExists (the err) then (w', no_requeue, err)
          else
            (case k_get_checkpoint cl w' (om_namespace (checkpoint_meta cp)) (om_name (checkpoint_meta cp)) of
               Inl err \<Rightarrow> (w', no_requeue, Some err)
             | Inr cp' \<Rightarrow>
                 (case k_patch_checkpoint_status cl w' (with_aggregate cp' enc now) cp' of
                    (w'', Some err) \<Rightarrow> (w'', no_requeue, Some err)
                  | (w'', None) \<Rightarrow> (w'', requeue_after (5 * Minute), None))))"

definition checkpoint_Reconcile ::
  "('q, 'w) controller_env \<Rightarrow> 'w \<Rightarrow> string \<Rightarrow> string \<Rightarrow> time \<Rightarrow> time \<Rightarrow> 'w reconcile_outcome" where
  "checkpoint_Reconcile e w ns name now now' =
     (case k_get_ppvpa (ce_client e) w ns name of
        Inl err \<Rightarrow> (w, Ret (no_requeue, IgnoreNotFound err))
      | Inr v \<Rightarrow>
          if is_deleting (ppvpa_meta v) then (w, Ret (no_requeue, None))
          else
            (case k_list_prrs (ce_client e) w (om_namespace (ppvpa_meta v)) of
               Inl err \<Rightarrow> (w, Ret (no_requeue, Some err))
             | Inr ps \<Rightarrow>
                 (case Aggregate (ce_math e) (ce_codec e) (owned_prrs (om_uid (ppvpa_meta v)) ps) of
                    Panic \<Rightarrow> (w, Panic)
                  | Ret (Inl err) \<Rightarrow> (w, Ret (no_requeue, Some err))
                  | Ret (Inr wh) \<Rightarrow>
                      (case EncodeWorkload (ce_codec e) (ce_workload_codec e) wh now of
                         Inl err \<Rightarrow> (w, Ret (no_requeue, Some err))
                       | Inr enc \<Rightarrow>
                           (case store_checkpoint (ce_client e) w (new_checkpoint v) enc now' of
                              (w', r) \<Rightarrow> (w', Ret r))))))"

end
