(* ===== verification/ControllerProps.thy ===== *)
theory ControllerProps
  imports Controllers
begin

text \<open>
  What the reconcilers guarantee: one recommendation per pod, the deployment in step with the
  requested replicas, which failures surface and which are retried, who may be evicted, and
  that finalizers of others survive. What is relied on of the API server is stated as
  predicates on the client, seen through a view of its state.
\<close>

section \<open>One recommendation per pod\<close>

definition prr_key :: "'q prr \<Rightarrow> string \<times> string" where
  "prr_key p = (om_namespace (prr_meta p), om_name (prr_meta p))"

definition owns :: "'q ppvpa \<Rightarrow> 'q prr \<Rightarrow> bool" where
  "owns v p \<longleftrightarrow>
     om_namespace (prr_meta p) = om_namespace (ppvpa_meta v) \<and> owned_by (om_uid (ppvpa_meta v)) (om_ownerRefs (prr_meta p))"

definition as_requested :: "'q prr \<Rightarrow> 'q prr \<Rightarrow> bool" where
  "as_requested p p' \<longleftrightarrow>
     prr_key p' = prr_key p \<and> om_ownerRefs (prr_meta p') = om_ownerRefs (prr_meta p) \<and> TargetPodName p' = TargetPodName p"

text \<open>
  The server as a store of recommendations: listing returns what is stored in the namespace,
  creating adds the requested object under a fresh name or changes nothing, deleting removes
  the object of that name or changes nothing.
\<close>

definition prr_server :: "('q, 'w) client \<Rightarrow> ('w \<Rightarrow> 'q prr set) \<Rightarrow> bool" where
  "prr_server cl st \<longleftrightarrow>
     (\<forall>w ns ps. k_list_prrs cl w ns = Inr ps \<longrightarrow> set ps = {p \<in> st w. om_namespace (prr_meta p) = ns}) \<and>
     (\<forall>w p w'. k_create_prr cl w p = (w', None) \<longrightarrow>
        prr_key p \<notin> prr_key ` st w \<and> (\<exists>p'. as_requested p p' \<and> st w' = insert p' (st w))) \<and>
     (\<forall>w p w' e. k_create_prr cl w p = (w', Some e) \<longrightarrow>
        st w' = st w \<and> (has_reason AlreadyExists e \<longrightarrow> prr_key p \<in> prr_key ` st w)) \<and>
     (\<forall>w p w'. k_delete_prr cl w p = (w', None) \<longrightarrow> st w' = {x \<in> st w. prr_key x \<noteq> prr_key p}) \<and>
     (\<forall>w p w' e. k_delete_prr cl w p = (w', Some e) \<longrightarrow>
        st w' = st w \<and> (has_reason NotFound e \<longrightarrow> prr_key p \<notin> prr_key ` st w))"

lemma prr_server_listD:
  "prr_server cl st \<Longrightarrow> k_list_prrs cl w ns = Inr ps \<Longrightarrow> set ps = {p \<in> st w. om_namespace (prr_meta p) = ns}"
  by (simp add: prr_server_def)

lemma prr_server_createE:
  assumes "prr_server cl st" "k_create_prr cl w p = (w', None)"
  obtains p' where "prr_key p \<notin> prr_key ` st w" "as_requested p p'" "st w' = insert p' (st w)"
proof -
  have "prr_key p \<notin> prr_key ` st w \<and> (\<exists>p'. as_requested p p' \<and> st w' = insert p' (st w))"
    using assms unfolding prr_server_def by simp
  then show thesis by (elim conjE exE) (rule that)
qed

lemma prr_server_exists:
  assumes "prr_server cl st" "k_create_prr cl w p = (w', Some e)" "has_reason AlreadyExists e"
  shows "st w' = st w \<and> prr_key p \<in> prr_key ` st w"
  using assms unfolding prr_server_def by metis

lemma prr_server_deleted:
  assumes "prr_server cl st" "k_delete_prr cl w p = (w', r)" "\<forall>e. r = Some e \<longrightarrow> has_reason NotFound e"
  shows "st w' = {x \<in> st w. prr_key x \<noteq> prr_key p}"
proof (cases r)
  case (Some e)
  then have g: "st w' = st w" "prr_key p \<notin> prr_key ` st w"
    using assms unfolding prr_server_def by metis+
  have "prr_key x \<noteq> prr_key p" if "x \<in> st w" for x using imageI [OF that, of prr_key] g(2) by metis
  then show ?thesis using g(1) by blast
qed (use assms in \<open>simp add: prr_server_def\<close>)

definition pod_names :: "'q pod list \<Rightarrow> string set" where
  "pod_names ps = (\<lambda>p. om_name (pod_meta p)) ` set ps"

subsection \<open>The index by pod\<close>

lemma by_pod_map_of:
  "map_of (by_pod acc ps) = map_of acc ++ map_of (rev (map (\<lambda>p. (TargetPodName p, p)) ps))"
  by (induction ps arbitrary: acc) (simp_all add: update_conv')

lemma by_pod_distinct: "distinct (map fst acc) \<Longrightarrow> distinct (map fst (by_pod acc ps))"
  by (induction ps arbitrary: acc) (simp_all add: distinct_update)

lemma by_pod_dom: "dom (map_of (by_pod [] ps)) = TargetPodName ` set ps"
  by (force simp: by_pod_map_of dom_map_of_conv_image_fst)

lemma by_pod_set:
  assumes "inj_on TargetPodName (set ps)"
  shows "set (by_pod [] ps) = (\<lambda>p. (TargetPodName p, p)) ` set ps"
proof -
  have "inj_on fst (set (map (\<lambda>p. (TargetPodName p, p)) ps))"
    using assms by (auto simp: inj_on_def)
  then have "map_of (rev (map (\<lambda>p. (TargetPodName p, p)) ps)) n = Some p \<longleftrightarrow>
      (n, p) \<in> set (map (\<lambda>p. (TargetPodName p, p)) ps)" for n p
  proof -
    assume i: "inj_on fst (set (map (\<lambda>p. (TargetPodName p, p)) ps))"
    show ?thesis
    proof
      assume "(n, p) \<in> set (map (\<lambda>p. (TargetPodName p, p)) ps)"
      then obtain p' where p': "map_of (rev (map (\<lambda>p. (TargetPodName p, p)) ps)) n = Some p'"
        using weak_map_of_SomeI [of n p] by fastforce
      then have "(n, p') \<in> set (map (\<lambda>p. (TargetPodName p, p)) ps)" using map_of_SomeD by fastforce
      with \<open>(n, p) \<in> _\<close> p' i show "map_of (rev (map (\<lambda>p. (TargetPodName p, p)) ps)) n = Some p"
        by (auto simp: inj_on_def)
    qed (use map_of_SomeD in fastforce)
  qed
  moreover have "map_of (by_pod [] ps) n = Some p \<longleftrightarrow> (n, p) \<in> set (by_pod [] ps)" for n p
    using by_pod_distinct [of "[]" ps] by (simp add: map_of_eq_Some_iff)
  ultimately have "(n, p) \<in> set (by_pod [] ps) \<longleftrightarrow> (n, p) \<in> (\<lambda>p. (TargetPodName p, p)) ` set ps" for n p
    by (simp add: by_pod_map_of)
  then show ?thesis unfolding set_eq_iff split_paired_All by blast
qed

subsection \<open>Creating\<close>

text \<open>
  What the creation loop keeps: names and targets stay unique, a recommendation of a pod
  outside the index carries the generated name, and a generated name is only used by the
  recommendation of its pod.
\<close>

definition creating ::
  "('w \<Rightarrow> 'q prr set) \<Rightarrow> 'q ppvpa \<Rightarrow> string set \<Rightarrow> string set \<Rightarrow> 'w \<Rightarrow> bool" where
  "creating st v indexed names w \<longleftrightarrow>
     inj_on prr_key (st w) \<and> inj_on TargetPodName {x \<in> st w. owns v x} \<and>
     (\<forall>x \<in> st w. owns v x \<longrightarrow> TargetPodName x \<notin> indexed \<longrightarrow>
        prr_key x = (om_namespace (ppvpa_meta v), prr_name v (TargetPodName x))) \<and>
     (\<forall>x \<in> st w. \<forall>n \<in> names - indexed.
        prr_key x = (om_namespace (ppvpa_meta v), prr_name v n) \<longrightarrow> owns v x \<and> TargetPodName x = n)"

lemma prr_name_inj: "prr_name v a = prr_name v b \<longleftrightarrow> a = b"
  by (simp add: prr_name_def)

lemma new_prr_key: "prr_key (new_prr v n) = (om_namespace (ppvpa_meta v), prr_name v n)"
  by (simp add: prr_key_def new_prr_def child_meta_def)

lemma requested_owned:
  assumes "as_requested (new_prr v n) p"
  shows "owns v p" "TargetPodName p = n" "prr_key p = (om_namespace (ppvpa_meta v), prr_name v n)"
  using assms by (simp_all add: as_requested_def owns_def new_prr_def child_meta_def prr_key_def ppvpa_owner_def)

lemma create_step:
  assumes "prr_server cl st" "creating st v indexed names w" "n \<in> names" "n \<notin> indexed"
    and "k_create_prr cl w (new_prr v n) = (w', r)" "\<forall>e. r = Some e \<longrightarrow> has_reason AlreadyExists e"
  shows "creating st v indexed names w' \<and> st w \<subseteq> st w' \<and>
    (\<forall>x \<in> st w' - st w. owns v x \<and> TargetPodName x = n) \<and> (\<exists>x \<in> st w'. owns v x \<and> TargetPodName x = n)"
proof (cases r)
  case None
  obtain p where f: "prr_key (new_prr v n) \<notin> prr_key ` st w"
    and p: "as_requested (new_prr v n) p" "st w' = insert p (st w)"
    by (rule prr_server_createE [OF assms(1) assms(5) [unfolded None]])
  note o = requested_owned [OF p(1)]
  have fresh: "prr_key x \<noteq> (om_namespace (ppvpa_meta v), prr_name v n)" if "x \<in> st w" for x
    using f imageI [OF that, of prr_key] unfolding new_prr_key by metis
  have t: "TargetPodName x \<noteq> n" if "x \<in> st w" "owns v x" for x
    using fresh [OF that(1)] assms(2,4) that unfolding creating_def by metis
  have nt: "n \<notin> TargetPodName ` {x \<in> st w. owns v x}"
  proof
    assume "n \<in> TargetPodName ` {x \<in> st w. owns v x}"
    then obtain x where "x \<in> st w" "owns v x" "n = TargetPodName x" by blast
    with t [of x] show False by simp
  qed
  have "inj_on prr_key (insert p (st w))"
    using assms(2) f o(3) by (auto simp: creating_def new_prr_key)
  moreover have "inj_on TargetPodName (insert p {x \<in> st w. owns v x})"
    using assms(2) nt o(2) by (auto simp: creating_def)
  moreover have "{x \<in> insert p (st w). owns v x} = insert p {x \<in> st w. owns v x}" using o(1) by auto
  ultimately have "creating st v indexed names w'"
    using assms(2) fresh o unfolding creating_def p(2) by (simp add: prr_name_inj)
  then show ?thesis using o p(2) by auto
next
  case (Some e)
  then have "st w' = st w" "prr_key (new_prr v n) \<in> prr_key ` st w"
    using prr_server_exists [OF assms(1) assms(5) [unfolded Some]] assms(6) by simp_all
  then obtain x where x: "x \<in> st w" "prr_key x = (om_namespace (ppvpa_meta v), prr_name v n)"
    by (auto simp: new_prr_key)
  then have "owns v x \<and> TargetPodName x = n" using assms(2,3,4) unfolding creating_def by blast
  then show ?thesis using x \<open>st w' = st w\<close> assms(2) by (auto simp: creating_def)
qed

lemma create_loop_spec:
  assumes "prr_server cl st" "creating st v (dom (map_of byPod)) names w" "pod_names ps \<subseteq> names"
    and "create_loop cl v byPod w ps = (w', None)"
  shows "creating st v (dom (map_of byPod)) names w' \<and> st w \<subseteq> st w' \<and>
    (\<forall>x \<in> st w' - st w. owns v x \<and> TargetPodName x \<in> pod_names ps - dom (map_of byPod)) \<and>
    (\<forall>n \<in> pod_names ps - dom (map_of byPod). \<exists>x \<in> st w'. owns v x \<and> TargetPodName x = n)"
  using assms(2-4)
proof (induction ps arbitrary: w)
  case (Cons p ps)
  let ?n = "om_name (pod_meta p)"
  have ps: "pod_names (p # ps) = insert ?n (pod_names ps)" by (simp add: pod_names_def)
  show ?case
  proof (cases "map_of byPod ?n = None")
    case True
    obtain w1 r where r: "k_create_prr cl w (new_prr v ?n) = (w1, r)" by (cases "k_create_prr cl w (new_prr v ?n)")
    have ok: "\<forall>e. r = Some e \<longrightarrow> has_reason AlreadyExists e"
      and rest: "create_loop cl v byPod w1 ps = (w', None)"
      using Cons.prems(3) True r by (auto split: option.split_asm if_split_asm)
    have n: "?n \<notin> dom (map_of byPod)" "?n \<in> names" using True Cons.prems(2) ps by auto
    note s = create_step [OF assms(1) Cons.prems(1) n(2,1) r ok]
    have sub: "pod_names ps \<subseteq> names" using Cons.prems(2) ps by simp
    from s obtain x where x: "x \<in> st w1" "owns v x" "TargetPodName x = ?n" by blast
    note t = Cons.IH [OF conjunct1 [OF s] sub rest]
    have "owns v y \<and> TargetPodName y \<in> pod_names (p # ps) - dom (map_of byPod)" if "y \<in> st w' - st w" for y
    proof (cases "y \<in> st w1")
      case True
      then have "owns v y \<and> TargetPodName y = ?n" using s that by simp
      then show ?thesis using n(1) ps by simp
    qed (use t that ps in simp)
    moreover have "\<exists>y \<in> st w'. owns v y \<and> TargetPodName y = m" if "m \<in> pod_names (p # ps) - dom (map_of byPod)" for m
    proof (cases "m = ?n")
      case True
      then show ?thesis using t x by (intro bexI [of _ x]) auto
    qed (use t that ps in simp)
    moreover have "st w \<subseteq> st w'" using s t by (meson subset_trans)
    ultimately show ?thesis using t by (intro conjI ballI) simp_all
  next
    case False
    then have "create_loop cl v byPod w ps = (w', None)" "?n \<in> dom (map_of byPod)" using Cons.prems(3) by auto
    then show ?thesis using Cons.IH [OF Cons.prems(1)] Cons.prems(2) ps by auto
  qed
qed (simp add: pod_names_def)

subsection \<open>Deleting\<close>

lemma delete_loop_spec:
  assumes "prr_server cl st" "delete_loop cl live w xs = (w', None)"
  shows "st w' = {x \<in> st w. prr_key x \<notin> prr_key ` {p. \<exists>n. (n, p) \<in> set xs \<and> n \<notin> live}}"
  using assms(2)
proof (induction xs arbitrary: w)
  case (Cons x xs)
  obtain n p where x: "x = (n, p)" by (cases x)
  show ?case
  proof (cases "n \<in> live")
    case True
    then have "{p. \<exists>m. (m, p) \<in> set (x # xs) \<and> m \<notin> live} = {p. \<exists>m. (m, p) \<in> set xs \<and> m \<notin> live}"
      using x by auto
    then show ?thesis using Cons True x by simp
  next
    case False
    obtain w1 r where r: "k_delete_prr cl w p = (w1, r)" by (cases "k_delete_prr cl w p")
    then have rest: "delete_loop cl live w1 xs = (w', None)" and ok: "\<forall>e. r = Some e \<longrightarrow> has_reason NotFound e"
      using Cons.prems x False by (auto split: option.split_asm if_split_asm)
    have "st w1 = {y \<in> st w. prr_key y \<noteq> prr_key p}" by (rule prr_server_deleted [OF assms(1) r ok])
    moreover have "{p. \<exists>m. (m, p) \<in> set (x # xs) \<and> m \<notin> live} = insert p {p. \<exists>m. (m, p) \<in> set xs \<and> m \<notin> live}"
      using x False by auto
    ultimately show ?thesis using Cons.IH [OF rest] by auto
  qed
qed simp


subsection \<open>The loop as a whole\<close>

lemma prrs_per_pod:
  assumes "prr_server cl st" "inj_on prr_key (st w)" "inj_on TargetPodName {x \<in> st w. owns v x}"
    and "\<forall>xs. mset (ord xs) = mset xs"
    and "\<forall>n \<in> pod_names pods. \<forall>x \<in> st w.
           prr_key x = (om_namespace (ppvpa_meta v), prr_name v n) \<longrightarrow> owns v x \<and> TargetPodName x = n"
    and "reconcilePRRs cl ord w v pods = (w', None)"
  shows "bij_betw TargetPodName {x \<in> st w'. owns v x} (pod_names pods) \<and>
    {x \<in> st w. owns v x \<and> TargetPodName x \<in> pod_names pods} \<subseteq> st w' \<and>
    {x \<in> st w'. \<not> owns v x} = {x \<in> st w. \<not> owns v x}"
proof -
  let ?S = "{x \<in> st w. owns v x}" and ?N = "pod_names pods"
  obtain ps where ps: "k_list_prrs cl w (om_namespace (ppvpa_meta v)) = Inr ps"
    using assms(6) by (auto simp: reconcilePRRs_def listOwnedPRRs_def split: sum.split_asm)
  define byPod where "byPod = by_pod [] (owned_prrs (om_uid (ppvpa_meta v)) ps)"
  have ex: "set (owned_prrs (om_uid (ppvpa_meta v)) ps) = ?S"
    using prr_server_listD [OF assms(1) ps] by (auto simp: set_owned_prrs owns_def)
  have d: "dom (map_of byPod) = TargetPodName ` ?S" using ex by (simp add: byPod_def by_pod_dom)
  obtain w1 where c: "create_loop cl v byPod w pods = (w1, None)" and
    l: "delete_loop cl ?N w1 (ord byPod) = (w', None)"
    using assms(6) ps by (auto simp: reconcilePRRs_def listOwnedPRRs_def Let_def byPod_def pod_names_def
        split: prod.split_asm option.split_asm)
  have "creating st v (dom (map_of byPod)) ?N w"
    using assms(2,3,5) unfolding creating_def d by auto
  note s = create_loop_spec [OF assms(1) this subset_refl c]
  have "set (ord byPod) = (\<lambda>p. (TargetPodName p, p)) ` ?S"
    using by_pod_set [of "owned_prrs (om_uid (ppvpa_meta v)) ps"] assms(3,4) ex
    by (metis byPod_def set_mset_mset)
  then have D: "{p. \<exists>n. (n, p) \<in> set (ord byPod) \<and> n \<notin> ?N} = {p \<in> ?S. TargetPodName p \<notin> ?N}" by auto
  have "inj_on prr_key (st w1)" "?S \<subseteq> st w1" using s by (auto simp: creating_def)
  then have st': "st w' = st w1 - {p \<in> ?S. TargetPodName p \<notin> ?N}"
    using delete_loop_spec [OF assms(1) l] unfolding D by (auto simp: inj_on_def)
  have "inj_on TargetPodName {x \<in> st w1. owns v x}" using s by (simp add: creating_def)
  then have i: "inj_on TargetPodName {x \<in> st w'. owns v x}" by (rule inj_on_subset) (auto simp: st')
  have "TargetPodName x \<in> ?N" if "x \<in> st w'" "owns v x" for x
    using that s by (cases "x \<in> st w") (auto simp: st')
  moreover have "\<exists>x. x \<in> st w' \<and> owns v x \<and> TargetPodName x = n" if n: "n \<in> ?N" for n
  proof (cases "n \<in> TargetPodName ` ?S")
    case True
    then obtain x where "x \<in> ?S" "n = TargetPodName x" by blast
    then show ?thesis using n s by (intro exI [of _ x]) (auto simp: st')
  next
    case False
    then have "n \<in> ?N - dom (map_of byPod)" using n d by simp
    then obtain x where "x \<in> st w1" "owns v x" "TargetPodName x = n" using s by metis
    then show ?thesis using n by (intro exI [of _ x]) (simp add: st')
  qed
  ultimately have "TargetPodName ` {x \<in> st w'. owns v x} = ?N" by (auto simp: image_iff)
  then show ?thesis using i s by (auto simp: bij_betw_def st')
qed

text \<open>
  (C1) One recommendation per pod: given that the owned recommendations have distinct targets
  and that no foreign object holds a generated name, a pass of \<open>reconcilePRRs\<close> that reports
  success, whatever order Go iterates the map in, leaves the owned recommendations in
  bijection with the names of the pods, keeps those of live pods and touches no object it
  does not own.
\<close>

theorem prr_per_pod:
  assumes "prr_server cl st" "inj_on prr_key (st w)" "inj_on TargetPodName {x \<in> st w. owns v x}"
    and "\<forall>xs. mset (ord xs) = mset xs"
    and "\<forall>n \<in> pod_names pods. \<forall>x \<in> st w.
           prr_key x = (om_namespace (ppvpa_meta v), prr_name v n) \<longrightarrow> owns v x \<and> TargetPodName x = n"
    and "reconcilePRRs cl ord w v pods = (w', None)"
  shows "bij_betw TargetPodName {x \<in> st w'. owns v x} (pod_names pods) \<and>
    {x \<in> st w. owns v x \<and> TargetPodName x \<in> pod_names pods} \<subseteq> st w' \<and>
    {x \<in> st w'. \<not> owns v x} = {x \<in> st w. \<not> owns v x}"
  by (rule prrs_per_pod [OF assms])


lemma mem_prr_server: "prr_server mem_client (\<lambda>w. set (cl_prrs w))"
proof -
  have k: "named (om_namespace (prr_meta p)) (om_name (prr_meta p)) (prr_meta x) \<longleftrightarrow> prr_key x = prr_key p"
    for p x :: "'a prr" by (simp add: named_def prr_key_def)
  show ?thesis
    by (auto simp: prr_server_def mem_client_def list_objects_def has_object_def remove_object_def k as_requested_def
        image_iff split: if_split_asm) metis+
qed

definition demo_stale :: "int cluster" where
  "demo_stale = demo_cluster\<lparr>cl_prrs := [new_prr (demo_ppvpa 1) ''gone'']\<rparr>"

lemma demo_stale_pass:
  "reconcilePRRs mem_client (\<lambda>xs. xs) demo_stale (demo_ppvpa 1) (cl_pods demo_stale) =
     (demo_cluster\<lparr>cl_prrs := [new_prr (demo_ppvpa 1) ''pod'']\<rparr>, None)"
  by (simp add: reconcilePRRs_def listOwnedPRRs_def mem_client_def list_objects_def owned_prrs_def compact_filter
      demo_stale_def demo_cluster_def demo_ppvpa_def demo_meta_def new_prr_def child_meta_def ppvpa_owner_def
      has_object_def remove_object_def named_def prr_name_def)

theorem prr_per_pod_witness:
  "bij_betw TargetPodName {x \<in> {new_prr (demo_ppvpa 1) ''pod''}. owns (demo_ppvpa 1) x} {''pod''}"
proof -
  have n: "pod_names (cl_pods demo_stale) = {''pod''}"
    by (simp add: pod_names_def demo_stale_def demo_cluster_def demo_meta_def)
  have s: "set (cl_prrs demo_stale) = {new_prr (demo_ppvpa 1) ''gone''}" by (simp add: demo_stale_def)
  show ?thesis
    using prr_per_pod [OF mem_prr_server _ _ _ _ demo_stale_pass] unfolding n s
    by (simp add: new_prr_key prr_name_inj inj_on_def)
qed


section \<open>Pods of the target\<close>

lemma rs_uids_eq:
  "rs_uids uid acc rss = acc \<union> {om_uid (rs_meta rs) | rs. rs \<in> set rss \<and> owned_by uid (om_ownerRefs (rs_meta rs))}"
  by (induction rss arbitrary: acc) auto

lemma owner_in_iff: "owner_in uids rs \<longleftrightarrow> (\<exists>r \<in> set rs. or_uid r \<in> uids)"
  by (induction rs) auto

lemma pods_of_eq: "pods_of uids out ps = out @ filter (\<lambda>p. owner_in uids (om_ownerRefs (pod_meta p))) ps"
  by (induction ps arbitrary: out) auto

text \<open>
  The pods of a workload are exactly those owned by a replica set that the target
  deployment owns, in the server's order; a missing deployment has no pods, another kind of
  target is an error, and every failed read is passed on.
\<close>

theorem targeted_pods_exact:
  "targetedPods cl w v =
     (if tr_kind (TargetRef (ppvpa_Spec v)) \<noteq> ''Deployment'' then Inl (Err ''unsupported targetRef kind'')
      else case k_get_deployment cl w (om_namespace (ppvpa_meta v)) (tr_name (TargetRef (ppvpa_Spec v))) of
        Inl e \<Rightarrow> (case IgnoreNotFound e of None \<Rightarrow> Inr [] | Some e' \<Rightarrow> Inl e')
      | Inr dep \<Rightarrow>
          (case (k_list_replicasets cl w (om_namespace (ppvpa_meta v)), k_list_pods cl w (om_namespace (ppvpa_meta v))) of
             (Inr rss, Inr ps) \<Rightarrow>
               Inr (filter (\<lambda>p. \<exists>r \<in> set (om_ownerRefs (pod_meta p)). \<exists>rs \<in> set rss.
                      or_uid r = om_uid (rs_meta rs) \<and>
                      (\<exists>r' \<in> set (om_ownerRefs (rs_meta rs)). or_uid r' = om_uid (dep_meta dep))) ps)
           | (Inl e, _) \<Rightarrow> Inl e
           | (_, Inl e) \<Rightarrow> Inl e))"
  by (auto simp: targetedPods_def Let_def IgnoreNotFound_def pods_of_eq rs_uids_eq owner_in_iff owned_by_iff
      split: sum.split intro!: filter_cong)

section \<open>Replicas\<close>

text \<open>
  What is relied on of the server: a patch of a deployment that it accepts is what it reads
  back.
\<close>

definition deployment_server :: "('q, 'w) client \<Rightarrow> bool" where
  "deployment_server cl \<longleftrightarrow>
     (\<forall>w d d0 w' ns n. k_get_deployment cl w ns n = Inr d0 \<longrightarrow> dep_meta d = dep_meta d0 \<longrightarrow>
        k_patch_deployment cl w d d0 = (w', None) \<longrightarrow>
        (\<exists>d'. k_get_deployment cl w' ns n = Inr d' \<and> dep_replicas d' = dep_replicas d))"

lemma desired_exact:
  assumes "TargetReplicas (ppvpa_Spec v) = Some n" "0 \<le> n" "0 \<le> TemporaryReplicas (ppvpa_Status v)"
    and "n + TemporaryReplicas (ppvpa_Status v) < 2 ^ 31"
  shows "desired_replicas v = n + TemporaryReplicas (ppvpa_Status v)"
  using assms by (simp add: desired_replicas_def wrap_id in_width_def)

text \<open>
  (C14) The deployment follows the requested size: when target plus temporary replicas is
  positive and fits 32 bits, a pass that succeeds on an existing deployment leaves it with
  exactly that many replicas, and a further pass writes nothing.
\<close>

theorem replicas_settle:
  assumes "deployment_server cl" "tr_kind (TargetRef (ppvpa_Spec v)) = ''Deployment''"
    and "k_get_deployment cl w (om_namespace (ppvpa_meta v)) (tr_name (TargetRef (ppvpa_Spec v))) = Inr dep"
    and "TargetReplicas (ppvpa_Spec v) = Some n" "0 \<le> n" "0 \<le> TemporaryReplicas (ppvpa_Status v)"
    and "0 < n + TemporaryReplicas (ppvpa_Status v)" "n + TemporaryReplicas (ppvpa_Status v) < 2 ^ 31"
    and "reconcileReplicas cl w v = (w', None)"
  shows "(\<exists>dep'. k_get_deployment cl w' (om_namespace (ppvpa_meta v)) (tr_name (TargetRef (ppvpa_Spec v))) = Inr dep' \<and>
           dep_replicas dep' = Some (n + TemporaryReplicas (ppvpa_Status v))) \<and>
         reconcileReplicas cl w' v = (w', None)"
proof -
  note d = desired_exact [OF assms(4,5,6,8)]
  have "\<exists>dep'. k_get_deployment cl w' (om_namespace (ppvpa_meta v)) (tr_name (TargetRef (ppvpa_Spec v))) = Inr dep' \<and>
      dep_replicas dep' = Some (n + TemporaryReplicas (ppvpa_Status v))"
  proof (cases "dep_replicas dep = Some (desired_replicas v)")
    case True
    then show ?thesis using assms(2,3,7,9) d by (simp add: reconcileReplicas_def Let_def)
  next
    case False
    then have "k_patch_deployment cl w (dep\<lparr>dep_replicas := Some (desired_replicas v)\<rparr>) dep = (w', None)"
      using assms(2,3,7,9) d by (simp add: reconcileReplicas_def Let_def)
    from assms(1) [unfolded deployment_server_def, rule_format, OF assms(3) _ this]
    show ?thesis using d by simp
  qed
  then show ?thesis using assms(2,7) d by (auto simp: reconcileReplicas_def Let_def)
qed

lemma mem_deployment_server: "deployment_server mem_client"
  using get_replaced [of dep_meta] by (fastforce simp: deployment_server_def mem_client_def)

theorem replicas_settle_witness:
  "\<exists>w'. reconcileReplicas mem_client demo_cluster (demo_ppvpa 1) = (w', None) \<and>
     map dep_replicas (cl_deployments w') = [Some 4] \<and> reconcileReplicas mem_client w' (demo_ppvpa 1) = (w', None)"
proof -
  let ?w = "demo_cluster\<lparr>cl_deployments := [\<lparr>dep_meta = demo_meta ''web'', dep_replicas = Some 4\<rparr>]\<rparr>"
  have r: "reconcileReplicas mem_client demo_cluster (demo_ppvpa 1) = (?w, None)"
    by (simp add: reconcileReplicas_def desired_replicas_def mem_client_def get_object_def replace_object_def
        demo_cluster_def demo_ppvpa_def demo_spec_def demo_meta_def named_def wrap_def)
  have g: "k_get_deployment mem_client demo_cluster (om_namespace (ppvpa_meta (demo_ppvpa 1)))
      (tr_name (TargetRef (ppvpa_Spec (demo_ppvpa 1)))) = Inr \<lparr>dep_meta = demo_meta ''web'', dep_replicas = Some 3\<rparr>"
    by (simp add: mem_client_def get_object_def demo_cluster_def demo_ppvpa_def demo_spec_def demo_meta_def named_def)
  have "reconcileReplicas mem_client ?w (demo_ppvpa 1) = (?w, None)"
    using replicas_settle [OF mem_deployment_server _ g _ _ _ _ _ r, of 3]
    by (simp add: demo_ppvpa_def demo_spec_def)
  then show ?thesis using r by (intro exI [of _ ?w]) simp
qed

text \<open>
  A workload cannot be scaled to zero: with zero target replicas and no surge the
  deployment is not written, whatever its size; the pass records that size as the active
  replicas instead.
\<close>

theorem scale_to_zero_ignored:
  assumes "tr_kind (TargetRef (ppvpa_Spec v)) = ''Deployment''"
    and "k_get_deployment cl w (om_namespace (ppvpa_meta v)) (tr_name (TargetRef (ppvpa_Spec v))) = Inr dep"
    and "TargetReplicas (ppvpa_Spec v) = Some 0" "TemporaryReplicas (ppvpa_Status v) = 0"
  shows "reconcileReplicas cl w v = k_patch_ppvpa_status cl w (with_active v (current_replicas dep)) v"
  using assms by (simp add: reconcileReplicas_def desired_replicas_def wrap_def)

theorem scale_to_zero_ignored_witness:
  "cl_deployments (fst (reconcileReplicas mem_client demo_cluster (with_target (demo_ppvpa 0) 0))) =
     [\<lparr>dep_meta = demo_meta ''web'', dep_replicas = Some 3\<rparr>]"
proof -
  let ?v = "with_target (demo_ppvpa 0) 0"
  have g: "k_get_deployment mem_client demo_cluster (om_namespace (ppvpa_meta ?v)) (tr_name (TargetRef (ppvpa_Spec ?v))) =
      Inr \<lparr>dep_meta = demo_meta ''web'', dep_replicas = Some 3\<rparr>"
    by (simp add: with_target_def mem_client_def get_object_def demo_cluster_def demo_ppvpa_def demo_spec_def
        demo_meta_def named_def)
  show ?thesis
    using scale_to_zero_ignored [OF _ g]
    by (simp add: with_target_def demo_ppvpa_def demo_spec_def mem_client_def demo_cluster_def)
qed


section \<open>Results and errors\<close>

lemma containsString_iff: "containsString s v \<longleftrightarrow> v \<in> set s"
  by (induction s) auto

lemma removeString_filter: "removeString s v = filter (\<lambda>x. x \<noteq> v) s"
  by (simp add: removeString_def compact_filter)

text \<open>
  How far a pass over a live object gets: the step that fails, or none, and the state it
  leaves. Every step before the named one has succeeded.
\<close>

datatype stage = ListingPods | ReconcilingPRRs | ComputingRecommendation | ReconcilingReplicas | AllDone

inductive stops_at ::
  "('q, 'w) controller_env \<Rightarrow> ((string \<times> 'q prr) list \<Rightarrow> (string \<times> 'q prr) list) \<Rightarrow> 'w \<Rightarrow> 'q ppvpa \<Rightarrow> time \<Rightarrow>
   stage \<Rightarrow> 'w \<Rightarrow> bool" for e ord w v now where
  pods: "targetedPods (ce_client e) w v = Inl x \<Longrightarrow> stops_at e ord w v now ListingPods w"
| prrs: "targetedPods (ce_client e) w v = Inr ps \<Longrightarrow> reconcilePRRs (ce_client e) ord w v ps = (w1, Some x) \<Longrightarrow>
    stops_at e ord w v now ReconcilingPRRs w1"
| recommendation: "targetedPods (ce_client e) w v = Inr ps \<Longrightarrow> reconcilePRRs (ce_client e) ord w v ps = (w1, None) \<Longrightarrow>
    reconcileRecommendation e w1 v now = (w2, Ret (Some x)) \<Longrightarrow> stops_at e ord w v now ComputingRecommendation w2"
| replicas: "targetedPods (ce_client e) w v = Inr ps \<Longrightarrow> reconcilePRRs (ce_client e) ord w v ps = (w1, None) \<Longrightarrow>
    reconcileRecommendation e w1 v now = (w2, Ret None) \<Longrightarrow> reconcileReplicas (ce_client e) w2 v = (w3, Some x) \<Longrightarrow>
    stops_at e ord w v now ReconcilingReplicas w3"
| success: "targetedPods (ce_client e) w v = Inr ps \<Longrightarrow> reconcilePRRs (ce_client e) ord w v ps = (w1, None) \<Longrightarrow>
    reconcileRecommendation e w1 v now = (w2, Ret None) \<Longrightarrow> reconcileReplicas (ce_client e) w2 v = (w3, None) \<Longrightarrow>
    stops_at e ord w v now AllDone w3"

inductive_simps stops_at_simps:
  "stops_at e ord w v now ListingPods w'"
  "stops_at e ord w v now ReconcilingPRRs w'"
  "stops_at e ord w v now ComputingRecommendation w'"
  "stops_at e ord w v now ReconcilingReplicas w'"
  "stops_at e ord w v now AllDone w'"

text \<open>The delay after which the queue brings the object back, in seconds.\<close>

fun retry_delay :: "stage \<Rightarrow> int" where
  "retry_delay ListingPods = 30"
| "retry_delay ReconcilingPRRs = 30"
| "retry_delay ComputingRecommendation = 60"
| "retry_delay ReconcilingReplicas = 30"
| "retry_delay AllDone = 60"

lemma ex_stage: "(\<exists>s. P s) \<longleftrightarrow>
    P ListingPods \<or> P ReconcilingPRRs \<or> P ComputingRecommendation \<or> P ReconcilingReplicas \<or> P AllDone"
  by (metis stage.exhaust)

lemma reconcile_live_stops:
  "reconcile_live e ord w v now = (w', Ret (r, err)) \<longleftrightarrow>
   err = None \<and> (\<exists>s. stops_at e ord w v now s w' \<and> r = requeue_after (retry_delay s * Second))"
proof (cases "targetedPods (ce_client e) w v")
  case (Inr ps)
  obtain w1 c where c: "reconcilePRRs (ce_client e) ord w v ps = (w1, c)" by fastforce
  obtain w2 g where g: "reconcileRecommendation e w1 v now = (w2, g)" by fastforce
  obtain w3 d where d: "reconcileReplicas (ce_client e) w2 v = (w3, d)" by fastforce
  show ?thesis
    by (cases c; cases g rule: go.exhaust; cases d)
      (use Inr c g d in \<open>auto simp: reconcile_live_def ex_stage stops_at_simps split: option.split\<close>)
qed (auto simp: reconcile_live_def ex_stage stops_at_simps)

definition demo_control :: "(int, int cluster) controller_env" where
  "demo_control =
     \<lparr>ce_client = mem_client, ce_math = flat_math, ce_codec = demo_codec,
      ce_workload_codec = \<lparr>gob_encode = (\<lambda>_. Inr ''gob''), gob_decode = (\<lambda>_. Inl (Err ''gob'')),
        base64_encode = (\<lambda>b. b), base64_decode = Inr\<rparr>,
      ce_quantity = demo_quantity, ce_scaled = demo_scaled\<rparr>"

text \<open>
  (C38) How the workload controller reports, for every pass that does not panic. It returns
  an error exactly when its first read failed with something else than ``not found'', or when
  the update that takes its finalizer out of an object being deleted, or puts it on one that
  lacks it, failed. It stops watching without an error exactly when the object is gone or
  being deleted. Otherwise the steps run in order up to the first one that fails, nothing
  after it is done, no error is returned, and the object comes back after 30 seconds when the
  pods, the recommendations of the pods or the replicas failed, after 60 seconds when the
  computed recommendation failed or all succeeded.
\<close>

theorem reconcile_error_policy:
  "ppvpa_Reconcile e ord w ns name now = (w', Ret (r, err)) \<longleftrightarrow>
   (case k_get_ppvpa (ce_client e) w ns name of
      Inl x \<Rightarrow> w' = w \<and> r = no_requeue \<and> err = (if has_reason NotFound x then None else Some x)
    | Inr v \<Rightarrow>
        (let fs = om_finalizers (ppvpa_meta v); ours = ppvpaFinalizer \<in> set fs
         in if is_deleting (ppvpa_meta v) then
              r = no_requeue \<and>
              (if ours then
                 (\<exists>q. k_update_ppvpa (ce_client e) w (with_finalizers v (filter (\<lambda>f. f \<noteq> ppvpaFinalizer) fs)) = (w', q) \<and>
                    err = (case q of Inl x \<Rightarrow> Some x | Inr _ \<Rightarrow> None))
               else w' = w \<and> err = None)
            else
              r = no_requeue \<and> \<not> ours \<and>
                (\<exists>x. k_update_ppvpa (ce_client e) w (with_finalizers v (fs @ [ppvpaFinalizer])) = (w', Inl x) \<and> err = Some x) \<or>
              err = None \<and>
                (\<exists>w1 v1 s. (if ours then (w1, v1) = (w, v)
                    else k_update_ppvpa (ce_client e) w (with_finalizers v (fs @ [ppvpaFinalizer])) = (w1, Inr v1)) \<and>
                  stops_at e ord w1 v1 now s w' \<and> r = requeue_after (retry_delay s * Second))))"
proof (cases "k_get_ppvpa (ce_client e) w ns name")
  case (Inl x)
  then show ?thesis by (auto simp: ppvpa_Reconcile_def IgnoreNotFound_def)
next
  case (Inr v)
  let ?fs = "om_finalizers (ppvpa_meta v)"
  obtain w1 q where u: "k_update_ppvpa (ce_client e) w (with_finalizers v (filter (\<lambda>f. f \<noteq> ppvpaFinalizer) ?fs)) = (w1, q)"
    by fastforce
  obtain w2 p where a: "k_update_ppvpa (ce_client e) w (with_finalizers v (?fs @ [ppvpaFinalizer])) = (w2, p)"
    by fastforce
  consider "is_deleting (ppvpa_meta v)" | "\<not> is_deleting (ppvpa_meta v)" "ppvpaFinalizer \<in> set ?fs"
    | "\<not> is_deleting (ppvpa_meta v)" "ppvpaFinalizer \<notin> set ?fs" by blast
  then show ?thesis
  proof cases
    case 1
    then show ?thesis using Inr u
      by (cases q) (auto simp: ppvpa_Reconcile_def finalize_def containsString_iff removeString_filter Let_def)
  next
    case 2
    then show ?thesis using Inr by (auto simp: ppvpa_Reconcile_def containsString_iff reconcile_live_stops Let_def)
  next
    case 3
    then show ?thesis using Inr a
      by (cases p) (auto simp: ppvpa_Reconcile_def containsString_iff reconcile_live_stops Let_def)
  qed
qed

text \<open>
  A cluster whose server lists the recommendations only as long as there are none: the pass
  creates the recommendation of the pod and then fails to compute the workload's.
\<close>

definition demo_flaky :: "(int, int cluster) controller_env" where
  "demo_flaky = demo_control\<lparr>ce_client := mem_client\<lparr>k_list_prrs :=
     (\<lambda>w ns. if cl_prrs w = [] then Inr [] else Inl (Err ''timeout''))\<rparr>\<rparr>"

definition demo_finalized :: "string \<Rightarrow> int ppvpa" where
  "demo_finalized kind = (with_finalizers (demo_ppvpa 0) [ppvpaFinalizer])\<lparr>ppvpa_Spec :=
     demo_spec\<lparr>TargetRef := \<lparr>tr_kind = kind, tr_name = ''web''\<rparr>\<rparr>\<rparr>"

definition demo_finalized_cluster :: "string \<Rightarrow> int cluster" where
  "demo_finalized_cluster kind = demo_cluster\<lparr>cl_ppvpas := [demo_finalized kind]\<rparr>"

lemma demo_finalized_get:
  "k_get_ppvpa (ce_client demo_flaky) (demo_finalized_cluster kind) ''ns'' ''vpa'' = Inr (demo_finalized kind)"
  "\<not> is_deleting (ppvpa_meta (demo_finalized kind))" "om_finalizers (ppvpa_meta (demo_finalized kind)) = [ppvpaFinalizer]"
  by (simp_all add: demo_flaky_def demo_control_def mem_client_def get_object_def demo_finalized_cluster_def demo_finalized_def
      with_finalizers_def demo_ppvpa_def demo_meta_def named_def is_deleting_def)

lemma demo_flaky_stops:
  "stops_at demo_flaky (\<lambda>xs. xs) (demo_finalized_cluster ''StatefulSet'') (demo_finalized ''StatefulSet'') 0 ListingPods
     (demo_finalized_cluster ''StatefulSet'')"
  "\<exists>w'. stops_at demo_flaky (\<lambda>xs. xs) (demo_finalized_cluster ''Deployment'') (demo_finalized ''Deployment'') 0
     ComputingRecommendation w' \<and> length (cl_prrs w') = 1"
proof -
  show "stops_at demo_flaky (\<lambda>xs. xs) (demo_finalized_cluster ''StatefulSet'') (demo_finalized ''StatefulSet'') 0 ListingPods
     (demo_finalized_cluster ''StatefulSet'')"
    by (rule stops_at.pods [of _ _ _ "Err ''unsupported targetRef kind''"]) (simp add: targetedPods_def demo_finalized_def)
  let ?v = "demo_finalized ''Deployment''" and ?w = "demo_finalized_cluster ''Deployment''"
  let ?w1 = "?w\<lparr>cl_prrs := [new_prr ?v ''pod'']\<rparr>"
  have p: "targetedPods (ce_client demo_flaky) ?w ?v = Inr (cl_pods demo_cluster)"
    by (simp add: targetedPods_def demo_flaky_def demo_control_def demo_finalized_def with_finalizers_def demo_finalized_cluster_def
        mem_client_def get_object_def list_objects_def demo_cluster_def demo_ppvpa_def demo_meta_def named_def)
  have r: "reconcilePRRs (ce_client demo_flaky) (\<lambda>xs. xs) ?w ?v (cl_pods demo_cluster) = (?w1, None)"
    by (simp add: reconcilePRRs_def listOwnedPRRs_def demo_flaky_def demo_control_def demo_finalized_cluster_def demo_cluster_def
        owned_prrs_def compact_filter mem_client_def has_object_def demo_meta_def)
  have "reconcileRecommendation demo_flaky ?w1 ?v 0 = (?w1, Ret (Some (Err ''timeout'')))"
    by (simp add: reconcileRecommendation_def listOwnedPRRs_def demo_flaky_def demo_control_def)
  from stops_at.recommendation [OF p r this]
  show "\<exists>w'. stops_at demo_flaky (\<lambda>xs. xs) ?w ?v 0 ComputingRecommendation w' \<and> length (cl_prrs w') = 1"
    by (intro exI [of _ ?w1]) simp
qed

text \<open>Gone, retried after 30 seconds, and retried after 60 seconds.\<close>

theorem reconcile_error_policy_witness:
  "ppvpa_Reconcile demo_flaky (\<lambda>xs. xs) (demo_finalized_cluster ''Deployment'') ''ns'' ''other'' 0 =
     (demo_finalized_cluster ''Deployment'', Ret (no_requeue, None)) \<and>
   ppvpa_Reconcile demo_flaky (\<lambda>xs. xs) (demo_finalized_cluster ''StatefulSet'') ''ns'' ''vpa'' 0 =
     (demo_finalized_cluster ''StatefulSet'', Ret (requeue_after (30 * Second), None)) \<and>
   (\<exists>w'. ppvpa_Reconcile demo_flaky (\<lambda>xs. xs) (demo_finalized_cluster ''Deployment'') ''ns'' ''vpa'' 0 =
     (w', Ret (requeue_after (60 * Second), None)) \<and> length (cl_prrs w') = 1)"
proof (intro conjI)
  have "k_get_ppvpa (ce_client demo_flaky) (demo_finalized_cluster ''Deployment'') ''ns'' ''other'' = Inl (ApiErr NotFound)"
    by (simp add: demo_flaky_def mem_client_def get_object_def demo_finalized_cluster_def demo_finalized_def with_finalizers_def
        demo_ppvpa_def demo_meta_def named_def)
  then show "ppvpa_Reconcile demo_flaky (\<lambda>xs. xs) (demo_finalized_cluster ''Deployment'') ''ns'' ''other'' 0 =
     (demo_finalized_cluster ''Deployment'', Ret (no_requeue, None))"
    by (simp add: reconcile_error_policy)
  show "ppvpa_Reconcile demo_flaky (\<lambda>xs. xs) (demo_finalized_cluster ''StatefulSet'') ''ns'' ''vpa'' 0 =
     (demo_finalized_cluster ''StatefulSet'', Ret (requeue_after (30 * Second), None))"
    using demo_flaky_stops(1) unfolding reconcile_error_policy demo_finalized_get sum.case
    by (auto simp: demo_finalized_get intro!: exI [of _ ListingPods])
  obtain w' where "stops_at demo_flaky (\<lambda>xs. xs) (demo_finalized_cluster ''Deployment'') (demo_finalized ''Deployment'') 0
     ComputingRecommendation w'" "length (cl_prrs w') = 1" using demo_flaky_stops(2) by blast
  then show "\<exists>w'. ppvpa_Reconcile demo_flaky (\<lambda>xs. xs) (demo_finalized_cluster ''Deployment'') ''ns'' ''vpa'' 0 =
     (w', Ret (requeue_after (60 * Second), None)) \<and> length (cl_prrs w') = 1"
    unfolding reconcile_error_policy demo_finalized_get sum.case
    by (intro exI [of _ w']) (auto simp: demo_finalized_get intro!: exI [of _ ComputingRecommendation])
qed

section \<open>Deletion\<close>

text \<open>
  Deletion: for an object that is being deleted the controller issues at most one write,
  the update that takes its own finalizer out and leaves every other finalizer in order; when
  its finalizer is not there it writes nothing.
\<close>

theorem deletion_strips_finalizer:
  assumes "k_get_ppvpa (ce_client e) w ns name = Inr v" "is_deleting (ppvpa_meta v)"
  shows "ppvpa_Reconcile e ord w ns name now =
    (if ppvpaFinalizer \<in> set (om_finalizers (ppvpa_meta v)) then
       (let (w', u) = k_update_ppvpa (ce_client e) w
                        (with_finalizers v (filter (\<lambda>x. x \<noteq> ppvpaFinalizer) (om_finalizers (ppvpa_meta v))))
        in (w', Ret (no_requeue, case u of Inl x \<Rightarrow> Some x | Inr _ \<Rightarrow> None)))
     else (w, Ret (no_requeue, None)))"
  using assms
  by (auto simp: ppvpa_Reconcile_def finalize_def containsString_iff removeString_filter Let_def
      split: prod.split sum.split)

definition demo_deleted :: "int ppvpa" where
  "demo_deleted =
     (demo_ppvpa 0)\<lparr>ppvpa_meta := (demo_meta ''vpa'')\<lparr>om_finalizers := [''a'', ppvpaFinalizer, ''b''],
        om_deletionTimestamp := Some 5\<rparr>\<rparr>"

theorem deletion_strips_finalizer_witness:
  "ppvpa_Reconcile demo_control (\<lambda>xs. xs) (demo_cluster\<lparr>cl_ppvpas := [demo_deleted]\<rparr>) ''ns'' ''vpa'' 9 =
     (demo_cluster\<lparr>cl_ppvpas := [with_finalizers demo_deleted [''a'', ''b'']]\<rparr>, Ret (no_requeue, None))"
proof -
  have g: "k_get_ppvpa (ce_client demo_control) (demo_cluster\<lparr>cl_ppvpas := [demo_deleted]\<rparr>) ''ns'' ''vpa'' = Inr demo_deleted"
    by (simp add: demo_control_def mem_client_def get_object_def demo_deleted_def demo_meta_def named_def)
  have d: "is_deleting (ppvpa_meta demo_deleted)"
    by (simp add: is_deleting_def demo_deleted_def IsZero_def zero_time_def)
  show ?thesis using deletion_strips_finalizer [OF g d]
    by (simp add: demo_deleted_def demo_control_def mem_client_def with_finalizers_def replace_object_def demo_meta_def
        named_def)
qed

section \<open>Who may be evicted\<close>

text \<open>
  Only a flagged recommendation has consequences: if a pass of the recommendation
  controller changes anything, the recommendation exists, its autoscaler was found, and it
  carries the condition Anomalous or Infeasible for a configured handler. A pass that
  reports an error has changed nothing.
\<close>

theorem only_flagged_pods_acted_on:
  assumes "prr_Reconcile e anomaly fallback w ns name now = (w', r, err)" "w' \<noteq> w"
  shows "\<exists>p v. k_get_prr (ce_client e) w ns name = Inr p \<and> parentPPVPA (ce_client e) w p = (Some v, None) \<and>
    (hasCondition (prr_Conditions (prr_Status p)) PRRConditionAnomalous \<and> anomaly \<or>
     hasCondition (prr_Conditions (prr_Status p)) PRRConditionInfeasible \<and> fallback) \<and> err = None"
proof -
  obtain p where p: "k_get_prr (ce_client e) w ns name = Inr p"
    using assms by (auto simp: prr_Reconcile_def split: sum.split_asm)
  obtain v where v: "parentPPVPA (ce_client e) w p = (Some v, None)"
    using assms p by (auto simp: prr_Reconcile_def split: prod.split_asm option.split_asm)
  show ?thesis using assms p v
    by (auto simp: prr_Reconcile_def Let_def split: prod.split_asm if_split_asm)
qed

definition demo_flagged :: "string \<Rightarrow> int prr" where
  "demo_flagged c =
     (let p = new_prr (demo_ppvpa 0) ''pod''
      in p\<lparr>prr_Status := (prr_Status p)\<lparr>prr_Conditions := [\<lparr>c_type = c, c_status = ConditionTrue\<rparr>]\<rparr>\<rparr>)"

definition demo_flagged_cluster :: "string \<Rightarrow> int cluster" where
  "demo_flagged_cluster c = demo_cluster\<lparr>cl_ppvpas := [demo_ppvpa 0], cl_prrs := [demo_flagged c]\<rparr>"

lemma demo_flagged_parent:
  "k_get_prr mem_client (demo_flagged_cluster c) ''ns'' ''vpa-pod-prr'' = Inr (demo_flagged c)"
  "parentPPVPA mem_client (demo_flagged_cluster c) (demo_flagged c) = (Some (demo_ppvpa 0), None)"
  by (simp_all add: mem_client_def parentPPVPA_def demo_flagged_cluster_def demo_flagged_def Let_def demo_ppvpa_def
      demo_meta_def get_object_def new_prr_def child_meta_def ppvpa_owner_def prr_name_def named_def)

theorem only_flagged_pods_acted_on_witness:
  "\<exists>w'. prr_Reconcile demo_control True True (demo_flagged_cluster ''Anomalous'') ''ns'' ''vpa-pod-prr'' 5 = (w', no_requeue, None) \<and>
     cl_pods w' = [] \<and> hasCondition (prr_Conditions (prr_Status (demo_flagged ''Anomalous''))) PRRConditionAnomalous"
proof -
  let ?w = "demo_flagged_cluster ''Anomalous''" and ?p = "demo_flagged ''Anomalous''"
  have h: "anomaly_Handle mem_client ?w ?p = (?w\<lparr>cl_pods := []\<rparr>, None)"
    by (simp add: anomaly_Handle_def evictPod_def mem_client_def get_object_def remove_object_def demo_flagged_cluster_def
        demo_cluster_def demo_flagged_def Let_def new_prr_def child_meta_def demo_ppvpa_def demo_meta_def named_def)
  have c: "prr_Conditions (prr_Status ?p) = [\<lparr>c_type = ''Anomalous'', c_status = ConditionTrue\<rparr>]"
    by (simp add: demo_flagged_def Let_def)
  have r: "prr_Reconcile demo_control True True ?w ''ns'' ''vpa-pod-prr'' 5 = (?w\<lparr>cl_pods := []\<rparr>, no_requeue, None)"
    by (simp add: prr_Reconcile_def demo_control_def demo_flagged_parent h c)
  have "?w\<lparr>cl_pods := []\<rparr> \<noteq> ?w" by (simp add: demo_flagged_cluster_def demo_cluster_def)
  from only_flagged_pods_acted_on [OF r this] show ?thesis
    using r c by (intro exI [of _ "?w\<lparr>cl_pods := []\<rparr>"]) (simp add: demo_flagged_cluster_def)
qed

section \<open>The surge budget across the controllers\<close>

lemma parent_loop_get:
  "parent_loop cl w ns rs = (Some v, x) \<Longrightarrow> \<exists>n. k_get_ppvpa cl w ns n = Inr v"
  by (induction rs) (auto split: if_split_asm sum.split_asm)

text \<open>
  The recommendation controller keeps the surge budget: whatever flags the recommendation
  carries and whichever calls fail, a pass leads from a state a burst can reach to another
  one, so the temporary replicas stay between zero and the largest budget.
\<close>

theorem prr_controller_keeps_budget:
  assumes "burst (ce_client e) (ce_scaled e) temp B w" "temp_server (ce_client e) temp" "0 \<le> B" "B < 2 ^ 31"
    and "\<forall>ns n v. k_get_ppvpa (ce_client e) w ns n = Inr v \<longrightarrow>
           TemporaryReplicas (ppvpa_Status v) = temp w \<and> surge_budget (ce_scaled e) v \<le> B"
    and "prr_Reconcile e anomaly fallback w ns name now = (w', r, err)"
  shows "burst (ce_client e) (ce_scaled e) temp B w' \<and> 0 \<le> temp w' \<and> temp w' \<le> B"
proof -
  have "burst (ce_client e) (ce_scaled e) temp B w'"
  proof (cases "w' = w")
    case False
    then obtain p where p: "k_get_prr (ce_client e) w ns name = Inr p"
      using assms(6) by (auto simp: prr_Reconcile_def split: sum.split_asm)
    obtain v where v: "parentPPVPA (ce_client e) w p = (Some v, None)"
      using assms(6) False p by (auto simp: prr_Reconcile_def split: prod.split_asm option.split_asm)
    then obtain n where "k_get_ppvpa (ce_client e) w (om_namespace (prr_meta p)) n = Inr v"
      using parent_loop_get [of "ce_client e" w] unfolding parentPPVPA_def by metis
    then have b: "TemporaryReplicas (ppvpa_Status v) = temp w" "surge_budget (ce_scaled e) v \<le> B"
      using assms(5) by simp_all
    define a where "a = (if hasCondition (prr_Conditions (prr_Status p)) PRRConditionAnomalous \<and> anomaly
        then anomaly_Handle (ce_client e) w p else (w, None))"
    have w1: "burst (ce_client e) (ce_scaled e) temp B (fst a)"
      using anomaly_handler.keeps_burst [OF assms(2,1,1) b] assms(1) by (simp add: a_def)
    obtain w2 e2 where h: "budgeted_Handle (ce_client e) (ce_scaled e) (fst a) v p now = (w2, e2)" by fastforce
    then have "burst (ce_client e) (ce_scaled e) temp B w2"
      using budgeted_handler.keeps_burst [OF assms(2,1) w1 b, of p now] by simp
    moreover have "w' = fst a \<or> w' = w2"
      using assms(6) p v h unfolding a_def [symmetric]
      by (auto simp: prr_Reconcile_def a_def [symmetric] Let_def split: prod.split_asm if_split_asm)
    ultimately show ?thesis using w1 by blast
  qed (use assms(1) in simp)
  then show ?thesis using burst_range [OF _ assms(2-4)] by blast
qed


theorem prr_controller_keeps_budget_witness:
  "\<exists>w'. prr_Reconcile demo_control True True (demo_flagged_cluster ''Infeasible'') ''ns'' ''vpa-pod-prr'' 5 = (w', no_requeue, None) \<and>
     stored_temp w' = 1 \<and> burst mem_client demo_scaled stored_temp 1 w'"
proof -
  let ?w = "demo_flagged_cluster ''Infeasible''" and ?p = "demo_flagged ''Infeasible''"
  let ?w' = "?w\<lparr>cl_ppvpas := [demo_ppvpa 1]\<rparr>"
  have t: "TemporaryReplicas (ppvpa_Status (demo_ppvpa 0)) < surge_budget demo_scaled (demo_ppvpa 0)"
    unfolding demo_budget by (simp add: demo_ppvpa_def)
  have h: "budgeted_Handle mem_client demo_scaled ?w (demo_ppvpa 0) ?p 5 = (?w', None)"
    using t by (simp add: budgeted_Handle_def with_temporary_def mem_client_def replace_object_def
        demo_flagged_cluster_def demo_ppvpa_def demo_meta_def named_def wrap_def)
  have c: "prr_Conditions (prr_Status ?p) = [\<lparr>c_type = ''Infeasible'', c_status = ConditionTrue\<rparr>]"
    by (simp add: demo_flagged_def Let_def)
  have r: "prr_Reconcile demo_control True True ?w ''ns'' ''vpa-pod-prr'' 5 = (?w', no_requeue, None)"
    by (simp add: prr_Reconcile_def demo_control_def demo_flagged_parent h c)
  have g: "TemporaryReplicas (ppvpa_Status v) = stored_temp ?w \<and> surge_budget demo_scaled v \<le> 1"
    if "k_get_ppvpa mem_client ?w ns n = Inr v" for ns n v
  proof -
    have "v = demo_ppvpa 0" using that
      by (simp add: mem_client_def get_object_def demo_flagged_cluster_def split: if_split_asm)
    then show ?thesis
      unfolding \<open>v = demo_ppvpa 0\<close> demo_budget by (simp add: stored_temp_def demo_flagged_cluster_def)
  qed
  have s: "burst mem_client demo_scaled stored_temp 1 ?w"
    by (rule burst.start) (simp add: stored_temp_def demo_flagged_cluster_def demo_ppvpa_def)
  have "burst mem_client demo_scaled stored_temp 1 ?w'"
    using prr_controller_keeps_budget [of demo_control stored_temp 1 ?w, OF _ _ _ _ _ r] s g
      mem_temp_server [where 'a = int]
    by (simp add: demo_control_def)
  then show ?thesis using r by (intro exI [of _ ?w']) (simp add: stored_temp_def demo_ppvpa_def)
qed

end
