(* ===== verification/Workload.thy ===== *)
theory Workload
  imports ControllerProps
begin

text \<open>
  A whole pass of the workload controller: the three steps of \<open>reconcile_live\<close> composed. What
  one step achieved must survive the next, so the contract of the API server says here also
  what a request leaves alone, and that a merge patch changes only the fields in which patch
  and base differ.
\<close>

section \<open>Merge patches\<close>

text \<open>
  \<open>client.MergeFrom\<close>: a field is sent when it differs from the base. For a field that the server
  still has as it is in the base, the result is the field of the patch.
\<close>

definition pick :: "('o \<Rightarrow> 'f) \<Rightarrow> 'o \<Rightarrow> 'o \<Rightarrow> 'o \<Rightarrow> 'f" where
  "pick f b p c = (if f p = f b then f c else f p)"

definition merge_status :: "'q ppvpa \<Rightarrow> 'q ppvpa \<Rightarrow> 'q ppvpa \<Rightarrow> 'q ppvpa" where
  "merge_status b p c =
     c\<lparr>ppvpa_Status :=
         \<lparr>DefaultRecommendation = pick (DefaultRecommendation \<circ> ppvpa_Status) b p c,
          ActiveReplicas = pick (ActiveReplicas \<circ> ppvpa_Status) b p c,
          TemporaryReplicas = pick (TemporaryReplicas \<circ> ppvpa_Status) b p c,
          ppvpa_Conditions = pick (ppvpa_Conditions \<circ> ppvpa_Status) b p c\<rparr>\<rparr>"

definition merge_spec :: "'q ppvpa \<Rightarrow> 'q ppvpa \<Rightarrow> 'q ppvpa \<Rightarrow> 'q ppvpa" where
  "merge_spec b p c =
     c\<lparr>ppvpa_Spec :=
         \<lparr>TargetRef = pick (TargetRef \<circ> ppvpa_Spec) b p c, TargetReplicas = pick (TargetReplicas \<circ> ppvpa_Spec) b p c,
          UpdatePolicy = pick (UpdatePolicy \<circ> ppvpa_Spec) b p c, ResourcePolicy = pick (ResourcePolicy \<circ> ppvpa_Spec) b p c,
          RecommenderPolicy = pick (RecommenderPolicy \<circ> ppvpa_Spec) b p c,
          ScalingThresholds = pick (ScalingThresholds \<circ> ppvpa_Spec) b p c\<rparr>\<rparr>"

text \<open>Nobody else changed what the patch changes.\<close>

definition mergeable :: "'q ppvpa \<Rightarrow> 'q ppvpa \<Rightarrow> 'q ppvpa \<Rightarrow> bool" where
  "mergeable b p c \<longleftrightarrow>
     ppvpa_meta p = ppvpa_meta c \<and> ppvpa_meta b = ppvpa_meta c \<and>
     (DefaultRecommendation (ppvpa_Status p) = DefaultRecommendation (ppvpa_Status b) \<or>
      DefaultRecommendation (ppvpa_Status c) = DefaultRecommendation (ppvpa_Status b)) \<and>
     (ppvpa_Conditions (ppvpa_Status p) = ppvpa_Conditions (ppvpa_Status b) \<or>
      ppvpa_Conditions (ppvpa_Status c) = ppvpa_Conditions (ppvpa_Status b)) \<and>
     (ppvpa_Spec p = (ppvpa_Spec b)\<lparr>TargetReplicas := TargetReplicas (ppvpa_Spec p)\<rparr> \<or> ppvpa_Spec c = ppvpa_Spec b)"

section \<open>The server\<close>

text \<open>
  The contracts of the single steps, and besides: an object is found under its own name;
  requests for one kind of object leave the others; a merge patch is merged.
\<close>

definition workload_server :: "('q, 'w) client \<Rightarrow> ('w \<Rightarrow> 'q prr set) \<Rightarrow> bool" where
  "workload_server cl st \<longleftrightarrow>
     prr_server cl st \<and> deployment_server cl \<and>
     (\<forall>w ns n v. k_get_ppvpa cl w ns n = Inr v \<longrightarrow> om_namespace (ppvpa_meta v) = ns \<and> om_name (ppvpa_meta v) = n) \<and>
     (\<forall>w p. k_get_ppvpa cl (fst (k_create_prr cl w p)) = k_get_ppvpa cl w \<and>
            k_get_deployment cl (fst (k_create_prr cl w p)) = k_get_deployment cl w) \<and>
     (\<forall>w p. k_get_ppvpa cl (fst (k_delete_prr cl w p)) = k_get_ppvpa cl w \<and>
            k_get_deployment cl (fst (k_delete_prr cl w p)) = k_get_deployment cl w) \<and>
     (\<forall>w p b. st (fst (k_patch_ppvpa_status cl w p b)) = st w \<and>
            k_get_deployment cl (fst (k_patch_ppvpa_status cl w p b)) = k_get_deployment cl w) \<and>
     (\<forall>w p b. st (fst (k_patch_ppvpa cl w p b)) = st w \<and>
            k_get_deployment cl (fst (k_patch_ppvpa cl w p b)) = k_get_deployment cl w) \<and>
     (\<forall>w d b. st (fst (k_patch_deployment cl w d b)) = st w \<and>
            k_get_ppvpa cl (fst (k_patch_deployment cl w d b)) = k_get_ppvpa cl w) \<and>
     (\<forall>w p b c ns n w'. k_get_ppvpa cl w ns n = Inr c \<longrightarrow> mergeable b p c \<longrightarrow>
        k_patch_ppvpa_status cl w p b = (w', None) \<longrightarrow> k_get_ppvpa cl w' ns n = Inr (merge_status b p c)) \<and>
     (\<forall>w p b c ns n w'. k_get_ppvpa cl w ns n = Inr c \<longrightarrow> mergeable b p c \<longrightarrow>
        k_patch_ppvpa cl w p b = (w', None) \<longrightarrow> k_get_ppvpa cl w' ns n = Inr (merge_spec b p c))"

lemma workload_serverD:
  assumes "workload_server cl st"
  shows "prr_server cl st" "deployment_server cl"
    and "k_get_ppvpa cl w ns n = Inr v \<Longrightarrow> om_namespace (ppvpa_meta v) = ns \<and> om_name (ppvpa_meta v) = n"
    and "k_create_prr cl w p = (w', r) \<Longrightarrow> k_get_ppvpa cl w' = k_get_ppvpa cl w \<and> k_get_deployment cl w' = k_get_deployment cl w"
    and "k_delete_prr cl w p = (w', r) \<Longrightarrow> k_get_ppvpa cl w' = k_get_ppvpa cl w \<and> k_get_deployment cl w' = k_get_deployment cl w"
    and "k_patch_ppvpa_status cl w x b = (w', r) \<Longrightarrow> st w' = st w \<and> k_get_deployment cl w' = k_get_deployment cl w"
    and "k_patch_ppvpa cl w x b = (w', r) \<Longrightarrow> st w' = st w \<and> k_get_deployment cl w' = k_get_deployment cl w"
    and "k_patch_deployment cl w d d0 = (w', r) \<Longrightarrow> st w' = st w \<and> k_get_ppvpa cl w' = k_get_ppvpa cl w"
    and "k_get_ppvpa cl w ns n = Inr c \<Longrightarrow> mergeable b x c \<Longrightarrow> k_patch_ppvpa_status cl w x b = (w', None) \<Longrightarrow>
      k_get_ppvpa cl w' ns n = Inr (merge_status b x c)"
    and "k_get_ppvpa cl w ns n = Inr c \<Longrightarrow> mergeable b x c \<Longrightarrow> k_patch_ppvpa cl w x b = (w', None) \<Longrightarrow>
      k_get_ppvpa cl w' ns n = Inr (merge_spec b x c)"
  using assms unfolding workload_server_def by (metis fst_conv)+

section \<open>The steps keep what the others need\<close>

lemma create_loop_frame:
  assumes "workload_server cl st"
  shows "create_loop cl v byPod w ps = (w', r) \<Longrightarrow>
    k_get_ppvpa cl w' = k_get_ppvpa cl w \<and> k_get_deployment cl w' = k_get_deployment cl w"
proof (induction ps arbitrary: w)
  case (Cons p ps)
  obtain w1 e where "k_create_prr cl w (new_prr v (om_name (pod_meta p))) = (w1, e)" by fastforce
  then show ?case using Cons workload_serverD(4) [OF assms] by (auto split: if_split_asm option.split_asm)
qed simp

lemma delete_loop_frame:
  assumes "workload_server cl st"
  shows "delete_loop cl live w xs = (w', r) \<Longrightarrow>
    k_get_ppvpa cl w' = k_get_ppvpa cl w \<and> k_get_deployment cl w' = k_get_deployment cl w"
proof (induction xs arbitrary: w)
  case (Cons x xs)
  obtain n p where x: "x = (n, p)" by (cases x)
  obtain w1 e where "k_delete_prr cl w p = (w1, e)" by fastforce
  then show ?case using Cons x workload_serverD(5) [OF assms] by (auto split: if_split_asm option.split_asm)
qed simp

lemma reconcilePRRs_frame:
  assumes "workload_server cl st" "reconcilePRRs cl ord w v pods = (w', r)"
  shows "k_get_ppvpa cl w' = k_get_ppvpa cl w \<and> k_get_deployment cl w' = k_get_deployment cl w"
  using assms(2) create_loop_frame [OF assms(1)] delete_loop_frame [OF assms(1)]
  by (auto simp: reconcilePRRs_def Let_def split: sum.split_asm prod.split_asm option.split_asm)

definition with_recommendation :: "'q ppvpa \<Rightarrow> 'q recommendation \<Rightarrow> 'q ppvpa" where
  "with_recommendation v rec = v\<lparr>ppvpa_Status := (ppvpa_Status v)\<lparr>DefaultRecommendation := Some rec\<rparr>\<rparr>"

lemma with_recommendation_meta: "ppvpa_meta (with_recommendation v rec) = ppvpa_meta v"
  by (simp add: with_recommendation_def)

lemma merges:
  "merge_status v (with_recommendation v rec) v = with_recommendation v rec"
  "ActiveReplicas (ppvpa_Status c) = ActiveReplicas (ppvpa_Status v) \<Longrightarrow> merge_status v (with_active v n) c = with_active c n"
  "TargetReplicas (ppvpa_Spec v) = None \<Longrightarrow> TargetReplicas (ppvpa_Spec c) = None \<Longrightarrow>
   merge_spec v (with_target v n) c = with_target c n"
  by (simp_all add: merge_status_def merge_spec_def pick_def with_recommendation_def with_active_def with_target_def)

lemma mergeable_steps:
  "mergeable v (with_recommendation v rec) v"
  "ppvpa_meta c = ppvpa_meta v \<Longrightarrow> mergeable v (with_active v n) c"
  "ppvpa_meta c = ppvpa_meta v \<Longrightarrow> mergeable v (with_target v n) c"
  by (simp_all add: mergeable_def with_recommendation_def with_active_def with_target_def)

lemma recommendation_step:
  assumes "workload_server (ce_client e) st" "k_get_ppvpa (ce_client e) w ns n = Inr v"
    and "reconcileRecommendation e w v now = (w', Ret None)"
  shows "\<exists>ps rec. set ps = {x \<in> st w. owns v x} \<and>
    Recommend (ce_math e) (ce_codec e) (ce_quantity e) ps (ppvpa_Spec v)
      (time_sub now (om_creationTimestamp (ppvpa_meta v))) = Ret (Inr rec) \<and>
    k_get_ppvpa (ce_client e) w' ns n = Inr (with_recommendation v rec) \<and> st w' = st w \<and>
    k_get_deployment (ce_client e) w' = k_get_deployment (ce_client e) w"
proof -
  obtain all where l: "k_list_prrs (ce_client e) w (om_namespace (ppvpa_meta v)) = Inr all"
    using assms(3) by (auto simp: reconcileRecommendation_def listOwnedPRRs_def split: sum.split_asm)
  define ps where "ps = owned_prrs (om_uid (ppvpa_meta v)) all"
  obtain rec where r: "Recommend (ce_math e) (ce_codec e) (ce_quantity e) ps (ppvpa_Spec v)
      (time_sub now (om_creationTimestamp (ppvpa_meta v))) = Ret (Inr rec)"
    and p: "k_patch_ppvpa_status (ce_client e) w (with_recommendation v rec) v = (w', None)"
    using assms(3) l by (auto simp: reconcileRecommendation_def listOwnedPRRs_def ps_def with_recommendation_def
        split: go.split_asm sum.split_asm prod.split_asm)
  have "set ps = {x \<in> st w. owns v x}"
    using prr_server_listD [OF workload_serverD(1) [OF assms(1)] l] by (auto simp: ps_def set_owned_prrs owns_def)
  moreover have "k_get_ppvpa (ce_client e) w' ns n = Inr (with_recommendation v rec)"
    using workload_serverD(9) [OF assms(1,2) mergeable_steps(1) p] by (simp add: merges)
  ultimately show ?thesis using r workload_serverD(6) [OF assms(1) p] by blast
qed

text \<open>What is left of the autoscaler \<open>c\<close> on the server when a pass finds no size requested.\<close>

definition seeded :: "'q ppvpa \<Rightarrow> int32 \<Rightarrow> 'q ppvpa" where
  "seeded c n = with_active (if TargetReplicas (ppvpa_Spec c) = None then with_target c n else c) n"

lemma replicas_step:
  assumes "workload_server cl st" "k_get_ppvpa cl w ns n = Inr (with_recommendation v rec)"
    and "tr_kind (TargetRef (ppvpa_Spec v)) = ''Deployment''"
    and d: "k_get_deployment cl w (om_namespace (ppvpa_meta v)) (tr_name (TargetRef (ppvpa_Spec v))) = Inr dep"
    and "reconcileReplicas cl w v = (w', None)"
  shows "st w' = st w \<and>
    (if 0 < desired_replicas v then
       k_get_ppvpa cl w' ns n = Inr (with_recommendation v rec) \<and>
       (\<exists>dep'. k_get_deployment cl w' (om_namespace (ppvpa_meta v)) (tr_name (TargetRef (ppvpa_Spec v))) = Inr dep' \<and>
          dep_replicas dep' = Some (desired_replicas v))
     else
       k_get_ppvpa cl w' ns n = Inr (seeded (with_recommendation v rec) (current_replicas dep)) \<and>
       k_get_deployment cl w' = k_get_deployment cl w)"
proof (cases "0 < desired_replicas v")
  case True
  show ?thesis
  proof (cases "dep_replicas dep = Some (desired_replicas v)")
    case False
    then have p: "k_patch_deployment cl w (dep\<lparr>dep_replicas := Some (desired_replicas v)\<rparr>) dep = (w', None)"
      using assms(3,5) d True by (simp add: reconcileReplicas_def Let_def)
    from workload_serverD(2) [OF assms(1), unfolded deployment_server_def, rule_format, OF d _ p]
    show ?thesis using True assms(2) workload_serverD(8) [OF assms(1) p] by simp
  qed (use True assms d in \<open>simp add: reconcileReplicas_def Let_def\<close>)
next
  case False
  let ?c = "current_replicas dep" and ?r = "with_recommendation v rec"
  have m: "ppvpa_meta ?r = ppvpa_meta v" "ActiveReplicas (ppvpa_Status ?r) = ActiveReplicas (ppvpa_Status v)"
    "ppvpa_Spec ?r = ppvpa_Spec v" by (simp_all add: with_recommendation_def)
  show ?thesis
  proof (cases "TargetReplicas (ppvpa_Spec v) = None")
    case t: True
    then obtain w1 where p: "k_patch_ppvpa cl w (with_target v ?c) v = (w1, None)"
      and a: "k_patch_ppvpa_status cl w1 (with_active v ?c) v = (w', None)"
      using assms(3,5) d False by (auto simp: reconcileReplicas_def Let_def split: prod.split_asm option.split_asm)
    have g: "k_get_ppvpa cl w1 ns n = Inr (with_target ?r ?c)"
      using workload_serverD(10) [OF assms(1,2) mergeable_steps(3) p] m t by (simp add: merges)
    have "k_get_ppvpa cl w' ns n = Inr (with_active (with_target ?r ?c) ?c)"
      using workload_serverD(9) [OF assms(1) g mergeable_steps(2) a] m by (simp add: merges with_target_def)
    then show ?thesis
      using False t m workload_serverD(7) [OF assms(1) p] workload_serverD(6) [OF assms(1) a] by (simp add: seeded_def)
  next
    case t: False
    then have a: "k_patch_ppvpa_status cl w (with_active v ?c) v = (w', None)"
      using assms(3,5) d False by (auto simp: reconcileReplicas_def Let_def)
    then show ?thesis
      using False t m workload_serverD(6) [OF assms(1) a] workload_serverD(9) [OF assms(1,2) mergeable_steps(2) a]
      by (auto simp: seeded_def merges)
  qed
qed

section \<open>A whole pass\<close>


text \<open>A server that merges, and a cluster with one pod and a burst of one.\<close>

definition merge_object :: "('q ppvpa \<Rightarrow> 'q ppvpa) \<Rightarrow> 'q ppvpa \<Rightarrow> 'q cluster \<Rightarrow> 'q cluster" where
  "merge_object f p w =
     w\<lparr>cl_ppvpas := map (\<lambda>c. if named (om_namespace (ppvpa_meta p)) (om_name (ppvpa_meta p)) (ppvpa_meta c) then f c else c)
         (cl_ppvpas w)\<rparr>"

definition merge_client :: "('q, 'q cluster) client" where
  "merge_client =
     mem_client\<lparr>k_patch_ppvpa := (\<lambda>w p b. (merge_object (merge_spec b p) p w, None)),
       k_patch_ppvpa_status := (\<lambda>w p b. (merge_object (merge_status b p) p w, None))\<rparr>"

lemma get_merged:
  assumes "get_object meta xs ns n = Inr x" "\<And>y. meta (f y) = meta y"
  shows "get_object meta (map (\<lambda>y. if named ns n (meta y) then f y else y) xs) ns n = Inr (f x)"
  using assms by (induction xs) (auto simp: get_object_def split: if_split_asm option.split_asm)

lemma get_object_named: "get_object meta xs ns n = Inr x \<Longrightarrow> named ns n (meta x)"
  by (auto simp: get_object_def find_Some_iff split: option.split_asm)

lemma get_merge_object:
  assumes "get_object ppvpa_meta (cl_ppvpas w) ns n = Inr c" "ppvpa_meta p = ppvpa_meta c" "\<And>y. ppvpa_meta (f y) = ppvpa_meta y"
  shows "get_object ppvpa_meta (cl_ppvpas (merge_object f p w)) ns n = Inr (f c)"
  using get_merged [OF assms(1), where f = f, OF assms(3)] get_object_named [OF assms(1)] assms(2)
  by (simp add: merge_object_def named_def)

lemma merge_ops:
  "k_get_ppvpa merge_client w = get_object ppvpa_meta (cl_ppvpas w)"
  "k_get_deployment merge_client w = get_object dep_meta (cl_deployments w)"
  "k_patch_ppvpa merge_client w p b = (merge_object (merge_spec b p) p w, None)"
  "k_patch_ppvpa_status merge_client w p b = (merge_object (merge_status b p) p w, None)"
  "k_patch_deployment merge_client w d d0 = (w\<lparr>cl_deployments := replace_object dep_meta d (cl_deployments w)\<rparr>, None)"
  "k_list_prrs merge_client w = list_objects prr_meta (cl_prrs w)"
  "k_create_prr merge_client w r = (if has_object prr_meta r (cl_prrs w) then (w, Some (ApiErr AlreadyExists))
     else (w\<lparr>cl_prrs := cl_prrs w @ [r]\<rparr>, None))"
  "k_delete_prr merge_client w r = (if has_object prr_meta r (cl_prrs w)
     then (w\<lparr>cl_prrs := remove_object prr_meta r (cl_prrs w)\<rparr>, None) else (w, Some (ApiErr NotFound)))"
  "k_list_replicasets merge_client w = list_objects rs_meta (cl_replicasets w)"
  "k_list_pods merge_client w = list_objects pod_meta (cl_pods w)"
  by (simp_all add: merge_client_def mem_client_def)

lemma merge_meta: "ppvpa_meta (merge_status b p c) = ppvpa_meta c" "ppvpa_meta (merge_spec b p c) = ppvpa_meta c"
  by (simp_all add: merge_status_def merge_spec_def)

lemma merge_workload_server: "workload_server merge_client (\<lambda>w. set (cl_prrs w))"
  unfolding workload_server_def
proof (intro conjI allI impI)
  show "prr_server merge_client (\<lambda>w. set (cl_prrs w))"
    using mem_prr_server by (simp add: prr_server_def merge_client_def)
  show "deployment_server merge_client"
    using mem_deployment_server by (simp add: deployment_server_def merge_client_def)
next
  fix w p b c ns n w'
  assume a: "k_get_ppvpa merge_client w ns n = Inr c" "mergeable b p c"
  show "k_patch_ppvpa_status merge_client w p b = (w', None) \<Longrightarrow> k_get_ppvpa merge_client w' ns n = Inr (merge_status b p c)"
    "k_patch_ppvpa merge_client w p b = (w', None) \<Longrightarrow> k_get_ppvpa merge_client w' ns n = Inr (merge_spec b p c)"
    using get_merge_object [OF a(1) [unfolded merge_ops], of p "merge_status b p"]
      get_merge_object [OF a(1) [unfolded merge_ops], of p "merge_spec b p"] a(2)
    by (auto simp: merge_ops merge_meta mergeable_def)
qed (auto simp: merge_ops merge_object_def named_def dest: get_object_named)

definition demo_live :: "int ppvpa" where
  "demo_live = with_finalizers (demo_ppvpa 1) [ppvpaFinalizer]"

definition demo_merging :: "(int, int cluster) controller_env" where
  "demo_merging = demo_control\<lparr>ce_client := merge_client\<rparr>"

definition demo_start :: "int cluster" where
  "demo_start = demo_cluster\<lparr>cl_ppvpas := [demo_live]\<rparr>"

lemmas demo_live_simps = demo_live_def with_finalizers_def demo_ppvpa_def demo_meta_def demo_spec_def named_def

lemma demo_recommends:
  "\<exists>rec. Recommend flat_math demo_codec demo_quantity [new_prr demo_live ''pod''] (ppvpa_Spec demo_live) age = Ret (Inr rec)"
proof -
  obtain wh where "NewWorkloadHistograms flat_math = Ret (Inr wh)"
    using NewWorkloadHistograms_wf [of flat_math] by (auto simp: flat_buckets max_slice_len_def)
  then show ?thesis by (simp add: Recommend_def Aggregate_def aggregate_step_def new_prr_def Let_def)
qed

lemma demo_steps:
  "k_get_ppvpa merge_client demo_start ''ns'' ''vpa'' = Inr demo_live"
  "targetedPods merge_client demo_start demo_live = Inr (cl_pods demo_start)"
  "reconcilePRRs merge_client (\<lambda>xs. xs) demo_start demo_live (cl_pods demo_start) =
     (demo_start\<lparr>cl_prrs := [new_prr demo_live ''pod'']\<rparr>, None)"
  "k_get_deployment merge_client demo_start ''ns'' ''web'' = Inr \<lparr>dep_meta = demo_meta ''web'', dep_replicas = Some 3\<rparr>"
  by (simp_all add: demo_start_def demo_cluster_def targetedPods_def reconcilePRRs_def listOwnedPRRs_def merge_ops Let_def
      get_object_def list_objects_def owned_prrs_def compact_filter has_object_def demo_live_simps)


end
