(* ===== verification/ControlPlane.thy ===== *)
theory ControlPlane
  imports Workload
begin

text \<open>
  The controllers together. The workload controller, the recommendation controller with its
  two eviction handlers and the checkpoint controller act on the autoscalers of a cluster, in
  any order, on objects they may have read long ago. Seen through the temporary replicas of one
  autoscaler and the size of one deployment, this file shows that whatever they do the
  deployment stays between the smallest requested size and the largest plus the surge budget,
  an unset target counting as zero.
\<close>

section \<open>The autoscaler, the deployment and the server\<close>

text \<open>The observed autoscaler, its deployment, and how the server's state shows them.\<close>

record 'w view =
  vw_ppvpa :: "string \<times> string"
  vw_deployment :: "string \<times> string"
  vw_temp :: "'w \<Rightarrow> int32"
  vw_size :: "'w \<Rightarrow> int32 option"

definition ppvpa_key :: "'q ppvpa \<Rightarrow> string \<times> string" where
  "ppvpa_key v = (om_namespace (ppvpa_meta v), om_name (ppvpa_meta v))"

definition deployment_key :: "deployment \<Rightarrow> string \<times> string" where
  "deployment_key d = (om_namespace (dep_meta d), om_name (dep_meta d))"

definition target_key :: "'q ppvpa \<Rightarrow> string \<times> string" where
  "target_key v = (om_namespace (ppvpa_meta v), tr_name (TargetRef (ppvpa_Spec v)))"

definition same_view :: "'w view \<Rightarrow> 'w \<Rightarrow> 'w \<Rightarrow> bool" where
  "same_view V w w' \<longleftrightarrow> vw_temp V w' = vw_temp V w \<and> vw_size V w' = vw_size V w"

text \<open>What a status patch or an update of \<open>v\<close> may do to the view.\<close>

definition status_written :: "'w view \<Rightarrow> 'q ppvpa \<Rightarrow> 'w \<Rightarrow> 'w \<Rightarrow> bool" where
  "status_written V v w w' \<longleftrightarrow>
     vw_size V w' = vw_size V w \<and>
     (vw_temp V w' = vw_temp V w \<or> ppvpa_key v = vw_ppvpa V \<and> vw_temp V w' = TemporaryReplicas (ppvpa_Status v))"

text \<open>
  What is relied on of the API server: a request changes the object it names, to what it
  carries, or nothing; an object is found under its own name; an update returns the object
  with the spec it was sent.
\<close>

definition plane_server :: "('q, 'w) client \<Rightarrow> 'w view \<Rightarrow> bool" where
  "plane_server cl V \<longleftrightarrow>
     (\<forall>w ns n d. k_get_deployment cl w ns n = Inr d \<longrightarrow> deployment_key d = (ns, n)) \<and>
     (\<forall>w v b. status_written V v w (fst (k_patch_ppvpa_status cl w v b))) \<and>
     (\<forall>w v b. same_view V w (fst (k_patch_ppvpa cl w v b))) \<and>
     (\<forall>w v. status_written V v w (fst (k_update_ppvpa cl w v))) \<and>
     (\<forall>w v w' v'. k_update_ppvpa cl w v = (w', Inr v') \<longrightarrow> ppvpa_Spec v' = ppvpa_Spec v \<and>
        ppvpa_key v' = ppvpa_key v \<and>
        (ppvpa_key v = vw_ppvpa V \<longrightarrow>
           TemporaryReplicas (ppvpa_Status v') \<in> {vw_temp V w, TemporaryReplicas (ppvpa_Status v)})) \<and>
     (\<forall>w d b. vw_temp V (fst (k_patch_deployment cl w d b)) = vw_temp V w \<and>
        (vw_size V (fst (k_patch_deployment cl w d b)) = vw_size V w \<or>
         deployment_key d = vw_deployment V \<and> vw_size V (fst (k_patch_deployment cl w d b)) = dep_replicas d)) \<and>
     (\<forall>w p ev. same_view V w (fst (k_evict cl w p ev))) \<and>
     (\<forall>w p. same_view V w (fst (k_create_prr cl w p))) \<and>
     (\<forall>w p. same_view V w (fst (k_delete_prr cl w p))) \<and>
     (\<forall>w c. same_view V w (fst (k_create_checkpoint cl w c))) \<and>
     (\<forall>w c b. same_view V w (fst (k_patch_checkpoint_status cl w c b)))"

lemma plane_serverD:
  assumes "plane_server cl V"
  shows "k_get_deployment cl w ns n = Inr d \<Longrightarrow> deployment_key d = (ns, n)"
    and "k_patch_ppvpa_status cl w v b = (w', r) \<Longrightarrow> status_written V v w w'"
    and "k_patch_ppvpa cl w v b = (w', r) \<Longrightarrow> same_view V w w'"
    and "k_update_ppvpa cl w v = (w', q) \<Longrightarrow> status_written V v w w'"
    and "k_update_ppvpa cl w v = (w', Inr v') \<Longrightarrow> ppvpa_Spec v' = ppvpa_Spec v \<and> ppvpa_key v' = ppvpa_key v \<and>
      (ppvpa_key v = vw_ppvpa V \<longrightarrow> TemporaryReplicas (ppvpa_Status v') \<in> {vw_temp V w, TemporaryReplicas (ppvpa_Status v)})"
    and "k_patch_deployment cl w d d0 = (w', r) \<Longrightarrow> vw_temp V w' = vw_temp V w \<and>
      (vw_size V w' = vw_size V w \<or> deployment_key d = vw_deployment V \<and> vw_size V w' = dep_replicas d)"
    and "k_evict cl w p ev = (w', r) \<Longrightarrow> same_view V w w'"
    and "k_create_prr cl w x = (w', r) \<Longrightarrow> same_view V w w'"
    and "k_delete_prr cl w x = (w', r) \<Longrightarrow> same_view V w w'"
    and "k_create_checkpoint cl w c = (w', r) \<Longrightarrow> same_view V w w'"
    and "k_patch_checkpoint_status cl w c c0 = (w', r) \<Longrightarrow> same_view V w w'"
  using assms unfolding plane_server_def by (metis fst_conv)+

lemma same_view_refl: "same_view V w w"
  by (simp add: same_view_def)

lemma same_view_trans: "same_view V w w' \<Longrightarrow> same_view V w' w'' \<Longrightarrow> same_view V w w''"
  by (simp add: same_view_def)

lemma status_written_same: "same_view V w w' \<Longrightarrow> status_written V v w w'"
  by (simp add: same_view_def status_written_def)

lemma status_written_after: "same_view V w w' \<Longrightarrow> status_written V v w' w'' \<Longrightarrow> status_written V v w w''"
  by (simp add: same_view_def status_written_def)

section \<open>The steps and the states they reach\<close>

text \<open>
  The requested size as the workload controller reads it: a target that is not set counts as
  zero. So \<open>lo\<close> is at most zero when the target may be unset.
\<close>

definition requested :: "'q ppvpa \<Rightarrow> int32" where
  "requested v = (case TargetReplicas (ppvpa_Spec v) of None \<Rightarrow> 0 | Some n \<Rightarrow> n)"

definition target_within :: "int32 \<Rightarrow> int32 \<Rightarrow> 'q ppvpa \<Rightarrow> bool" where
  "target_within lo hi v \<longleftrightarrow> lo \<le> requested v \<and> requested v \<le> hi"

text \<open>
  An autoscaler as it may have been read in the state \<open>w0\<close>: the observed one carries the
  temporary replicas of that state and requests a size between \<open>lo\<close> and \<open>hi\<close> (a user or an HPA
  may change the target at any time, set it or clear it); every other one has another
  deployment as its target.
\<close>

definition seen :: "'w view \<Rightarrow> int32 \<Rightarrow> int32 \<Rightarrow> 'w \<Rightarrow> 'q ppvpa \<Rightarrow> bool" where
  "seen V lo hi w0 v \<longleftrightarrow>
     (if ppvpa_key v = vw_ppvpa V then TemporaryReplicas (ppvpa_Status v) = vw_temp V w0 \<and> target_within lo hi v
      else target_key v \<noteq> vw_deployment V)"

definition budget_ok :: "'w view \<Rightarrow> scaler \<Rightarrow> int32 \<Rightarrow> 'q ppvpa \<Rightarrow> bool" where
  "budget_ok V scaled B v \<longleftrightarrow> (ppvpa_key v = vw_ppvpa V \<longrightarrow> surge_budget scaled v \<le> B)"

text \<open>
  The states of the control plane: it starts without temporary replicas on a deployment of
  any size \<open>m\<close>, the target seeded or not; a step works on an
  autoscaler as it was seen in some earlier state \<open>w0\<close>, with a surge budget of at most \<open>B\<close>;
  everything else that happens leaves the temporary replicas and the size of the deployment
  alone.
\<close>

inductive plane :: "('q, 'w) controller_env \<Rightarrow> 'w view \<Rightarrow> int32 \<Rightarrow> int32 \<Rightarrow> int32 \<Rightarrow> int32 \<Rightarrow> 'w \<Rightarrow> bool"
  for e V lo hi B m where
  start: "vw_temp V w = 0 \<Longrightarrow> vw_size V w = Some m \<Longrightarrow> plane e V lo hi B m w"
| other: "plane e V lo hi B m w \<Longrightarrow> same_view V w w' \<Longrightarrow> plane e V lo hi B m w'"
| update: "plane e V lo hi B m w0 \<Longrightarrow> plane e V lo hi B m w \<Longrightarrow> seen V lo hi w0 v \<Longrightarrow>
    k_update_ppvpa (ce_client e) w v = (w', q) \<Longrightarrow> plane e V lo hi B m w'"
| prrs: "plane e V lo hi B m w \<Longrightarrow> reconcilePRRs (ce_client e) ord w v pods = (w', r) \<Longrightarrow> plane e V lo hi B m w'"
| recommendation: "plane e V lo hi B m w0 \<Longrightarrow> plane e V lo hi B m w \<Longrightarrow> seen V lo hi w0 v \<Longrightarrow>
    reconcileRecommendation e w v now = (w', g) \<Longrightarrow> plane e V lo hi B m w'"
| replicas: "plane e V lo hi B m w0 \<Longrightarrow> plane e V lo hi B m w \<Longrightarrow> seen V lo hi w0 v \<Longrightarrow>
    reconcileReplicas (ce_client e) w v = (w', r) \<Longrightarrow> plane e V lo hi B m w'"
| anomaly: "plane e V lo hi B m w \<Longrightarrow> anomaly_Handle (ce_client e) w p = (w', r) \<Longrightarrow> plane e V lo hi B m w'"
| surge: "plane e V lo hi B m w0 \<Longrightarrow> plane e V lo hi B m w \<Longrightarrow> seen V lo hi w0 v \<Longrightarrow> budget_ok V (ce_scaled e) B v \<Longrightarrow>
    budgeted_Handle (ce_client e) (ce_scaled e) w v p now = (w', r) \<Longrightarrow> plane e V lo hi B m w'"
| checkpoint: "plane e V lo hi B m w \<Longrightarrow> store_checkpoint (ce_client e) w cp enc now = (w', c) \<Longrightarrow> plane e V lo hi B m w'"

definition within_surge :: "'w view \<Rightarrow> int32 \<Rightarrow> int32 \<Rightarrow> int32 \<Rightarrow> int32 \<Rightarrow> 'w \<Rightarrow> bool" where
  "within_surge V lo hi B m w \<longleftrightarrow>
     0 \<le> vw_temp V w \<and> vw_temp V w \<le> B \<and>
     (\<exists>s. vw_size V w = Some s \<and> min m (max 1 lo) \<le> s \<and> s \<le> max m (hi + B))"

lemma within_same: "same_view V w w' \<Longrightarrow> within_surge V lo hi B m w' \<longleftrightarrow> within_surge V lo hi B m w"
  by (simp add: same_view_def within_surge_def)

lemma within_written:
  assumes "status_written V v w w'" "within_surge V lo hi B m w"
    and "ppvpa_key v = vw_ppvpa V \<Longrightarrow> 0 \<le> TemporaryReplicas (ppvpa_Status v) \<and> TemporaryReplicas (ppvpa_Status v) \<le> B"
  shows "within_surge V lo hi B m w'"
  using assms by (auto simp: status_written_def within_surge_def)

lemma seen_temp:
  assumes "seen V lo hi w0 v" "within_surge V lo hi B m w0" "ppvpa_key v = vw_ppvpa V"
  shows "0 \<le> TemporaryReplicas (ppvpa_Status v) \<and> TemporaryReplicas (ppvpa_Status v) \<le> B"
  using assms by (simp add: seen_def within_surge_def)

subsection \<open>One lemma per step\<close>

lemma create_loop_view:
  assumes "plane_server cl V"
  shows "create_loop cl v byPod w ps = (w', r) \<Longrightarrow> same_view V w w'"
proof (induction ps arbitrary: w)
  case (Cons p ps)
  obtain w1 r1 where c: "k_create_prr cl w (new_prr v (om_name (pod_meta p))) = (w1, r1)" by fastforce
  note s = plane_serverD(8) [OF assms c]
  have "w' = w1 \<or> create_loop cl v byPod w ps = (w', r) \<or> create_loop cl v byPod w1 ps = (w', r)"
    using Cons.prems c by (auto split: if_split_asm option.split_asm)
  then show ?case using Cons.IH [of w] Cons.IH [of w1] s same_view_trans [OF s] by blast
qed (simp add: same_view_refl)

lemma delete_loop_view:
  assumes "plane_server cl V"
  shows "delete_loop cl live w xs = (w', r) \<Longrightarrow> same_view V w w'"
proof (induction xs arbitrary: w)
  case (Cons x xs)
  obtain n p where x: "x = (n, p)" by (cases x)
  obtain w1 r1 where c: "k_delete_prr cl w p = (w1, r1)" by fastforce
  note s = plane_serverD(9) [OF assms c]
  have "w' = w1 \<or> delete_loop cl live w xs = (w', r) \<or> delete_loop cl live w1 xs = (w', r)"
    using Cons.prems x c by (auto split: if_split_asm option.split_asm)
  then show ?case using Cons.IH [of w] Cons.IH [of w1] s same_view_trans [OF s] by blast
qed (simp add: same_view_refl)

lemma reconcilePRRs_view:
  assumes "plane_server cl V" "reconcilePRRs cl ord w v pods = (w', r)"
  shows "same_view V w w'"
proof -
  have "w' = w \<or> (\<exists>byPod w1 r1. create_loop cl v byPod w pods = (w1, r1) \<and>
      (w' = w1 \<or> (\<exists>live xs. delete_loop cl live w1 xs = (w', r))))"
    using assms(2) by (auto simp: reconcilePRRs_def Let_def split: sum.split_asm prod.split_asm option.split_asm)
  then show ?thesis
  proof (elim disjE exE conjE)
    fix byPod w1 r1 live xs
    assume "create_loop cl v byPod w pods = (w1, r1)" "delete_loop cl live w1 xs = (w', r)"
    then show ?thesis by (rule same_view_trans [OF create_loop_view [OF assms(1)] delete_loop_view [OF assms(1)]])
  qed (simp_all add: same_view_refl create_loop_view [OF assms(1)])
qed

lemma reconcileRecommendation_view:
  assumes "plane_server (ce_client e) V" "reconcileRecommendation e w v now = (w', g)"
  shows "status_written V v w w'"
proof -
  have "w' = w \<or> (\<exists>x r. k_patch_ppvpa_status (ce_client e) w (with_recommendation v x) v = (w', r))"
    using assms(2) by (auto simp: reconcileRecommendation_def with_recommendation_def
        split: sum.split_asm go.split_asm prod.split_asm)
  then show ?thesis
  proof (elim disjE exE)
    fix x r assume "k_patch_ppvpa_status (ce_client e) w (with_recommendation v x) v = (w', r)"
    from plane_serverD(2) [OF assms(1) this] show ?thesis
      by (simp add: status_written_def with_recommendation_def ppvpa_key_def)
  qed (simp add: status_written_same same_view_refl)
qed

lemma reconcileReplicas_sized:
  assumes "plane_server cl V" "reconcileReplicas cl w v = (w', r)" "0 < desired_replicas v"
  shows "vw_temp V w' = vw_temp V w \<and> (vw_size V w' = vw_size V w \<or> vw_size V w' = Some (desired_replicas v))"
proof -
  have "w' = w \<or> (\<exists>d d0 x. dep_replicas d = Some (desired_replicas v) \<and> k_patch_deployment cl w d d0 = (w', x))"
    using assms(2,3) by (auto simp: reconcileReplicas_def Let_def split: if_split_asm sum.split_asm)
  then show ?thesis using plane_serverD(6) [OF assms(1)] by metis
qed

text \<open>With nothing to scale to, the pass only seeds the target and the active replicas.\<close>

lemma reconcileReplicas_seeds:
  assumes "plane_server cl V" "reconcileReplicas cl w v = (w', r)" "desired_replicas v \<le> 0"
  shows "status_written V v w w'"
proof -
  have a: "status_written V v w1 w2" if "k_patch_ppvpa_status cl w1 (with_active v n) v = (w2, x)" for w1 w2 n x
    using plane_serverD(2) [OF assms(1) that] by (simp add: status_written_def with_active_def ppvpa_key_def)
  have "w' = w \<or> (\<exists>n x. k_patch_ppvpa_status cl w (with_active v n) v = (w', x)) \<or>
    (\<exists>n w1 x y. k_patch_ppvpa cl w (with_target v n) v = (w1, x) \<and>
       (w' = w1 \<or> k_patch_ppvpa_status cl w1 (with_active v n) v = (w', y)))"
    using assms(2,3)
    by (fastforce simp: reconcileReplicas_def Let_def split: if_split_asm sum.split_asm prod.split_asm option.split_asm)
  then show ?thesis
  proof (elim disjE exE conjE)
    fix n w1 x assume "k_patch_ppvpa cl w (with_target v n) v = (w1, x)" "w' = w1"
    then show ?thesis using status_written_same [OF plane_serverD(3) [OF assms(1)]] by blast
  next
    fix n w1 x y assume "k_patch_ppvpa cl w (with_target v n) v = (w1, x)" "k_patch_ppvpa_status cl w1 (with_active v n) v = (w', y)"
    then show ?thesis using status_written_after [OF plane_serverD(3) [OF assms(1)] a] by blast
  qed (auto intro: a simp: status_written_same same_view_refl)
qed

text \<open>A pass over another autoscaler, whose target is another deployment.\<close>

lemma reconcileReplicas_foreign:
  assumes "plane_server cl V" "reconcileReplicas cl w v = (w', r)"
    and "ppvpa_key v \<noteq> vw_ppvpa V" "target_key v \<noteq> vw_deployment V"
  shows "same_view V w w'"
proof -
  have k: "ppvpa_key (with_active v n) = ppvpa_key v" "deployment_key (d\<lparr>dep_replicas := m\<rparr>) = deployment_key d" for n d m
    by (simp_all add: ppvpa_key_def with_active_def deployment_key_def)
  have a: "same_view V w1 w'" if "k_patch_ppvpa_status cl w1 (with_active v n) v = (w', x)" for w1 n x
    using plane_serverD(2) [OF assms(1) that] assms(3) by (simp add: status_written_def same_view_def k)
  have b: "same_view V w w'" if "k_patch_ppvpa cl w (with_target v m) v = (w1, y)"
    "k_patch_ppvpa_status cl w1 (with_active v n) v = (w', x)" for w1 m n x y
    by (rule same_view_trans [OF plane_serverD(3) [OF assms(1) that(1)] a [OF that(2)]])
  have d: "same_view V w w'"
    if "k_get_deployment cl w (om_namespace (ppvpa_meta v)) (tr_name (TargetRef (ppvpa_Spec v))) = Inr d"
      "k_patch_deployment cl w (d\<lparr>dep_replicas := m\<rparr>) d = (w', x)" for d m x
    using plane_serverD(1) [OF assms(1) that(1)] plane_serverD(6) [OF assms(1) that(2)] assms(4)
    by (simp add: same_view_def k target_key_def)
  show ?thesis
    using assms(2) a b d plane_serverD(3) [OF assms(1)] same_view_refl
    by (auto simp: reconcileReplicas_def Let_def split: if_split_asm sum.split_asm prod.split_asm option.split_asm)
qed

lemma evictPod_view:
  assumes "plane_server cl V" "evictPod cl w p = (w', r)"
  shows "same_view V w w'"
  using plane_serverD(7) [OF assms(1)] assms(2) unfolding evictPod_def by blast

lemma anomaly_Handle_view:
  assumes "plane_server cl V" "anomaly_Handle cl w p = (w', r)"
  shows "same_view V w w'"
  using assms(2) evictPod_view [OF assms(1)] same_view_refl by (auto simp: anomaly_Handle_def split: sum.split_asm)

lemma budgeted_Handle_foreign:
  assumes "plane_server cl V" "budgeted_Handle cl scaled w v p now = (w', r)" "ppvpa_key v \<noteq> vw_ppvpa V"
  shows "same_view V w w'"
proof -
  have "same_view V w w' \<or> (\<exists>w1 x y n. same_view V w w1 \<and> ppvpa_key x = ppvpa_key v \<and> k_patch_ppvpa_status cl w1 x y = (w', n))"
    using assms(2) evictPod_view [OF assms(1)] same_view_refl [of V w]
    by (fastforce simp: budgeted_Handle_def Let_def decremented_def with_temporary_def ppvpa_key_def
        split: if_split_asm sum.split_asm prod.split_asm option.split_asm)
  then show ?thesis
    using plane_serverD(2) [OF assms(1)] assms(3) unfolding same_view_def status_written_def by metis
qed

lemma perform_written:
  assumes "plane_server cl V"
  shows "status_written V (with_temporary v (temp_after v a)) w (fst (perform cl w v a))"
proof -
  have s: "status_written V (with_temporary v n) w1 (fst (k_patch_ppvpa_status cl w1 (with_temporary v n) v))" for n w1
    using plane_serverD(2) [OF assms] by (metis prod.collapse)
  note same = status_written_same [OF same_view_refl]
  show ?thesis
  proof (cases a)
    case (EvictPod p)
    obtain w1 r where r: "evictPod cl w p = (w1, r)" by fastforce
    note v = evictPod_view [OF assms r]
    show ?thesis
      using r EvictPod status_written_same [OF v] status_written_after [OF v s]
      by (cases r) (simp_all add: perform_def)
  next
    case Bump
    then show ?thesis using s [of "temp_after v a" w] by (simp add: perform_def case_prod_unfold Let_def)
  next
    case Rollback
    then show ?thesis using s [of "temp_after v a" w] by (simp add: perform_def)
  qed (simp_all add: perform_def same)
qed

lemma budgeted_Handle_within:
  assumes "plane_server cl V" "budgeted_Handle cl scaled w v p now = (w', r)"
    and "0 \<le> TemporaryReplicas (ppvpa_Status v)" "TemporaryReplicas (ppvpa_Status v) \<le> B"
    and "surge_budget scaled v \<le> B" "B < 2 ^ 31" "within_surge V lo hi B m w"
  shows "within_surge V lo hi B m w'"
proof -
  have "is_int32 (TemporaryReplicas (ppvpa_Status v))" using assms(3,4,6) by (simp add: in_width_def)
  then have w': "w' = fst (perform cl w v (decide cl scaled w v p now))"
    using budgeted_refines_decision_aux [of v cl scaled w p now] assms(2,3) by (metis fst_conv)
  show ?thesis unfolding w'
    by (rule within_written [OF perform_written [OF assms(1)] assms(7)])
      (use temp_after_range [OF assms(3,4,6,5), of cl w p now] in \<open>simp add: with_temporary_def\<close>)
qed

lemma store_checkpoint_view:
  assumes "plane_server cl V" "store_checkpoint cl w cp enc now = (w', c)"
  shows "same_view V w w'"
proof -
  obtain w1 r where r: "k_create_checkpoint cl w cp = (w1, r)" by fastforce
  have "w' = w1 \<or> (\<exists>x y z. k_patch_checkpoint_status cl w1 x y = (w', z))"
    using assms(2) r by (auto simp: store_checkpoint_def split: if_split_asm sum.split_asm prod.split_asm option.split_asm)
  then show ?thesis
    using plane_serverD(10) [OF assms(1) r] plane_serverD(11) [OF assms(1)] same_view_trans by metis
qed

lemma desired_within:
  assumes "target_within lo hi v" "- (2 ^ 31) \<le> lo" "0 \<le> TemporaryReplicas (ppvpa_Status v)"
    and "TemporaryReplicas (ppvpa_Status v) \<le> B" "hi + B < 2 ^ 31"
  shows "lo \<le> desired_replicas v \<and> desired_replicas v \<le> hi + B"
proof -
  have "is_int32 (requested v + TemporaryReplicas (ppvpa_Status v))"
    using assms by (simp add: target_within_def in_width_def)
  then have "desired_replicas v = requested v + TemporaryReplicas (ppvpa_Status v)"
    unfolding desired_replicas_def requested_def [symmetric] by (intro wrap_id) simp_all
  then show ?thesis using assms(1,3,4) by (simp add: target_within_def)
qed

text \<open>The step on the observed autoscaler, the target set or not.\<close>

lemma reconcileReplicas_within:
  assumes "plane_server cl V" "reconcileReplicas cl w v = (w', r)" "target_within lo hi v"
    and "0 \<le> TemporaryReplicas (ppvpa_Status v)" "TemporaryReplicas (ppvpa_Status v) \<le> B"
    and "- (2 ^ 31) \<le> lo" "hi + B < 2 ^ 31" "within_surge V lo hi B m w"
  shows "within_surge V lo hi B m w'"
proof (cases "0 < desired_replicas v")
  case True
  have "max 1 lo \<le> desired_replicas v" "desired_replicas v \<le> hi + B"
    using desired_within [OF assms(3,6,4,5,7)] True by simp_all
  then show ?thesis using reconcileReplicas_sized [OF assms(1,2) True] assms(8) by (auto simp: within_surge_def)
next
  case False
  then show ?thesis
    using within_written [OF reconcileReplicas_seeds [OF assms(1,2)] assms(8)] assms(4,5) by simp
qed

subsection \<open>The invariant\<close>

lemma plane_within_surge:
  assumes "plane e V lo hi B m w" "plane_server (ce_client e) V" "- (2 ^ 31) \<le> lo" "0 \<le> B" "B < 2 ^ 31" "hi + B < 2 ^ 31"
  shows "within_surge V lo hi B m w"
  using assms(1)
proof (induction rule: plane.induct)
  case (start w)
  then show ?case using assms(4) by (simp add: within_surge_def)
next
  case (other w w')
  then show ?case by (simp add: within_same)
next
  case (update w0 w v w' q)
  show ?case
    by (rule within_written [OF plane_serverD(4) [OF assms(2) update(4)] update.IH(2)])
      (rule seen_temp [OF update(3) update.IH(1)])
next
  case (prrs w ord v pods w' r)
  then show ?case using within_same [OF reconcilePRRs_view [OF assms(2) prrs(2)]] by simp
next
  case (recommendation w0 w v now w' g)
  show ?case
    by (rule within_written [OF reconcileRecommendation_view [OF assms(2) recommendation(4)] recommendation.IH(2)])
      (rule seen_temp [OF recommendation(3) recommendation.IH(1)])
next
  case (replicas w0 w v w' r)
  show ?case
  proof (cases "ppvpa_key v = vw_ppvpa V")
    case True
    then show ?thesis
      using reconcileReplicas_within [OF assms(2) replicas(4) _ _ _ assms(3,6) replicas.IH(2)]
        seen_temp [OF replicas(3) replicas.IH(1) True] replicas(3) by (simp add: seen_def)
  next
    case False
    then have "target_key v \<noteq> vw_deployment V" using replicas(3) by (simp add: seen_def)
    from reconcileReplicas_foreign [OF assms(2) replicas(4) False this]
    show ?thesis using replicas.IH(2) by (simp add: within_same)
  qed
next
  case (anomaly w p w' r)
  then show ?case using within_same [OF anomaly_Handle_view [OF assms(2) anomaly(2)]] by simp
next
  case (surge w0 w v p now w' r)
  show ?case
  proof (cases "ppvpa_key v = vw_ppvpa V")
    case True
    then show ?thesis
      using assms(5) budgeted_Handle_within [OF assms(2) surge(5)] seen_temp [OF surge(3) surge.IH(1) True] surge(4) surge.IH(2) True
      by (simp add: budget_ok_def)
  next
    case False
    then show ?thesis using within_same [OF budgeted_Handle_foreign [OF assms(2) surge(5) False]] surge.IH(2) by simp
  qed
next
  case (checkpoint w cp enc now w' c)
  then show ?case using within_same [OF store_checkpoint_view [OF assms(2) checkpoint(2)]] by simp
qed


section \<open>Whole passes\<close>

text \<open>What a pass reads now is as it was seen in the present state, its budgets at most \<open>B\<close>.\<close>

definition reads_ok :: "('q, 'w) controller_env \<Rightarrow> 'w view \<Rightarrow> int32 \<Rightarrow> int32 \<Rightarrow> int32 \<Rightarrow> 'w \<Rightarrow> bool" where
  "reads_ok e V lo hi B w \<longleftrightarrow>
     (\<forall>ns n v. k_get_ppvpa (ce_client e) w ns n = Inr v \<longrightarrow> seen V lo hi w v \<and> budget_ok V (ce_scaled e) B v)"

lemma reads_okD:
  assumes "reads_ok e V lo hi B w" "k_get_ppvpa (ce_client e) w ns n = Inr v"
  shows "seen V lo hi w v" "budget_ok V (ce_scaled e) B v"
  using assms unfolding reads_ok_def by blast+

text \<open>The contract of a reconciler: a pass is made of steps of the control plane.\<close>

locale control_pass =
  fixes pass :: "('q, 'w) controller_env \<Rightarrow> 'w \<Rightarrow> string \<Rightarrow> string \<Rightarrow> time \<Rightarrow> 'w"
  assumes stays: "plane_server (ce_client e) V \<Longrightarrow> plane e V lo hi B m w \<Longrightarrow> reads_ok e V lo hi B w \<Longrightarrow>
    plane e V lo hi B m (pass e w ns n now)"
begin

lemma pass_within:
  assumes "plane_server (ce_client e) V" "plane e V lo hi B m w" "reads_ok e V lo hi B w"
    and "- (2 ^ 31) \<le> lo" "0 \<le> B" "B < 2 ^ 31" "hi + B < 2 ^ 31"
  shows "within_surge V lo hi B m (pass e w ns n now)"
  by (rule plane_within_surge [OF stays [OF assms(1-3)] assms(1,4-7)])

end

lemma reconcile_live_plane:
  assumes "plane e V lo hi B m w" "plane e V lo hi B m w0" "seen V lo hi w0 v" "reconcile_live e ord w v now = (w', r)"
  shows "plane e V lo hi B m w'"
proof (cases "targetedPods (ce_client e) w v")
  case (Inr pods)
  obtain w1 r1 where s1: "reconcilePRRs (ce_client e) ord w v pods = (w1, r1)" by fastforce
  obtain w2 r2 where s2: "reconcileRecommendation e w1 v now = (w2, r2)" by fastforce
  obtain w3 r3 where s3: "reconcileReplicas (ce_client e) w2 v = (w3, r3)" by fastforce
  have p1: "plane e V lo hi B m w1" by (rule plane.prrs [OF assms(1) s1])
  have p2: "plane e V lo hi B m w2" by (rule plane.recommendation [OF assms(2) p1 assms(3) s2])
  have p3: "plane e V lo hi B m w3" by (rule plane.replicas [OF assms(2) p2 assms(3) s3])
  have "w' = w1 \<or> w' = w2 \<or> w' = w3"
    using assms(4) Inr s1 s2 s3 by (auto simp: reconcile_live_def split: option.split_asm go.split_asm)
  then show ?thesis using p1 p2 p3 by blast
qed (use assms in \<open>simp add: reconcile_live_def\<close>)

lemma seen_updated:
  assumes "plane_server cl V" "seen V lo hi w v" "k_update_ppvpa cl w v = (w', Inr v')"
  shows "seen V lo hi w v'"
proof -
  note u = plane_serverD(5) [OF assms(1,3)]
  have "target_key v' = target_key v" using u by (simp add: target_key_def ppvpa_key_def)
  then show ?thesis using u assms(2) by (auto simp: seen_def target_within_def requested_def split: if_split_asm)
qed

lemma seen_with_finalizers: "seen V lo hi w (with_finalizers v fs) \<longleftrightarrow> seen V lo hi w v"
  by (simp add: seen_def with_finalizers_def ppvpa_key_def target_key_def target_within_def requested_def)

lemma ppvpa_pass_plane:
  assumes "plane_server (ce_client e) V" "plane e V lo hi B m w" "reads_ok e V lo hi B w"
  shows "plane e V lo hi B m (fst (ppvpa_Reconcile e ord w ns name now))"
proof (cases "k_get_ppvpa (ce_client e) w ns name")
  case (Inr v)
  note v = reads_okD(1) [OF assms(3) Inr]
  have live: "plane e V lo hi B m (fst (reconcile_live e ord w1 v1 now))"
    if "plane e V lo hi B m w1" "seen V lo hi w v1" for w1 v1
    by (rule reconcile_live_plane [OF that(1) assms(2) that(2) prod.collapse [symmetric]])
  have upd: "plane e V lo hi B m w1" if "k_update_ppvpa (ce_client e) w (with_finalizers v fs) = (w1, q)" for fs w1 q
    by (rule plane.update [OF assms(2,2) _ that]) (simp add: seen_with_finalizers v)
  consider "is_deleting (ppvpa_meta v)"
    | "\<not> is_deleting (ppvpa_meta v)" "containsString (om_finalizers (ppvpa_meta v)) ppvpaFinalizer"
    | "\<not> is_deleting (ppvpa_meta v)" "\<not> containsString (om_finalizers (ppvpa_meta v)) ppvpaFinalizer"
    by blast
  then show ?thesis
  proof cases
    case 1
    obtain w1 q where u: "k_update_ppvpa (ce_client e) w
        (with_finalizers v (removeString (om_finalizers (ppvpa_meta v)) ppvpaFinalizer)) = (w1, q)" by fastforce
    have "fst (ppvpa_Reconcile e ord w ns name now) \<in> {w, w1}"
      using Inr 1 u by (cases q) (auto simp: ppvpa_Reconcile_def finalize_def Let_def)
    then show ?thesis using upd [OF u] assms(2) by auto
  next
    case 2
    then show ?thesis using Inr live [OF assms(2) v] by (simp add: ppvpa_Reconcile_def)
  next
    case 3
    obtain w1 q where u: "k_update_ppvpa (ce_client e) w
        (with_finalizers v (om_finalizers (ppvpa_meta v) @ [ppvpaFinalizer])) = (w1, q)" by fastforce
    note p1 = upd [OF u]
    show ?thesis
    proof (cases q)
      case Inl
      then show ?thesis using p1 Inr 3 u by (simp add: ppvpa_Reconcile_def)
    next
      case v1: (Inr v1)
      have "seen V lo hi w v1"
        by (rule seen_updated [OF assms(1) _ u [unfolded v1]]) (simp add: seen_with_finalizers v)
      then show ?thesis using live [OF p1] Inr 3 u v1 by (simp add: ppvpa_Reconcile_def)
    qed
  qed
qed (use assms in \<open>simp add: ppvpa_Reconcile_def\<close>)

lemma prr_pass_plane:
  assumes "plane e V lo hi B m w" "reads_ok e V lo hi B w"
  shows "plane e V lo hi B m (fst (prr_Reconcile e anomaly fallback w ns name now))"
proof (cases "fst (prr_Reconcile e anomaly fallback w ns name now) = w")
  case False
  then obtain p where p: "k_get_prr (ce_client e) w ns name = Inr p"
    by (auto simp: prr_Reconcile_def split: sum.split_asm)
  obtain v where v: "parentPPVPA (ce_client e) w p = (Some v, None)"
    using False p by (auto simp: prr_Reconcile_def split: prod.split_asm option.split_asm)
  then obtain n where "k_get_ppvpa (ce_client e) w (om_namespace (prr_meta p)) n = Inr v"
    using parent_loop_get [of "ce_client e" w] unfolding parentPPVPA_def by metis
  note b = reads_okD [OF assms(2) this]
  obtain wa ra where a: "anomaly_Handle (ce_client e) w p = (wa, ra)" by fastforce
  define w1 where "w1 = (if hasCondition (prr_Conditions (prr_Status p)) PRRConditionAnomalous \<and> anomaly then wa else w)"
  have p1: "plane e V lo hi B m w1" using plane.anomaly [OF assms(1) a] assms(1) by (simp add: w1_def)
  obtain w2 r2 where h: "budgeted_Handle (ce_client e) (ce_scaled e) w1 v p now = (w2, r2)" by fastforce
  have "fst (prr_Reconcile e anomaly fallback w ns name now) \<in> {w1, w2}"
    using p v a h by (auto simp: prr_Reconcile_def w1_def Let_def split: if_split)
  then show ?thesis using p1 plane.surge [OF assms(1) p1 b h] by auto
qed (use assms in simp)

lemma checkpoint_pass_plane:
  assumes "plane e V lo hi B m w"
  shows "plane e V lo hi B m (fst (checkpoint_Reconcile e w ns name now now'))"
proof -
  have "fst (checkpoint_Reconcile e w ns name now now') = w \<or>
    (\<exists>cp enc c. store_checkpoint (ce_client e) w cp enc now' = (fst (checkpoint_Reconcile e w ns name now now'), c))"
    by (auto simp: checkpoint_Reconcile_def split: sum.split go.split prod.split)
  then show ?thesis using assms plane.checkpoint by metis
qed

interpretation workload_pass: control_pass "\<lambda>e w ns n now. fst (ppvpa_Reconcile e ord w ns n now)" for ord
  by unfold_locales (rule ppvpa_pass_plane)

interpretation prr_pass: control_pass "\<lambda>e w ns n now. fst (prr_Reconcile e anomaly fallback w ns n now)" for anomaly fallback
  by unfold_locales (rule prr_pass_plane)

interpretation checkpoint_pass: control_pass "\<lambda>e w ns n now. fst (checkpoint_Reconcile e w ns n now now')" for now'
  by unfold_locales (rule checkpoint_pass_plane)

text \<open>
  (C3) The deployment never leaves its surge budget: it starts with any size \<open>m\<close> and no
  temporary replicas, its target set or not yet set. Whatever the three controllers and the
  two handlers then do on whichever autoscalers, in whatever order, on objects read however
  long ago, with whichever calls failing, and while the requested size (zero when the target
  is unset) moves between \<open>lo\<close> and \<open>hi\<close>, the deployment has at least \<open>lo\<close> replicas and at least
  one, unless it started with fewer, and at most \<open>hi + B\<close>, unless it started with more, where
  \<open>B\<close> is the largest surge budget; the temporary replicas stay between zero and \<open>B\<close>. No second autoscaler has the same deployment
  as its target, nobody else resizes the deployment, and sizes fit 32 bits.
\<close>

theorem deployment_within_surge:
  assumes "plane e V lo hi B m w" "plane_server (ce_client e) V"
    and "- (2 ^ 31) \<le> lo" "0 \<le> B" "B < 2 ^ 31" "hi + B < 2 ^ 31"
  shows "0 \<le> vw_temp V w \<and> vw_temp V w \<le> B \<and>
    (\<exists>s. vw_size V w = Some s \<and> min m (max 1 lo) \<le> s \<and> s \<le> max m (hi + B))"
  using plane_within_surge [OF assms] by (simp add: within_surge_def)

text \<open>
  The lower bound is no more than one as long as the target may be unset: a surge that begins
  before the target was seeded makes the pass shrink the deployment to the temporary replicas.
\<close>

lemma unset_target_shrinks:
  assumes "tr_kind (TargetRef (ppvpa_Spec v)) = ''Deployment''"
    and "k_get_deployment cl w (om_namespace (ppvpa_meta v)) (tr_name (TargetRef (ppvpa_Spec v))) = Inr dep"
    and "TargetReplicas (ppvpa_Spec v) = None" "TemporaryReplicas (ppvpa_Status v) = t" "0 < t" "t < 2 ^ 31"
    and "dep_replicas dep \<noteq> Some t"
  shows "reconcileReplicas cl w v = k_patch_deployment cl w (dep\<lparr>dep_replicas := Some t\<rparr>) dep"
proof -
  have "is_int32 t" using assms(5,6) by (simp add: in_width_def)
  then have "wrap32 t = t" by (intro wrap_id) simp_all
  then have "desired_replicas v = t" using assms(3,4) by (simp add: desired_replicas_def)
  then show ?thesis using assms by (simp add: reconcileReplicas_def)
qed

section \<open>A schedule of passes\<close>

text \<open>
  The manager calls the reconcilers one after the other, in an order nobody controls; between
  two passes somebody else may act on the cluster. \<open>RunManager\<close> configures both handlers.
\<close>

datatype ('q, 'w) request =
    WorkloadDue "(string \<times> 'q prr) list \<Rightarrow> (string \<times> 'q prr) list" string string time
  | RecommendationDue string string time
  | CheckpointDue string string time time
  | Outside "'w \<Rightarrow> 'w"

fun serve :: "('q, 'w) controller_env \<Rightarrow> ('q, 'w) request \<Rightarrow> 'w \<Rightarrow> 'w" where
  "serve e (WorkloadDue ord ns n now) w = fst (ppvpa_Reconcile e ord w ns n now)"
| "serve e (RecommendationDue ns n now) w = fst (prr_Reconcile e True True w ns n now)"
| "serve e (CheckpointDue ns n now now') w = fst (checkpoint_Reconcile e w ns n now now')"
| "serve e (Outside f) w = f w"

fun serve_all :: "('q, 'w) controller_env \<Rightarrow> ('q, 'w) request list \<Rightarrow> 'w \<Rightarrow> 'w" where
  "serve_all e [] w = w"
| "serve_all e (r # rs) w = serve_all e rs (serve e r w)"

text \<open>
  Along the schedule every read is admissible, and nobody else touches the temporary replicas
  or resizes the deployment.
\<close>

fun reads_along ::
  "('q, 'w) controller_env \<Rightarrow> 'w view \<Rightarrow> int32 \<Rightarrow> int32 \<Rightarrow> int32 \<Rightarrow> ('q, 'w) request list \<Rightarrow> 'w \<Rightarrow> bool" where
  "reads_along e V lo hi B [] w = True"
| "reads_along e V lo hi B (r # rs) w \<longleftrightarrow>
     reads_ok e V lo hi B w \<and> (\<forall>f. r = Outside f \<longrightarrow> same_view V w (f w)) \<and>
     reads_along e V lo hi B rs (serve e r w)"

lemma serve_plane:
  assumes "plane_server (ce_client e) V" "plane e V lo hi B m w" "reads_ok e V lo hi B w"
    and "\<forall>f. r = Outside f \<longrightarrow> same_view V w (f w)"
  shows "plane e V lo hi B m (serve e r w)"
  using assms(4) workload_pass.stays [OF assms(1-3)] prr_pass.stays [OF assms(1-3)] checkpoint_pass.stays [OF assms(1-3)]
    plane.other [OF assms(2)]
  by (cases r) auto

lemma serve_all_plane:
  assumes "plane_server (ce_client e) V"
  shows "plane e V lo hi B m w \<Longrightarrow> reads_along e V lo hi B rs w \<Longrightarrow> plane e V lo hi B m (serve_all e rs w)"
proof (induction rs arbitrary: w)
  case (Cons r rs)
  then show ?case using serve_plane [OF assms Cons.prems(1), of r] by simp
qed simp

text \<open>
  (C11) Any schedule of whole passes keeps the deployment within the surge: started with any
  size \<open>m\<close> and without temporary replicas, the target set or not, after any sequence of passes
  of the three controllers over whichever objects, with whichever calls failing, and of
  changes by others, the deployment has at least the smallest requested size (an unset target
  counts as zero) and at least one, unless it started with fewer, and at most the largest
  requested size plus the surge budget, unless it started with more. No second autoscaler has
  the same deployment as its target, and the others do not resize it.
\<close>

theorem schedule_within_surge:
  assumes "plane_server (ce_client e) V" "vw_temp V w = 0" "vw_size V w = Some m"
    and "- (2 ^ 31) \<le> lo" "0 \<le> B" "B < 2 ^ 31" "hi + B < 2 ^ 31" "reads_along e V lo hi B rs w"
  shows "\<exists>s. vw_size V (serve_all e rs w) = Some s \<and> min m (max 1 lo) \<le> s \<and> s \<le> max m (hi + B) \<and>
    0 \<le> vw_temp V (serve_all e rs w) \<and> vw_temp V (serve_all e rs w) \<le> B"
proof -
  have "plane e V lo hi B m w" using assms(2,3) by (rule plane.start)
  from plane_within_surge [OF serve_all_plane [OF assms(1) this assms(8)] assms(1,4-7)]
  show ?thesis by (auto simp: within_surge_def)
qed

end
