(* ===== verification/Surge.thy ===== *)
theory Surge
  imports ControlPlane
begin

text \<open>
  One surge from start to end through the passes of the controllers, and a cluster on which it
  happens: the instance at which the theorems about the control plane are evaluated.
\<close>

section \<open>A surge from start to end\<close>

text \<open>A pass of the workload controller in which every step succeeds.\<close>

definition settled_pass ::
  "('q, 'w) controller_env \<Rightarrow> ((string \<times> 'q prr) list \<Rightarrow> (string \<times> 'q prr) list) \<Rightarrow> 'w \<Rightarrow> 'q ppvpa \<Rightarrow> time \<Rightarrow> 'w \<Rightarrow> bool" where
  "settled_pass e ord w v now w' \<longleftrightarrow>
     (\<exists>pods w1 w2. targetedPods (ce_client e) w v = Inr pods \<and>
        reconcilePRRs (ce_client e) ord w v pods = (w1, None) \<and>
        reconcileRecommendation e w1 v now = (w2, Ret None) \<and>
        reconcileReplicas (ce_client e) w2 v = (w', None))"

lemma settled_pass_live:
  "settled_pass e ord w v now w' \<Longrightarrow> reconcile_live e ord w v now = (w', Ret (requeue_after (60 * Second), None))"
  by (auto simp: settled_pass_def reconcile_live_def)

definition deployment_of :: "('q, 'w) client \<Rightarrow> 'w \<Rightarrow> 'q ppvpa \<Rightarrow> go_error + deployment" where
  "deployment_of cl w v = k_get_deployment cl w (om_namespace (ppvpa_meta v)) (tr_name (TargetRef (ppvpa_Spec v)))"

lemma settled_pass_effect:
  assumes "workload_server (ce_client e) st" "k_get_ppvpa (ce_client e) w ns name = Inr v"
    and "deployment_of (ce_client e) w v = Inr dep" "0 < desired_replicas v" "settled_pass e ord w v now w'"
  shows "\<exists>rec dep'. k_get_ppvpa (ce_client e) w' ns name = Inr (with_recommendation v rec) \<and>
    deployment_of (ce_client e) w' v = Inr dep' \<and> dep_replicas dep' = Some (desired_replicas v)"
proof -
  obtain pods w1 w2 where steps: "targetedPods (ce_client e) w v = Inr pods"
    "reconcilePRRs (ce_client e) ord w v pods = (w1, None)" "reconcileRecommendation e w1 v now = (w2, Ret None)"
    "reconcileReplicas (ce_client e) w2 v = (w', None)"
    using assms(5) by (auto simp: settled_pass_def)
  note f = reconcilePRRs_frame [OF assms(1) steps(2)]
  have g: "k_get_ppvpa (ce_client e) w1 ns name = Inr v" using f assms(2) by simp
  obtain rec where r: "k_get_ppvpa (ce_client e) w2 ns name = Inr (with_recommendation v rec)"
    "k_get_deployment (ce_client e) w2 = k_get_deployment (ce_client e) w1"
    using recommendation_step [OF assms(1) g steps(3)] by blast
  have k: "tr_kind (TargetRef (ppvpa_Spec v)) = ''Deployment''"
    using steps(1) by (simp add: targetedPods_def Let_def split: if_split_asm)
  have d: "k_get_deployment (ce_client e) w2 (om_namespace (ppvpa_meta v)) (tr_name (TargetRef (ppvpa_Spec v))) = Inr dep"
    using assms(3) f r(2) by (simp add: deployment_of_def)
  show ?thesis using replicas_step [OF assms(1) r(1) k d steps(4)] assms(4) by (auto simp: deployment_of_def)
qed

lemma with_temporary_parts:
  "ppvpa_meta (with_temporary v n) = ppvpa_meta v" "TemporaryReplicas (ppvpa_Status (with_temporary v n)) = n"
  by (simp_all add: with_temporary_def)

lemma merge_temporary: "merge_status v (with_temporary v n) v = with_temporary v n" "mergeable v (with_temporary v n) v"
  by (simp_all add: merge_status_def pick_def with_temporary_def mergeable_def)

lemma bump_effect:
  assumes "workload_server cl st" "k_get_ppvpa cl w ns name = Inr v" "budgeted_Handle cl scaled w v p now = (w', None)"
    and "TemporaryReplicas (ppvpa_Status v) < surge_budget scaled v" "0 \<le> TemporaryReplicas (ppvpa_Status v)"
    and "TemporaryReplicas (ppvpa_Status v) + 1 < 2 ^ 31"
  shows "k_get_ppvpa cl w' ns name = Inr (with_temporary v (TemporaryReplicas (ppvpa_Status v) + 1)) \<and>
    k_get_deployment cl w' = k_get_deployment cl w"
proof -
  let ?t = "TemporaryReplicas (ppvpa_Status v)"
  have "wrap32 (?t + 1) = ?t + 1" using assms(5,6) by (intro wrap_id) (simp_all add: in_width_def)
  then have "k_patch_ppvpa_status cl w (with_temporary v (?t + 1)) v = (w', None)"
    using assms(3,4) by (simp add: budgeted_Handle_def Let_def split: prod.split_asm option.split_asm)
  then show ?thesis
    using workload_serverD(9) [OF assms(1,2) merge_temporary(2)] workload_serverD(6) [OF assms(1)]
    by (simp add: merge_temporary)
qed

text \<open>An eviction leaves autoscalers and deployments alone.\<close>

definition eviction_server :: "('q, 'w) client \<Rightarrow> bool" where
  "eviction_server cl \<longleftrightarrow>
     (\<forall>w p ev. k_get_ppvpa cl (fst (k_evict cl w p ev)) = k_get_ppvpa cl w \<and>
        k_get_deployment cl (fst (k_evict cl w p ev)) = k_get_deployment cl w)"

lemma evict_effect:
  assumes "workload_server cl st" "eviction_server cl" "k_get_ppvpa cl w ns name = Inr v"
    and "budgeted_Handle cl scaled w v p now = (w', None)"
    and "\<not> TemporaryReplicas (ppvpa_Status v) < surge_budget scaled v" "0 < TemporaryReplicas (ppvpa_Status v)"
    and "TemporaryReplicas (ppvpa_Status v) < 2 ^ 31"
    and "k_list_pods cl w (om_namespace (ppvpa_meta v)) = Inr ps" "List.find surge_annotated ps = Some s" "podReady s"
    and "k_get_pod cl w (om_namespace (prr_meta p)) (TargetPodName p) = Inr pod"
  shows "(\<exists>w1. evictPod cl w pod = (w1, None)) \<and>
    k_get_ppvpa cl w' ns name = Inr (with_temporary v (TemporaryReplicas (ppvpa_Status v) - 1)) \<and>
    k_get_deployment cl w' = k_get_deployment cl w"
proof -
  let ?t = "TemporaryReplicas (ppvpa_Status v)"
  have "is_int32 ?t" "0 \<le> ?t" using assms(6,7) by (simp_all add: in_width_def)
  then have h: "perform cl w v (decide cl scaled w v p now) = (w', None)"
    using budgeted_refines_decision_aux [of v cl scaled w p now] assms(4) by simp
  have d: "decide cl scaled w v p now = EvictPod pod" using assms(5,8-11) by (simp add: decide_def)
  obtain w1 r where ev: "evictPod cl w pod = (w1, r)" by fastforce
  have t: "temp_after v (EvictPod pod) = ?t - 1" using assms(6) by (simp add: temp_after_def)
  have r: "r = None" and p: "k_patch_ppvpa_status cl w1 (with_temporary v (?t - 1)) v = (w', None)"
    using h ev unfolding d by (cases r; simp add: perform_def t)+
  have f: "k_get_ppvpa cl w1 = k_get_ppvpa cl w" "k_get_deployment cl w1 = k_get_deployment cl w"
    using assms(2) ev unfolding eviction_server_def evictPod_def by (metis fst_conv)+
  have g: "k_get_ppvpa cl w1 ns name = Inr v" using f assms(3) by simp
  show ?thesis
    using ev r f workload_serverD(9) [OF assms(1) g merge_temporary(2) p] workload_serverD(6) [OF assms(1) p]
    by (simp add: merge_temporary)
qed

lemma surge_budget_cong:
  "ppvpa_Spec v' = ppvpa_Spec v \<Longrightarrow> ActiveReplicas (ppvpa_Status v') = ActiveReplicas (ppvpa_Status v) \<Longrightarrow>
   surge_budget scaled v' = surge_budget scaled v"
  by (simp add: surge_budget_def)

text \<open>
  (C5) A surge from start to end: with room for exactly one more temporary replica, a call of
  the handler and a pass of the workload controller bring the deployment to the requested size
  plus the temporary replicas plus one. From then on, whatever the server's state, a call that
  finds no annotated pod, or finds the first one not Ready, does not evict: it does nothing,
  or, when the burst has timed out, gives the replica back. A call that finds the annotated
  pod Ready evicts the target and gives the replica back, and the pass after it brings the
  deployment to the size it had before. No step undoes what another one wrote.
\<close>

theorem surge_cycle:
  fixes e :: "('q, 'w) controller_env"
  defines "cl \<equiv> ce_client e" and "scaled \<equiv> ce_scaled e"
  assumes "workload_server cl st" "eviction_server cl"
    and "k_get_ppvpa cl w ns name = Inr v" "deployment_of cl w v = Inr dep"
    and "TargetReplicas (ppvpa_Spec v) = Some n" "0 < n" "TemporaryReplicas (ppvpa_Status v) = t" "0 \<le> t" "n + t + 1 < 2 ^ 31"
    and "surge_budget scaled v = t + 1"
    and bump: "budgeted_Handle cl scaled w v p now1 = (w1, None)" "k_get_ppvpa cl w1 ns name = Inr v1"
    and grow: "settled_pass e ord w1 v1 now2 w2" "k_get_ppvpa cl w2 ns name = Inr v2"
    and ready: "k_list_pods cl w2 (om_namespace (ppvpa_meta v)) = Inr ps" "List.find surge_annotated ps = Some s" "podReady s"
      "k_get_pod cl w2 (om_namespace (prr_meta p)) (TargetPodName p) = Inr pod"
    and evict: "budgeted_Handle cl scaled w2 v2 p now3 = (w3, None)" "k_get_ppvpa cl w3 ns name = Inr v3"
    and shrink: "settled_pass e ord' w3 v3 now4 w4"
  shows "(\<exists>dep2. deployment_of cl w2 v = Inr dep2 \<and> dep_replicas dep2 = Some (n + t + 1)) \<and>
    (\<forall>w' p' now' ps'. k_list_pods cl w' (om_namespace (ppvpa_meta v)) = Inr ps' \<and>
       (\<forall>s'. List.find surge_annotated ps' = Some s' \<longrightarrow> \<not> podReady s') \<longrightarrow>
       budgeted_Handle cl scaled w' v2 p' now' =
         (if burst_expired v2 p' now' then k_patch_ppvpa_status cl w' (with_temporary v2 t) v2 else (w', None))) \<and>
    (\<exists>w'. evictPod cl w2 pod = (w', None)) \<and> TemporaryReplicas (ppvpa_Status v3) = t \<and>
    (\<exists>dep4. deployment_of cl w4 v = Inr dep4 \<and> dep_replicas dep4 = Some (n + t))"
proof -
  have b: "v1 = with_temporary v (t + 1)" "k_get_deployment cl w1 = k_get_deployment cl w"
    using bump_effect [OF assms(3,5) bump(1)] assms(8-12) bump(2) by simp_all
  have s1: "ppvpa_Spec v1 = ppvpa_Spec v" "ppvpa_meta v1 = ppvpa_meta v" "TemporaryReplicas (ppvpa_Status v1) = t + 1"
    "ActiveReplicas (ppvpa_Status v1) = ActiveReplicas (ppvpa_Status v)" by (simp_all add: b(1) with_temporary_def)
  have same: "deployment_of cl x v1 = deployment_of cl x v" for x by (simp add: deployment_of_def s1)
  have e1: "desired_replicas v1 = n + t + 1" using desired_exact [of v1 n] s1 assms(7-11) by simp
  have d1: "deployment_of cl w1 v1 = Inr dep" using assms(6) b(2) by (simp add: same) (simp add: deployment_of_def)
  obtain rec dep2 where g: "v2 = with_recommendation v1 rec" "deployment_of cl w2 v = Inr dep2"
    "dep_replicas dep2 = Some (n + t + 1)"
    using settled_pass_effect [OF assms(3) [unfolded cl_def] bump(2) [unfolded cl_def] d1 [unfolded cl_def] _ grow(1)]
      grow(2) e1 assms(8,10) unfolding cl_def [symmetric] same by auto
  have s2: "ppvpa_Spec v2 = ppvpa_Spec v" "ppvpa_meta v2 = ppvpa_meta v" "TemporaryReplicas (ppvpa_Status v2) = t + 1"
    "ActiveReplicas (ppvpa_Status v2) = ActiveReplicas (ppvpa_Status v)" by (simp_all add: g(1) with_recommendation_def s1)
  have b2: "surge_budget scaled v2 = t + 1" using surge_budget_cong [OF s2(1,4), of scaled] assms(12) by simp
  have "is_int32 (t + 1)" using assms(8,10,11) by (simp add: in_width_def)
  then have "decremented v2 = with_temporary v2 t" using decremented_eq [of v2] s2(3) assms(10) by simp
  then have waits: "budgeted_Handle cl scaled w' v2 p' now' =
      (if burst_expired v2 p' now' then k_patch_ppvpa_status cl w' (with_temporary v2 t) v2 else (w', None))"
    if "k_list_pods cl w' (om_namespace (ppvpa_meta v)) = Inr ps'"
      "\<forall>s'. List.find surge_annotated ps' = Some s' \<longrightarrow> \<not> podReady s'" for w' p' now' ps'
    using at_budget_waits [of v2 scaled cl w' ps' p' now'] that b2 s2(2,3) by simp
  have l2: "k_list_pods cl w2 (om_namespace (ppvpa_meta v2)) = Inr ps" using ready(1) s2(2) by simp
  have h: "(\<exists>w'. evictPod cl w2 pod = (w', None))" "v3 = with_temporary v2 t" "k_get_deployment cl w3 = k_get_deployment cl w2"
    using evict_effect [OF assms(3,4) grow(2) evict(1) _ _ _ l2 ready(2-4)] b2
      s2(3) assms(8-12) evict(2) by simp_all
  have s3: "ppvpa_Spec v3 = ppvpa_Spec v" "ppvpa_meta v3 = ppvpa_meta v" "TemporaryReplicas (ppvpa_Status v3) = t"
    by (simp_all add: h(2) with_temporary_def s2)
  have same3: "deployment_of cl x v3 = deployment_of cl x v" for x by (simp add: deployment_of_def s3)
  have e3: "desired_replicas v3 = n + t" using desired_exact [of v3 n] s3 assms(7-11) by simp
  have d3: "deployment_of cl w3 v3 = Inr dep2" using g(2) h(3) by (simp add: same3) (simp add: deployment_of_def)
  obtain dep4 where "deployment_of cl w4 v = Inr dep4" "dep_replicas dep4 = Some (n + t)"
    using settled_pass_effect [OF assms(3) [unfolded cl_def] evict(2) [unfolded cl_def] d3 [unfolded cl_def] _ shrink]
      e3 assms(8,10) unfolding cl_def [symmetric] same3 by auto
  then show ?thesis
    by (intro conjI allI impI) (use g(2,3) h(1) s3(3) waits in blast)+
qed

section \<open>A surge on a concrete cluster\<close>

text \<open>
  One autoscaler with three requested replicas and a budget of one, its deployment, a pod to
  be evicted and a Ready pod that carries the surge annotation, on the server that merges.
\<close>

text \<open>The view of the autoscaler \<open>ns/vpa\<close> and the deployment \<open>ns/web\<close>, by looking them up.\<close>

definition stored_view :: "'q cluster view" where
  "stored_view =
     \<lparr>vw_ppvpa = (''ns'', ''vpa''), vw_deployment = (''ns'', ''web''),
      vw_temp = (\<lambda>w. case get_object ppvpa_meta (cl_ppvpas w) ''ns'' ''vpa'' of
        Inl _ \<Rightarrow> 0 | Inr v \<Rightarrow> TemporaryReplicas (ppvpa_Status v)),
      vw_size = (\<lambda>w. case get_object dep_meta (cl_deployments w) ''ns'' ''web'' of
        Inl _ \<Rightarrow> None | Inr d \<Rightarrow> dep_replicas d)\<rparr>"

lemma get_mapped:
  assumes "\<And>y. named ns' n' (meta y) \<Longrightarrow> named ns' n' (meta (f y))"
  shows "get_object meta (map (\<lambda>y. if named ns' n' (meta y) then f y else y) xs) ns n =
    (case get_object meta xs ns n of Inl x \<Rightarrow> Inl x | Inr y \<Rightarrow> Inr (if (ns', n') = (ns, n) then f y else y))"
proof (induction xs)
  case (Cons y xs)
  have "named ns n (meta (if named ns' n' (meta y) then f y else y)) \<longleftrightarrow> named ns n (meta y)"
    using assms [of y] by (auto simp: named_def)
  then show ?case using Cons by (auto simp: get_object_def named_def)
qed (simp add: get_object_def)

lemma merge_more_ops:
  "k_update_ppvpa merge_client w v = (w\<lparr>cl_ppvpas := replace_object ppvpa_meta v (cl_ppvpas w)\<rparr>, Inr v)"
  "k_evict merge_client w q ev = (w\<lparr>cl_pods := remove_object pod_meta q (cl_pods w)\<rparr>, None)"
  "k_get_pod merge_client w = get_object pod_meta (cl_pods w)"
  "k_get_prr merge_client w = get_object prr_meta (cl_prrs w)"
  "k_create_checkpoint merge_client w c = (if has_object checkpoint_meta c (cl_checkpoints w)
     then (w, Some (ApiErr AlreadyExists)) else (w\<lparr>cl_checkpoints := cl_checkpoints w @ [c]\<rparr>, None))"
  "k_patch_checkpoint_status merge_client w c c0 =
     (w\<lparr>cl_checkpoints := replace_object checkpoint_meta c (cl_checkpoints w)\<rparr>, None)"
  by (simp_all add: merge_client_def mem_client_def)

lemma merge_plane_server: "plane_server merge_client stored_view"
proof -
  have m: "status_written stored_view v w (merge_object (merge_status b v) v w)" for b v :: "'a ppvpa" and w
  proof -
    have "get_object ppvpa_meta (cl_ppvpas (merge_object (merge_status b v) v w)) ''ns'' ''vpa'' =
      (case get_object ppvpa_meta (cl_ppvpas w) ''ns'' ''vpa'' of Inl x \<Rightarrow> Inl x
       | Inr y \<Rightarrow> Inr (if ppvpa_key v = (''ns'', ''vpa'') then merge_status b v y else y))"
      unfolding merge_object_def ppvpa_key_def by (simp, subst get_mapped) (simp_all add: merge_meta)
    then show ?thesis
      by (auto simp: status_written_def stored_view_def merge_status_def pick_def split: sum.split)
        (simp_all add: merge_object_def)
  qed
  have u: "status_written stored_view v w (w\<lparr>cl_ppvpas := replace_object ppvpa_meta v (cl_ppvpas w)\<rparr>)"
    for v :: "'a ppvpa" and w
  proof -
    have "get_object ppvpa_meta (replace_object ppvpa_meta v (cl_ppvpas w)) ''ns'' ''vpa'' =
      (case get_object ppvpa_meta (cl_ppvpas w) ''ns'' ''vpa'' of Inl x \<Rightarrow> Inl x
       | Inr y \<Rightarrow> Inr (if ppvpa_key v = (''ns'', ''vpa'') then v else y))"
      unfolding replace_object_def ppvpa_key_def by (subst get_mapped) (simp_all add: named_def)
    then show ?thesis by (auto simp: status_written_def stored_view_def split: sum.split)
  qed
  have d: "get_object dep_meta (replace_object dep_meta x xs) ''ns'' ''web'' =
      (case get_object dep_meta xs ''ns'' ''web'' of Inl e \<Rightarrow> Inl e
       | Inr y \<Rightarrow> Inr (if deployment_key x = (''ns'', ''web'') then x else y))" for x xs
    unfolding replace_object_def deployment_key_def by (subst get_mapped) (simp_all add: named_def)
  have s: "same_view stored_view w (merge_object (merge_spec b v) v w)" for b v :: "'a ppvpa" and w
  proof -
    have "get_object ppvpa_meta (cl_ppvpas (merge_object (merge_spec b v) v w)) ''ns'' ''vpa'' =
      (case get_object ppvpa_meta (cl_ppvpas w) ''ns'' ''vpa'' of Inl x \<Rightarrow> Inl x
       | Inr y \<Rightarrow> Inr (if ppvpa_key v = (''ns'', ''vpa'') then merge_spec b v y else y))"
      unfolding merge_object_def ppvpa_key_def by (simp, subst get_mapped) (simp_all add: merge_meta)
    then show ?thesis
      by (auto simp: same_view_def stored_view_def merge_spec_def split: sum.split) (simp_all add: merge_object_def)
  qed
  show ?thesis unfolding plane_server_def
  proof (intro conjI allI impI)
    fix w :: "'a cluster" and ns n x
    assume "k_get_deployment merge_client w ns n = Inr x"
    then show "deployment_key x = (ns, n)"
      using get_object_named [of dep_meta] by (fastforce simp: merge_ops deployment_key_def named_def)
  next
    fix w :: "'a cluster" and v b
    show "status_written stored_view v w (fst (k_patch_ppvpa_status merge_client w v b))"
      "same_view stored_view w (fst (k_patch_ppvpa merge_client w v b))"
      "status_written stored_view v w (fst (k_update_ppvpa merge_client w v))"
      using m s u by (simp_all add: merge_ops merge_more_ops)
  next
    fix w :: "'a cluster" and x y
    show "vw_size stored_view (fst (k_patch_deployment merge_client w x y)) = vw_size stored_view w \<or>
      deployment_key x = vw_deployment stored_view \<and>
      vw_size stored_view (fst (k_patch_deployment merge_client w x y)) = dep_replicas x"
      using d [of x "cl_deployments w"] by (auto simp: merge_ops stored_view_def split: sum.split)
  qed (auto simp: merge_ops merge_more_ops same_view_def stored_view_def)
qed

lemma merge_eviction_server: "eviction_server merge_client"
  by (simp add: eviction_server_def merge_ops merge_more_ops)

definition demo_idle :: "int ppvpa" where
  "demo_idle = with_temporary demo_live 0"

definition web :: "int32 \<Rightarrow> deployment" where
  "web k = \<lparr>dep_meta = demo_meta ''web'', dep_replicas = Some k\<rparr>"

definition demo_target :: "int pod" where
  "demo_target = \<lparr>pod_meta = demo_meta ''pod'', pod_containers = [], pod_conditions = []\<rparr>"

definition demo_surge_pod :: "int pod" where
  "demo_surge_pod =
     \<lparr>pod_meta = (demo_meta ''surge'')\<lparr>om_annotations := [AnnotationSurgePod \<mapsto> ''true'']\<rparr>, pod_containers = [],
      pod_conditions = [\<lparr>c_type = ''Ready'', c_status = ConditionTrue\<rparr>]\<rparr>"

definition demo_surge :: "int cluster" where
  "demo_surge =
     \<lparr>cl_ppvpas = [demo_idle], cl_prrs = [], cl_pods = [demo_target, demo_surge_pod], cl_deployments = [web 3],
      cl_replicasets = [], cl_checkpoints = []\<rparr>"

text \<open>An autoscaler that differs from the idle one only in its status.\<close>

definition like_idle :: "int ppvpa \<Rightarrow> bool" where
  "like_idle v \<longleftrightarrow> ppvpa_meta v = ppvpa_meta demo_idle \<and> ppvpa_Spec v = ppvpa_Spec demo_idle \<and>
     ActiveReplicas (ppvpa_Status v) = 3"

lemma like_idle_simps:
  assumes "like_idle v"
  shows "om_namespace (ppvpa_meta v) = ''ns''" "om_name (ppvpa_meta v) = ''vpa''" "named ''ns'' ''vpa'' (ppvpa_meta v)"
    "TargetRef (ppvpa_Spec v) = \<lparr>tr_kind = ''Deployment'', tr_name = ''web''\<rparr>" "TargetReplicas (ppvpa_Spec v) = Some 3"
    "surge_budget demo_scaled v = 1" "om_uid (ppvpa_meta v) = ''vpa''"
  using assms by (simp_all add: like_idle_def demo_idle_def with_temporary_def demo_live_simps surge_budget_def
      resolveBudget_def demo_scaled_def wrap_def)

lemma like_idle_updates:
  "like_idle demo_idle" "like_idle v \<Longrightarrow> like_idle (with_temporary v k)" "like_idle v \<Longrightarrow> like_idle (with_recommendation v rec)"
  by (simp_all add: like_idle_def with_temporary_def with_recommendation_def demo_idle_def demo_live_simps)

lemma pods_of_none: "pods_of {} out ps = out"
proof (induction ps arbitrary: out)
  case (Cons q ps)
  have "\<not> owner_in {} rs" for rs by (induction rs) simp_all
  then show ?case using Cons by simp
qed simp

lemma demo_recommends_none:
  "\<exists>rec. Recommend flat_math demo_codec demo_quantity [] (ppvpa_Spec demo_idle) age = Ret (Inr rec)"
proof -
  obtain wh where "NewWorkloadHistograms flat_math = Ret (Inr wh)"
    using NewWorkloadHistograms_wf [of flat_math] by (auto simp: flat_buckets max_slice_len_def)
  then show ?thesis by (simp add: Recommend_def Aggregate_def Let_def)
qed

lemma demo_env_parts: "ce_client demo_merging = merge_client" "ce_math demo_merging = flat_math"
  "ce_codec demo_merging = demo_codec" "ce_quantity demo_merging = demo_quantity" "ce_scaled demo_merging = demo_scaled"
  by (simp_all add: demo_merging_def demo_control_def)

lemma demo_pass:
  assumes "like_idle v" "cl_ppvpas w = [v]" "cl_prrs w = []" "cl_replicasets w = []" "cl_deployments w = [web k]"
    and "0 < desired_replicas v"
  shows "\<exists>rec. settled_pass demo_merging (\<lambda>xs. xs) w v now
    (w\<lparr>cl_ppvpas := [with_recommendation v rec], cl_deployments := [web (desired_replicas v)]\<rparr>)"
proof -
  note v = like_idle_simps [OF assms(1)]
  have t: "targetedPods merge_client w v = Inr []"
    by (simp add: targetedPods_def v merge_ops assms get_object_def list_objects_def web_def demo_meta_def named_def pods_of_none)
  have c: "reconcilePRRs merge_client (\<lambda>xs. xs) w v [] = (w, None)"
    by (simp add: reconcilePRRs_def listOwnedPRRs_def merge_ops assms list_objects_def owned_prrs_def compact_filter)
  obtain rec where "Recommend flat_math demo_codec demo_quantity [] (ppvpa_Spec v)
      (time_sub now (om_creationTimestamp (ppvpa_meta v))) = Ret (Inr rec)"
    using demo_recommends_none assms(1) unfolding like_idle_def by metis
  then have r: "reconcileRecommendation demo_merging w v now = (w\<lparr>cl_ppvpas := [with_recommendation v rec]\<rparr>, Ret None)"
    using v(3) by (simp add: reconcileRecommendation_def listOwnedPRRs_def demo_env_parts merge_ops merge_object_def merges
        assms list_objects_def owned_prrs_def compact_filter with_recommendation_meta v with_recommendation_def [symmetric])
  let ?w2 = "w\<lparr>cl_ppvpas := [with_recommendation v rec]\<rparr>"
  have same: "?w2\<lparr>cl_deployments := [web k]\<rparr> = ?w2" using assms(5) by (cases w) simp
  have "\<not> desired_replicas v \<le> 0" using assms(6) by simp
  then have "reconcileReplicas merge_client ?w2 v = (?w2\<lparr>cl_deployments := [web (desired_replicas v)]\<rparr>, None)"
    using same by (simp add: reconcileReplicas_def v merge_ops assms get_object_def replace_object_def web_def
        demo_meta_def named_def Let_def)
  then show ?thesis using t c r unfolding settled_pass_def demo_env_parts by (intro exI [of _ rec]) auto
qed

lemma demo_bump_step:
  assumes "like_idle v" "cl_ppvpas w = [v]" "TemporaryReplicas (ppvpa_Status v) = 0"
  shows "budgeted_Handle merge_client demo_scaled w v q now = (w\<lparr>cl_ppvpas := [with_temporary v 1]\<rparr>, None)"
  using like_idle_simps [OF assms(1)] assms
  by (simp add: budgeted_Handle_def merge_ops merge_object_def merge_temporary wrap_def with_temporary_parts)

lemma demo_evict_step:
  assumes "like_idle v" "cl_ppvpas w = [v]" "TemporaryReplicas (ppvpa_Status v) = 1" "cl_pods w = [demo_target, demo_surge_pod]"
  shows "budgeted_Handle merge_client demo_scaled w v (demo_prr [] [] None) now =
      (w\<lparr>cl_pods := [demo_surge_pod], cl_ppvpas := [with_temporary v 0]\<rparr>, None)"
proof -
  note v = like_idle_simps [OF assms(1)]
  let ?p = "demo_prr [] [] None"
  have d: "decide merge_client demo_scaled w v ?p now = EvictPod demo_target"
    using v assms(3,4) by (simp add: decide_def merge_ops merge_more_ops list_objects_def get_object_def demo_target_def
        demo_surge_pod_def surge_annotated_def podReady_def demo_prr_def demo_meta_def named_def)
  have "budgeted_Handle merge_client demo_scaled w v ?p now = perform merge_client w v (EvictPod demo_target)"
    using budgeted_refines_decision_aux [of v merge_client demo_scaled w ?p now] assms(3) unfolding d by (simp add: in_width_def)
  then show ?thesis
    using v assms by (simp add: perform_def temp_after_def evictPod_def merge_more_ops merge_ops merge_object_def
        merge_temporary remove_object_def demo_target_def demo_surge_pod_def demo_meta_def named_def with_temporary_parts)
qed

definition demo_grown :: "int cluster" where
  "demo_grown = demo_surge\<lparr>cl_ppvpas := [with_temporary demo_idle 1]\<rparr>"

lemma demo_idle_temp: "TemporaryReplicas (ppvpa_Status demo_idle) = 0"
  by (simp add: demo_idle_def with_temporary_def)

lemma demo_grow:
  "budgeted_Handle merge_client demo_scaled demo_surge demo_idle (demo_prr [] [] None) 5 = (demo_grown, None)"
  "\<exists>rec. settled_pass demo_merging (\<lambda>xs. xs) demo_grown (with_temporary demo_idle 1) 6
     (demo_grown\<lparr>cl_ppvpas := [with_recommendation (with_temporary demo_idle 1) rec], cl_deployments := [web 4]\<rparr>)"
proof -
  show "budgeted_Handle merge_client demo_scaled demo_surge demo_idle (demo_prr [] [] None) 5 = (demo_grown, None)"
    using demo_bump_step [OF like_idle_updates(1), of demo_surge "demo_prr [] [] None" 5] demo_idle_temp
    by (simp add: demo_surge_def demo_grown_def)
  let ?v = "with_temporary demo_idle 1"
  have l: "like_idle ?v" by (intro like_idle_updates)
  have d: "desired_replicas ?v = 4" using like_idle_simps(5) [OF l] by (simp add: desired_replicas_def with_temporary_parts wrap_def)
  show "\<exists>rec. settled_pass demo_merging (\<lambda>xs. xs) demo_grown ?v 6
     (demo_grown\<lparr>cl_ppvpas := [with_recommendation ?v rec], cl_deployments := [web 4]\<rparr>)"
    using demo_pass [OF l, of demo_grown 3 6] unfolding d by (simp add: demo_grown_def demo_surge_def)
qed

lemma demo_view: "vw_ppvpa stored_view = (''ns'', ''vpa'')" "vw_deployment stored_view = (''ns'', ''web'')"
  by (simp_all add: stored_view_def)

text \<open>
  The same cluster before the target is seeded: the surge begins, and the next pass shrinks
  the deployment from three replicas to the one temporary replica.
\<close>

definition demo_unset :: "int32 \<Rightarrow> int ppvpa" where
  "demo_unset t = (let v = with_temporary demo_idle t in v\<lparr>ppvpa_Spec := (ppvpa_Spec v)\<lparr>TargetReplicas := None\<rparr>\<rparr>)"

definition demo_unseeded :: "int32 \<Rightarrow> int32 \<Rightarrow> int cluster" where
  "demo_unseeded t k = demo_surge\<lparr>cl_ppvpas := [demo_unset t], cl_deployments := [web k]\<rparr>"

lemma demo_unset_simps:
  "om_namespace (ppvpa_meta (demo_unset t)) = ''ns''" "om_name (ppvpa_meta (demo_unset t)) = ''vpa''"
  "TargetRef (ppvpa_Spec (demo_unset t)) = \<lparr>tr_kind = ''Deployment'', tr_name = ''web''\<rparr>"
  "TargetReplicas (ppvpa_Spec (demo_unset t)) = None" "TemporaryReplicas (ppvpa_Status (demo_unset t)) = t"
  "surge_budget demo_scaled (demo_unset t) = 1" "with_temporary (demo_unset t) k = demo_unset k"
  by (simp_all add: demo_unset_def demo_idle_def with_temporary_def demo_live_simps surge_budget_def resolveBudget_def
      demo_scaled_def wrap_def Let_def)

lemma demo_unset_view:
  "vw_temp stored_view (demo_unseeded t k) = t" "vw_size stored_view (demo_unseeded t k) = Some k"
  by (simp_all add: stored_view_def demo_unseeded_def get_object_def named_def demo_unset_simps web_def demo_meta_def)

lemma demo_unset_seen: "seen stored_view 0 3 (demo_unseeded t k) (demo_unset t)"
  "budget_ok stored_view demo_scaled 1 (demo_unset t)"
  by (simp_all add: seen_def demo_view ppvpa_key_def demo_unset_simps demo_unset_view target_within_def requested_def
      budget_ok_def)

lemma demo_unset_steps:
  "budgeted_Handle merge_client demo_scaled (demo_unseeded 0 3) (demo_unset 0) q now = (demo_unseeded 1 3, None)"
  "reconcileReplicas merge_client (demo_unseeded 1 3) (demo_unset 1) = (demo_unseeded 1 1, None)"
proof -
  show "budgeted_Handle merge_client demo_scaled (demo_unseeded 0 3) (demo_unset 0) q now = (demo_unseeded 1 3, None)"
    using merge_temporary(1) [of "demo_unset 0" 1]
    by (simp add: budgeted_Handle_def merge_ops merge_object_def demo_unset_simps wrap_def demo_unseeded_def named_def)
  have "reconcileReplicas merge_client (demo_unseeded 1 3) (demo_unset 1) =
      k_patch_deployment merge_client (demo_unseeded 1 3) ((web 3)\<lparr>dep_replicas := Some 1\<rparr>) (web 3)"
    by (rule unset_target_shrinks)
      (simp_all add: demo_unset_simps merge_ops get_object_def demo_unseeded_def web_def demo_meta_def named_def)
  then show "reconcileReplicas merge_client (demo_unseeded 1 3) (demo_unset 1) = (demo_unseeded 1 1, None)"
    by (simp add: merge_ops replace_object_def demo_unseeded_def web_def demo_meta_def named_def)
qed

theorem deployment_within_surge_witness:
  "\<exists>w. plane demo_merging stored_view 0 3 1 3 w \<and> vw_size stored_view w = Some 1 \<and>
     0 \<le> vw_temp stored_view w \<and> vw_temp stored_view w \<le> 1 \<and>
     (\<exists>s. vw_size stored_view w = Some s \<and> min 3 (max 1 0) \<le> s \<and> s \<le> max 3 (3 + (1::int)))"
proof -
  note e = demo_env_parts
  have p0: "plane demo_merging stored_view 0 3 1 3 (demo_unseeded 0 3)"
    by (rule plane.start) (simp_all add: demo_unset_view)
  have p1: "plane demo_merging stored_view 0 3 1 3 (demo_unseeded 1 3)"
    by (rule plane.surge [OF p0 p0 demo_unset_seen [folded e(5)] demo_unset_steps(1) [folded e(1,5)]])
  have p2: "plane demo_merging stored_view 0 3 1 3 (demo_unseeded 1 1)"
    by (rule plane.replicas [OF p1 p1 demo_unset_seen(1) demo_unset_steps(2) [folded e(1)]])
  show ?thesis
    using p2 deployment_within_surge [where e = demo_merging, unfolded e, OF p2 [unfolded e] merge_plane_server]
    by (intro exI [of _ "demo_unseeded 1 1"]) (simp add: demo_unset_view)
qed

theorem surge_cycle_witness:
  "\<exists>w2 v2 w3 w4. settled_pass demo_merging (\<lambda>xs. xs) demo_grown (with_temporary demo_idle 1) 6 w2 \<and>
     cl_deployments w2 = [web 4] \<and>
     budgeted_Handle merge_client demo_scaled (w2\<lparr>cl_pods := [demo_target]\<rparr>) v2 (demo_prr [] [] None) 7 =
       (w2\<lparr>cl_pods := [demo_target]\<rparr>, None) \<and>
     budgeted_Handle merge_client demo_scaled w2 v2 (demo_prr [] [] None) 7 = (w3, None) \<and> cl_pods w3 = [demo_surge_pod] \<and>
     settled_pass demo_merging (\<lambda>xs. xs) w3 (with_temporary v2 0) 8 w4 \<and>
     (\<exists>d. deployment_of merge_client w4 demo_idle = Inr d \<and> dep_replicas d = Some 3)"
proof -
  note e = demo_env_parts
  let ?v1 = "with_temporary demo_idle 1" and ?p = "demo_prr [] [] None"
  obtain rec where grow: "settled_pass demo_merging (\<lambda>xs. xs) demo_grown ?v1 6
     (demo_grown\<lparr>cl_ppvpas := [with_recommendation ?v1 rec], cl_deployments := [web 4]\<rparr>)"
    using demo_grow(2) by blast
  define v2 where "v2 = with_recommendation ?v1 rec"
  define w2 where "w2 = demo_grown\<lparr>cl_ppvpas := [v2], cl_deployments := [web 4]\<rparr>"
  define w3 where "w3 = w2\<lparr>cl_pods := [demo_surge_pod], cl_ppvpas := [with_temporary v2 0]\<rparr>"
  have l2: "like_idle v2" unfolding v2_def by (intro like_idle_updates)
  have l3: "like_idle (with_temporary v2 0)" using l2 by (rule like_idle_updates)
  have t2: "TemporaryReplicas (ppvpa_Status v2) = 1" by (simp add: v2_def with_recommendation_def with_temporary_parts)
  have ev: "budgeted_Handle merge_client demo_scaled w2 v2 ?p 7 = (w3, None)"
    using demo_evict_step [OF l2 _ t2, of w2 7] by (simp add: w2_def w3_def demo_grown_def demo_surge_def)
  have d: "desired_replicas (with_temporary v2 0) = 3"
    using like_idle_simps(5) [OF l3] by (simp add: desired_replicas_def with_temporary_parts wrap_def)
  obtain rec' where shrink: "settled_pass demo_merging (\<lambda>xs. xs) w3 (with_temporary v2 0) 8
      (w3\<lparr>cl_ppvpas := [with_recommendation (with_temporary v2 0) rec'], cl_deployments := [web 3]\<rparr>)"
    using demo_pass [OF l3, of w3 4 8] unfolding d by (auto simp: w3_def w2_def demo_grown_def demo_surge_def)
  have get: "k_get_ppvpa merge_client w ''ns'' ''vpa'' = Inr v" if "cl_ppvpas w = [v]" "like_idle v" for w v
    using that like_idle_simps(3) [of v] by (simp add: merge_ops get_object_def)
  have dep: "deployment_of merge_client demo_surge demo_idle = Inr (web 3)"
    by (simp add: deployment_of_def merge_ops get_object_def demo_surge_def web_def demo_meta_def named_def
        like_idle_simps [OF like_idle_updates(1)])
  let ?w4 = "w3\<lparr>cl_ppvpas := [with_recommendation (with_temporary v2 0) rec'], cl_deployments := [web 3]\<rparr>"
  have pods: "k_list_pods merge_client w2 (om_namespace (ppvpa_meta demo_idle)) = Inr [demo_target, demo_surge_pod]"
    "List.find surge_annotated [demo_target, demo_surge_pod] = Some demo_surge_pod" "podReady demo_surge_pod"
    "k_get_pod merge_client w2 (om_namespace (prr_meta ?p)) (TargetPodName ?p) = Inr demo_target"
    by (simp_all add: like_idle_simps [OF like_idle_updates(1)] merge_ops merge_more_ops list_objects_def get_object_def
        demo_target_def demo_surge_pod_def surge_annotated_def podReady_def demo_prr_def demo_meta_def named_def
        w2_def demo_grown_def demo_surge_def)
  have gets: "k_get_ppvpa merge_client demo_surge ''ns'' ''vpa'' = Inr demo_idle"
    "k_get_ppvpa merge_client demo_grown ''ns'' ''vpa'' = Inr ?v1" "k_get_ppvpa merge_client w2 ''ns'' ''vpa'' = Inr v2"
    "k_get_ppvpa merge_client w3 ''ns'' ''vpa'' = Inr (with_temporary v2 0)"
    using get l2 l3 like_idle_updates(1) like_idle_updates(2) [OF like_idle_updates(1)]
    by (simp_all add: demo_surge_def demo_grown_def w2_def w3_def)
  have grow': "settled_pass demo_merging (\<lambda>xs. xs) demo_grown ?v1 6 w2" using grow by (simp add: w2_def v2_def)
  have wait: "k_list_pods merge_client (w2\<lparr>cl_pods := [demo_target]\<rparr>) (om_namespace (ppvpa_meta demo_idle)) = Inr [demo_target]"
    "\<forall>s. List.find surge_annotated [demo_target] = Some s \<longrightarrow> \<not> podReady s" "\<not> burst_expired v2 ?p 7"
    using l2 by (simp_all add: like_idle_simps [OF like_idle_updates(1)] merge_ops list_objects_def demo_target_def
        surge_annotated_def demo_meta_def burst_expired_def like_idle_def demo_idle_def with_temporary_def demo_live_simps
        demo_prr_def wrap_def)
  note cycle = surge_cycle [where e = demo_merging, unfolded e, OF merge_workload_server merge_eviction_server gets(1) dep
    like_idle_simps(5) [OF like_idle_updates(1)] _ demo_idle_temp _ _ _ demo_grow(1) gets(2) grow' gets(3) pods ev gets(4) shrink]
  have "\<exists>d. deployment_of merge_client ?w4 demo_idle = Inr d \<and> dep_replicas d = Some (3 + 0)"
    by (rule cycle [THEN conjunct2, THEN conjunct2, THEN conjunct2, THEN conjunct2])
      (simp_all add: like_idle_simps [OF like_idle_updates(1)])
  moreover have "budgeted_Handle merge_client demo_scaled (w2\<lparr>cl_pods := [demo_target]\<rparr>) v2 ?p 7 = (w2\<lparr>cl_pods := [demo_target]\<rparr>, None)"
    using cycle [THEN conjunct2, THEN conjunct1, rule_format, OF _ _ _ _ conjI [OF wait(1,2)], of ?p 7] wait(3)
    by (simp add: like_idle_simps [OF like_idle_updates(1)])
  ultimately show ?thesis using grow' ev shrink
    by (intro exI [of _ w2] exI [of _ v2] exI [of _ w3] exI [of _ ?w4] conjI) (simp_all add: w2_def w3_def)
qed

text \<open>The flagged recommendation is served first, then the workload whose target is unset.\<close>

definition demo_due :: "int32 \<Rightarrow> int cluster" where
  "demo_due t = (demo_unseeded t 3)\<lparr>cl_prrs := [demo_flagged ''Infeasible'']\<rparr>"

lemma demo_due_view: "vw_temp stored_view (demo_due t) = t" "vw_size stored_view (demo_due t) = Some 3"
  using demo_unset_view [of t 3] by (simp_all add: stored_view_def demo_due_def)

lemma demo_due_reads: "reads_ok demo_merging stored_view 0 3 1 (demo_due t)"
proof -
  have "seen stored_view 0 3 (demo_due t) (demo_unset t)"
    using demo_unset_seen(1) [of t 3] by (simp add: seen_def demo_due_view demo_unset_view)
  then show ?thesis using demo_unset_seen(2) [of t]
    by (auto simp: reads_ok_def demo_env_parts merge_ops get_object_def demo_due_def demo_unseeded_def split: if_split_asm)
qed

lemma demo_serve:
  "serve demo_merging (RecommendationDue ''ns'' ''vpa-pod-prr'' 5) (demo_due 0) = demo_due 1"
proof -
  let ?q = "demo_flagged ''Infeasible''"
  have q: "prr_meta ?q = child_meta (demo_ppvpa 0) ''vpa-pod-prr''"
    "prr_Conditions (prr_Status ?q) = [\<lparr>c_type = ''Infeasible'', c_status = ConditionTrue\<rparr>]"
    by (simp_all add: demo_flagged_def Let_def new_prr_def prr_name_def demo_ppvpa_def demo_meta_def)
  have "parentPPVPA merge_client (demo_due 0) ?q = (Some (demo_unset 0), None)"
    by (simp add: parentPPVPA_def q(1) child_meta_def ppvpa_owner_def demo_ppvpa_def demo_meta_def merge_ops get_object_def
        demo_due_def demo_unseeded_def named_def demo_unset_simps)
  moreover have "k_get_prr merge_client (demo_due 0) ''ns'' ''vpa-pod-prr'' = Inr ?q"
    by (simp add: merge_more_ops get_object_def demo_due_def q(1) child_meta_def named_def demo_ppvpa_def demo_meta_def)
  moreover have "budgeted_Handle merge_client demo_scaled (demo_due 0) (demo_unset 0) ?q 5 = (demo_due 1, None)"
    using merge_temporary(1) [of "demo_unset 0" 1]
    by (simp add: budgeted_Handle_def merge_ops merge_object_def demo_unset_simps wrap_def demo_due_def demo_unseeded_def
        named_def)
  ultimately show ?thesis by (simp add: prr_Reconcile_def demo_env_parts q(2))
qed

theorem schedule_within_surge_witness:
  "\<exists>s. vw_size stored_view (serve_all demo_merging
      [RecommendationDue ''ns'' ''vpa-pod-prr'' 5, WorkloadDue (\<lambda>xs. xs) ''ns'' ''vpa'' 6] (demo_due 0)) = Some s \<and> 1 \<le> s \<and> s \<le> 4 \<and>
     vw_temp stored_view (serve demo_merging (RecommendationDue ''ns'' ''vpa-pod-prr'' 5) (demo_due 0)) = 1"
proof -
  let ?rs = "[RecommendationDue ''ns'' ''vpa-pod-prr'' 5, WorkloadDue (\<lambda>xs. xs) ''ns'' ''vpa'' 6]"
  have along: "reads_along demo_merging stored_view 0 3 1 ?rs (demo_due 0)"
    using demo_due_reads by (simp add: demo_serve del: serve.simps)
  have "vw_temp stored_view (serve demo_merging (RecommendationDue ''ns'' ''vpa-pod-prr'' 5) (demo_due 0)) = 1"
    by (simp add: demo_serve demo_due_view del: serve.simps)
  then show ?thesis
    using schedule_within_surge [where e = demo_merging, unfolded demo_env_parts, OF merge_plane_server demo_due_view(1) demo_due_view(2)
        _ _ _ _ along] by auto
qed

end
