(* ===== verification/GoHeap.thy ===== *)
theory GoHeap
  imports Prelude
begin

text \<open>
  Go's heap as far as copying of objects is concerned: a store of cells with the next free
  address, pointers, slices and maps as references into it, and the contract of a copying
  function as the locale \<open>copier\<close>. The contract is closed under the shapes the generated
  copying code is made of (pointer, slice, map, struct), so that every type of the API gets
  its instance from its fields.
\<close>

section \<open>Stores\<close>

datatype 'c store = Store (st_mem: "nat \<rightharpoonup> 'c") (st_next: nat)

definition wf_store :: "'c store \<Rightarrow> bool" where
  "wf_store h \<longleftrightarrow> (\<forall>a c. st_mem h a = Some c \<longrightarrow> a < st_next h)"

definition new_cell :: "'c store \<Rightarrow> 'c \<Rightarrow> 'c store \<times> nat" where
  "new_cell h c = (Store ((st_mem h)(st_next h \<mapsto> c)) (st_next h + 1), st_next h)"

definition write_cell :: "'c store \<Rightarrow> nat \<Rightarrow> 'c \<Rightarrow> 'c store" where
  "write_cell h a c = Store ((st_mem h)(a \<mapsto> c)) (st_next h)"

text \<open>What was allocated stays as it was.\<close>

definition grows :: "'c store \<Rightarrow> 'c store \<Rightarrow> bool" where
  "grows h h' \<longleftrightarrow> wf_store h' \<and> st_next h \<le> st_next h' \<and> (\<forall>a < st_next h. st_mem h' a = st_mem h a)"

lemma growsD: "grows h h' \<Longrightarrow> a < st_next h \<Longrightarrow> st_mem h' a = st_mem h a"
  by (simp add: grows_def)

lemma grows_next: "grows h h' \<Longrightarrow> st_next h \<le> st_next h'"
  by (simp add: grows_def)

lemma grows_wf: "grows h h' \<Longrightarrow> wf_store h'"
  by (simp add: grows_def)

lemma grows_refl: "wf_store h \<Longrightarrow> grows h h"
  by (simp add: grows_def)

lemma grows_trans: "grows h h' \<Longrightarrow> grows h' h'' \<Longrightarrow> grows h h''"
  by (auto simp: grows_def)

lemma new_cell_grows: "wf_store h \<Longrightarrow> new_cell h c = (h', a) \<Longrightarrow> grows h h' \<and> a = st_next h \<and> st_next h' = st_next h + 1"
  by (auto simp: new_cell_def grows_def wf_store_def less_Suc_eq split: if_split_asm)

lemma write_fresh_grows: "grows h h' \<Longrightarrow> st_next h \<le> a \<Longrightarrow> a < st_next h' \<Longrightarrow> grows h (write_cell h' a c)"
  by (auto simp: write_cell_def grows_def wf_store_def)

section \<open>The contract of a copying function\<close>

text \<open>
  \<open>refs h x\<close> are the addresses reachable from \<open>x\<close>, \<open>view h x\<close> is the value \<open>x\<close> stands for, none
  when it dangles. A view depends on the reachable cells only; a copy leaves what was there,
  has the same view and shares nothing with it.
\<close>

locale copier =
  fixes copy :: "'c store \<Rightarrow> 'a \<Rightarrow> 'c store \<times> 'a"
    and refs :: "'c store \<Rightarrow> 'a \<Rightarrow> nat set"
    and view :: "'c store \<Rightarrow> 'a \<Rightarrow> 'v option"
  assumes frame:
    "view h x = Some v \<Longrightarrow> (\<And>a. a \<in> refs h x \<Longrightarrow> st_mem h' a = st_mem h a) \<Longrightarrow>
     view h' x = Some v \<and> refs h' x = refs h x"
    and inside: "wf_store h \<Longrightarrow> view h x = Some v \<Longrightarrow> refs h x \<subseteq> {..<st_next h}"
    and copies:
    "wf_store h \<Longrightarrow> view h x = Some v \<Longrightarrow> copy h x = (h', y) \<Longrightarrow>
     grows h h' \<and> view h' y = Some v \<and> refs h' y \<subseteq> {st_next h..<st_next h'}"
begin

lemma grown:
  assumes "wf_store h" "view h x = Some v" "grows h h'"
  shows "view h' x = Some v \<and> refs h' x = refs h x"
  using frame [OF assms(2)] inside [OF assms(1,2)] growsD [OF assms(3)] by blast

text \<open>Whatever is written through the copy does not reach the original, and the other way round.\<close>

lemma isolated:
  assumes "wf_store h" "view h x = Some v" "copy h x = (h', y)"
  shows "refs h' x \<inter> refs h' y = {}"
    and "(\<And>a. a \<notin> refs h' y \<Longrightarrow> st_mem h'' a = st_mem h' a) \<Longrightarrow> view h'' x = Some v"
    and "(\<And>a. a \<notin> refs h' x \<Longrightarrow> st_mem h'' a = st_mem h' a) \<Longrightarrow> view h'' y = Some v"
proof -
  note c = copies [OF assms]
  note g = grown [OF assms(1,2) conjunct1 [OF c]]
  show d: "refs h' x \<inter> refs h' y = {}" using g c inside [OF assms(1,2)] by fastforce
  show "view h'' x = Some v" if "\<And>a. a \<notin> refs h' y \<Longrightarrow> st_mem h'' a = st_mem h' a"
    using frame [OF conjunct1 [OF g]] that d by blast
  show "view h'' y = Some v" if "\<And>a. a \<notin> refs h' x \<Longrightarrow> st_mem h'' a = st_mem h' a"
    using frame [OF conjunct1 [OF conjunct2 [OF c]]] that d by blast
qed

end

section \<open>Shapes\<close>

subsection \<open>Values without references\<close>

definition copy_plain :: "('a \<Rightarrow> 'a) \<Rightarrow> 'c store \<Rightarrow> 'a \<Rightarrow> 'c store \<times> 'a" where
  "copy_plain f h x = (h, f x)"

definition refs_plain :: "'c store \<Rightarrow> 'a \<Rightarrow> nat set" where
  "refs_plain h x = {}"

definition view_plain :: "'c store \<Rightarrow> 'a \<Rightarrow> 'a option" where
  "view_plain h x = Some x"

lemma copier_plain: "(\<And>x. f x = x) \<Longrightarrow> copier (copy_plain f) refs_plain view_plain"
  by unfold_locales (auto simp: copy_plain_def refs_plain_def view_plain_def grows_refl)

subsection \<open>Structs\<close>

definition copy_pair ::
  "('c store \<Rightarrow> 'a \<Rightarrow> 'c store \<times> 'a) \<Rightarrow> ('c store \<Rightarrow> 'b \<Rightarrow> 'c store \<times> 'b) \<Rightarrow>
   'c store \<Rightarrow> 'a \<times> 'b \<Rightarrow> 'c store \<times> 'a \<times> 'b" where
  "copy_pair c d h p =
     (let (h1, x) = c h (fst p); (h2, y) = d h1 (snd p) in (h2, x, y))"

definition refs_pair ::
  "('c store \<Rightarrow> 'a \<Rightarrow> nat set) \<Rightarrow> ('c store \<Rightarrow> 'b \<Rightarrow> nat set) \<Rightarrow> 'c store \<Rightarrow> 'a \<times> 'b \<Rightarrow> nat set" where
  "refs_pair r s h p = r h (fst p) \<union> s h (snd p)"

definition view_pair ::
  "('c store \<Rightarrow> 'a \<Rightarrow> 'v option) \<Rightarrow> ('c store \<Rightarrow> 'b \<Rightarrow> 'w option) \<Rightarrow> 'c store \<Rightarrow> 'a \<times> 'b \<Rightarrow> ('v \<times> 'w) option" where
  "view_pair u w h p =
     (case u h (fst p) of None \<Rightarrow> None | Some v \<Rightarrow> (case w h (snd p) of None \<Rightarrow> None | Some v' \<Rightarrow> Some (v, v')))"

lemma view_pair_Some: "view_pair u w h p = Some v \<longleftrightarrow> u h (fst p) = Some (fst v) \<and> w h (snd p) = Some (snd v)"
  by (cases v) (auto simp: view_pair_def split: option.split)

lemma copier_pair:
  assumes "copier c r u" "copier d s w"
  shows "copier (copy_pair c d) (refs_pair r s) (view_pair u w)"
proof unfold_locales
  fix h h' x v
  assume v: "view_pair u w h x = Some v" and a: "\<And>a. a \<in> refs_pair r s h x \<Longrightarrow> st_mem h' a = st_mem h a"
  then have "u h' (fst x) = Some (fst v) \<and> r h' (fst x) = r h (fst x)" "w h' (snd x) = Some (snd v) \<and> s h' (snd x) = s h (snd x)"
    by (intro copier.frame [OF assms(1)] copier.frame [OF assms(2)]; simp add: view_pair_Some refs_pair_def)+
  then show "view_pair u w h' x = Some v \<and> refs_pair r s h' x = refs_pair r s h x"
    by (simp add: view_pair_Some refs_pair_def)
next
  fix h x v assume "wf_store h" "view_pair u w h x = Some v"
  then show "refs_pair r s h x \<subseteq> {..<st_next h}"
    using copier.inside [OF assms(1)] copier.inside [OF assms(2)] by (simp add: view_pair_Some refs_pair_def)
next
  fix h x v h' y assume wf: "wf_store h" and v: "view_pair u w h x = Some v" and c: "copy_pair c d h x = (h', y)"
  obtain h1 y1 where c1: "c h (fst x) = (h1, y1)" by fastforce
  obtain y2 where c2: "d h1 (snd x) = (h', y2)" and y: "y = (y1, y2)"
    using c c1 by (auto simp: copy_pair_def split: prod.split_asm)
  have l: "grows h h1 \<and> u h1 y1 = Some (fst v) \<and> r h1 y1 \<subseteq> {st_next h..<st_next h1}"
    using copier.copies [OF assms(1) wf _ c1] v by (simp add: view_pair_Some)
  have "w h (snd x) = Some (snd v)" using v by (simp add: view_pair_Some)
  then have "w h1 (snd x) = Some (snd v)" using copier.grown [OF assms(2) wf] l by blast
  then have m: "grows h1 h' \<and> w h' y2 = Some (snd v) \<and> s h' y2 \<subseteq> {st_next h1..<st_next h'}"
    using copier.copies [OF assms(2) grows_wf _ c2] l by blast
  have "u h' y1 = Some (fst v) \<and> r h' y1 = r h1 y1"
    using copier.grown [OF assms(1) grows_wf] l m by blast
  moreover have "grows h h'" using grows_trans l m by blast
  ultimately show "grows h h' \<and> view_pair u w h' y = Some v \<and> refs_pair r s h' y \<subseteq> {st_next h..<st_next h'}"
    using l m y grows_next [of h h1] grows_next [of h1 h'] by (fastforce simp: view_pair_Some refs_pair_def)
qed

text \<open>A struct behaves like the tuple of its fields.\<close>

lemma copier_struct:
  assumes "copier c r w" "\<And>t. unpack (pack t) = t"
    and "\<And>h x. copy h x = (let (h', t) = c h (unpack x) in (h', pack t))"
    and "\<And>h x. refs h x = r h (unpack x)" "\<And>h x. view h x = map_option g (w h (unpack x))"
  shows "copier copy refs view"
proof unfold_locales
  fix h h' x v assume v: "view h x = Some v" and e: "\<And>a. a \<in> refs h x \<Longrightarrow> st_mem h' a = st_mem h a"
  obtain u where u: "w h (unpack x) = Some u" "v = g u" using v by (auto simp: assms(5))
  have "w h' (unpack x) = Some u \<and> r h' (unpack x) = r h (unpack x)"
    by (rule copier.frame [OF assms(1) u(1)]) (simp add: e assms(4))
  then show "view h' x = Some v \<and> refs h' x = refs h x" using u(2) by (simp add: assms(4,5))
next
  fix h x v assume "wf_store h" "view h x = Some v"
  then show "refs h x \<subseteq> {..<st_next h}" using copier.inside [OF assms(1)] by (fastforce simp: assms(4,5))
next
  fix h x v h' y assume h: "wf_store h" "view h x = Some v" "copy h x = (h', y)"
  obtain t where t: "c h (unpack x) = (h', t)" "y = pack t"
    using h(3) by (auto simp: assms(3) split: prod.split_asm)
  obtain u where u: "w h (unpack x) = Some u" "v = g u" using h(2) by (auto simp: assms(5))
  show "grows h h' \<and> view h' y = Some v \<and> refs h' y \<subseteq> {st_next h..<st_next h'}"
    using copier.copies [OF assms(1) h(1) u(1) t(1)] t(2) u(2) by (simp add: assms(2,4,5))
qed

subsection \<open>Pointers\<close>

text \<open>
  \<open>*out = new(T); (*in).DeepCopyInto(*out)\<close>: the new cell first holds \<open>*in\<close> itself, then the
  copy. A nil pointer stays nil.
\<close>

definition load :: "('c \<Rightarrow> 'a option) \<Rightarrow> 'c store \<Rightarrow> nat \<Rightarrow> 'a option" where
  "load unbox h a = Option.bind (st_mem h a) unbox"

definition copy_cell ::
  "('a \<Rightarrow> 'c) \<Rightarrow> ('c \<Rightarrow> 'a option) \<Rightarrow> ('c store \<Rightarrow> 'a \<Rightarrow> 'c store \<times> 'a) \<Rightarrow> 'c store \<Rightarrow> nat \<Rightarrow> 'c store \<times> nat" where
  "copy_cell box unbox into h a =
     (case load unbox h a of
        None \<Rightarrow> (h, a)
      | Some x \<Rightarrow>
          (let (h1, b) = new_cell h (box x); (h2, y) = into h1 x in (write_cell h2 b (box y), b)))"

definition refs_cell ::
  "('c \<Rightarrow> 'a option) \<Rightarrow> ('c store \<Rightarrow> 'a \<Rightarrow> nat set) \<Rightarrow> 'c store \<Rightarrow> nat \<Rightarrow> nat set" where
  "refs_cell unbox r h a = insert a (case load unbox h a of None \<Rightarrow> {} | Some x \<Rightarrow> r h x)"

definition view_cell ::
  "('c \<Rightarrow> 'a option) \<Rightarrow> ('c store \<Rightarrow> 'a \<Rightarrow> 'v option) \<Rightarrow> 'c store \<Rightarrow> nat \<Rightarrow> 'v option" where
  "view_cell unbox w h a = Option.bind (load unbox h a) (w h)"

fun copy_nullable :: "('c store \<Rightarrow> 'a \<Rightarrow> 'c store \<times> 'a) \<Rightarrow> 'c store \<Rightarrow> 'a option \<Rightarrow> 'c store \<times> 'a option" where
  "copy_nullable c h None = (h, None)"
| "copy_nullable c h (Some x) = (let (h', y) = c h x in (h', Some y))"

fun refs_nullable :: "('c store \<Rightarrow> 'a \<Rightarrow> nat set) \<Rightarrow> 'c store \<Rightarrow> 'a option \<Rightarrow> nat set" where
  "refs_nullable r h None = {}"
| "refs_nullable r h (Some x) = r h x"

fun view_nullable :: "('c store \<Rightarrow> 'a \<Rightarrow> 'v option) \<Rightarrow> 'c store \<Rightarrow> 'a option \<Rightarrow> 'v option option" where
  "view_nullable w h None = Some None"
| "view_nullable w h (Some x) = map_option Some (w h x)"

lemma copier_nullable:
  assumes "copier c r w"
  shows "copier (copy_nullable c) (refs_nullable r) (view_nullable w)"
proof unfold_locales
  fix h h' x v
  assume v: "view_nullable w h x = Some v" and e: "\<And>a. a \<in> refs_nullable r h x \<Longrightarrow> st_mem h' a = st_mem h a"
  show "view_nullable w h' x = Some v \<and> refs_nullable r h' x = refs_nullable r h x"
  proof (cases x)
    case (Some x')
    then obtain v' where v': "w h x' = Some v'" "v = Some v'" using v by auto
    have "w h' x' = Some v' \<and> r h' x' = r h x'" by (rule copier.frame [OF assms v'(1)]) (simp add: e Some)
    then show ?thesis using Some v'(2) by simp
  qed (use v in simp)
next
  fix h x v assume "wf_store h" "view_nullable w h x = Some v"
  then show "refs_nullable r h x \<subseteq> {..<st_next h}" using copier.inside [OF assms] by (cases x) fastforce+
next
  fix h x v h' y assume h: "wf_store h" "view_nullable w h x = Some v" "copy_nullable c h x = (h', y)"
  show "grows h h' \<and> view_nullable w h' y = Some v \<and> refs_nullable r h' y \<subseteq> {st_next h..<st_next h'}"
  proof (cases x)
    case None
    then show ?thesis using h by (auto simp: grows_refl)
  next
    case (Some x')
    obtain v' where v': "w h x' = Some v'" "v = Some v'" using h(2) Some by (cases "w h x'") auto
    obtain y' where y': "c h x' = (h', y')" "y = Some y'" using h(3) Some by (auto split: prod.split_asm)
    show ?thesis using copier.copies [OF assms h(1) v'(1) y'(1)] v'(2) y'(2) by simp
  qed
qed

lemma refs_cell_load: "load unbox h a = Some x \<Longrightarrow> refs_cell unbox r h a = insert a (r h x)"
  by (simp add: refs_cell_def)

lemma view_cell_Some: "view_cell unbox w h a = Some v \<longleftrightarrow> (\<exists>x. load unbox h a = Some x \<and> w h x = Some v)"
  by (cases "load unbox h a") (simp_all add: view_cell_def)

lemma load_frame: "st_mem h' a = st_mem h a \<Longrightarrow> load unbox h' a = load unbox h a"
  by (simp add: load_def)

lemma load_write [simp]: "load unbox (write_cell h a k) a = unbox k"
  by (simp add: load_def write_cell_def)

lemma load_dom: "wf_store h \<Longrightarrow> load unbox h a = Some x \<Longrightarrow> a < st_next h"
  by (cases "st_mem h a") (auto simp: load_def wf_store_def)

text \<open>Filling a fresh cell with a copy: the step that pointers and slices share.\<close>

lemma fill_fresh:
  assumes "copier c r w" "wf_store h" "w h x = Some v" "new_cell h z = (h1, b)" "c h1 x = (h2, y)"
  shows "grows h (write_cell h2 b k) \<and> b = st_next h \<and> b < st_next h2 \<and>
    st_mem (write_cell h2 b k) b = Some k \<and>
    w (write_cell h2 b k) y = Some v \<and> r (write_cell h2 b k) y \<subseteq> {st_next h<..<st_next h2}"
proof -
  have g1: "grows h h1 \<and> b = st_next h \<and> st_next h1 = st_next h + 1" by (rule new_cell_grows [OF assms(2,4)])
  have "w h1 x = Some v" using copier.grown [OF assms(1,2,3)] g1 by blast
  then have g2: "grows h1 h2 \<and> w h2 y = Some v \<and> r h2 y \<subseteq> {st_next h1..<st_next h2}"
    using copier.copies [OF assms(1) grows_wf _ assms(5)] g1 by blast
  have "st_mem (write_cell h2 b k) a = st_mem h2 a" if "a \<in> r h2 y" for a
    using that g1 g2 by (auto simp: write_cell_def)
  then have "w (write_cell h2 b k) y = Some v \<and> r (write_cell h2 b k) y = r h2 y"
    using copier.frame [OF assms(1)] g2 by blast
  moreover have "grows h (write_cell h2 b k)"
    using write_fresh_grows [of h h2 b k] grows_trans [of h h1 h2] grows_next [of h1 h2] g1 g2 by auto
  ultimately show ?thesis using g1 g2 grows_next [of h1 h2] by (auto simp: write_cell_def)
qed

lemma copier_cell:
  assumes "copier c r w" "\<And>x. unbox (box x) = Some x"
  shows "copier (copy_cell box unbox c) (refs_cell unbox r) (view_cell unbox w)"
proof unfold_locales
  fix h h' a v assume v: "view_cell unbox w h a = Some v" and e: "\<And>b. b \<in> refs_cell unbox r h a \<Longrightarrow> st_mem h' b = st_mem h b"
  obtain x where x: "load unbox h a = Some x" "w h x = Some v" using v by (auto simp: view_cell_Some)
  have e': "st_mem h' b = st_mem h b" if "b = a \<or> b \<in> r h x" for b
    using that x(1) by (intro e) (simp add: refs_cell_load)
  have l: "load unbox h' a = Some x" using load_frame [OF e' [of a], of unbox] x(1) by simp
  have "w h' x = Some v \<and> r h' x = r h x" by (rule copier.frame [OF assms(1) x(2)]) (simp add: e')
  then show "view_cell unbox w h' a = Some v \<and> refs_cell unbox r h' a = refs_cell unbox r h a"
    using l x by (auto simp: view_cell_Some refs_cell_load)
next
  fix h a v assume h: "wf_store h" "view_cell unbox w h a = Some v"
  then obtain x where "load unbox h a = Some x" "w h x = Some v" by (auto simp: view_cell_Some)
  then show "refs_cell unbox r h a \<subseteq> {..<st_next h}"
    using copier.inside [OF assms(1) h(1)] load_dom [OF h(1)] by (simp add: refs_cell_load)
next
  fix h a v h' b assume h: "wf_store h" "view_cell unbox w h a = Some v" "copy_cell box unbox c h a = (h', b)"
  obtain x where x: "load unbox h a = Some x" "w h x = Some v" using h(2) by (auto simp: view_cell_Some)
  obtain h1 h2 y where s: "new_cell h (box x) = (h1, b)" "c h1 x = (h2, y)" "h' = write_cell h2 b (box y)"
    using h(3) x(1) by (auto simp: copy_cell_def split: prod.split_asm)
  note f = fill_fresh [OF assms(1) h(1) x(2) s(1,2), of "box y"]
  have l: "load unbox h' b = Some y" by (simp add: s(3) assms(2))
  have "st_next h' = st_next h2" by (simp add: s(3) write_cell_def)
  then show "grows h h' \<and> view_cell unbox w h' b = Some v \<and> refs_cell unbox r h' b \<subseteq> {st_next h..<st_next h'}"
    using f l s(3) by (auto simp: view_cell_Some refs_cell_load)
qed


subsection \<open>Slices\<close>

text \<open>
  A slice is a window (address of the array, offset, length). Copying makes an array of the
  window's length and copies the elements one after the other.
\<close>

type_synonym slice = "nat \<times> nat \<times> nat"

fun copy_list :: "('c store \<Rightarrow> 'a \<Rightarrow> 'c store \<times> 'a) \<Rightarrow> 'c store \<Rightarrow> 'a list \<Rightarrow> 'c store \<times> 'a list" where
  "copy_list c h [] = (h, [])"
| "copy_list c h (x # xs) =
     (let (h1, y) = c h x; (h2, ys) = copy_list c h1 xs in (h2, y # ys))"

fun refs_list :: "('c store \<Rightarrow> 'a \<Rightarrow> nat set) \<Rightarrow> 'c store \<Rightarrow> 'a list \<Rightarrow> nat set" where
  "refs_list r h [] = {}"
| "refs_list r h (x # xs) = r h x \<union> refs_list r h xs"

fun view_list :: "('c store \<Rightarrow> 'a \<Rightarrow> 'v option) \<Rightarrow> 'c store \<Rightarrow> 'a list \<Rightarrow> 'v list option" where
  "view_list w h [] = Some []"
| "view_list w h (x # xs) =
     (case w h x of None \<Rightarrow> None | Some v \<Rightarrow> (case view_list w h xs of None \<Rightarrow> None | Some vs \<Rightarrow> Some (v # vs)))"

lemma view_list_Cons:
  "view_list w h (x # xs) = Some vs \<longleftrightarrow> (\<exists>v vs'. vs = v # vs' \<and> w h x = Some v \<and> view_list w h xs = Some vs')"
  by (auto split: option.split)

declare view_list.simps(2) [simp del]

lemma view_list_frame:
  assumes "copier c r w" "view_list w h xs = Some vs" "\<And>a. a \<in> refs_list r h xs \<Longrightarrow> st_mem h' a = st_mem h a"
  shows "view_list w h' xs = Some vs \<and> refs_list r h' xs = refs_list r h xs"
  using assms(2,3)
proof (induction xs arbitrary: vs)
  case (Cons x xs)
  obtain v vs' where v: "vs = v # vs'" "w h x = Some v" "view_list w h xs = Some vs'"
    using Cons.prems(1) by (auto simp: view_list_Cons)
  have "w h' x = Some v \<and> r h' x = r h x"
    by (rule copier.frame [OF assms(1) v(2)]) (simp add: Cons.prems(2))
  moreover have "view_list w h' xs = Some vs' \<and> refs_list r h' xs = refs_list r h xs"
    by (rule Cons.IH [OF v(3)]) (simp add: Cons.prems(2))
  ultimately show ?case using v(1) by (simp add: view_list_Cons)
qed simp

lemma view_list_inside:
  assumes "copier c r w" "wf_store h"
  shows "view_list w h xs = Some vs \<Longrightarrow> refs_list r h xs \<subseteq> {..<st_next h}"
proof (induction xs arbitrary: vs)
  case (Cons x xs)
  obtain v vs' where v: "w h x = Some v" "view_list w h xs = Some vs'"
    using Cons.prems by (auto simp: view_list_Cons)
  show ?case using copier.inside [OF assms v(1)] Cons.IH [OF v(2)] by simp
qed simp

lemma copy_list_copies:
  assumes "copier c r w" "wf_store h" "view_list w h xs = Some vs" "copy_list c h xs = (h', ys)"
  shows "grows h h' \<and> view_list w h' ys = Some vs \<and> refs_list r h' ys \<subseteq> {st_next h..<st_next h'} \<and> length ys = length xs"
  using assms(2-4)
proof (induction xs arbitrary: h vs ys)
  case Nil
  then show ?case by (simp add: grows_refl)
next
  case (Cons x xs)
  obtain v vs' where v: "vs = v # vs'" "w h x = Some v" "view_list w h xs = Some vs'"
    using Cons.prems(2) by (auto simp: view_list_Cons)
  obtain h1 y ys' where c: "c h x = (h1, y)" "copy_list c h1 xs = (h', ys')" "ys = y # ys'"
    using Cons.prems(3) by (auto split: prod.split_asm)
  have l: "grows h h1 \<and> w h1 y = Some v \<and> r h1 y \<subseteq> {st_next h..<st_next h1}"
    by (rule copier.copies [OF assms(1) Cons.prems(1) v(2) c(1)])
  have "st_mem h1 a = st_mem h a" if "a \<in> refs_list r h xs" for a
    using growsD [of h h1 a] l view_list_inside [OF assms(1) Cons.prems(1) v(3)] that by auto
  then have "view_list w h1 xs = Some vs'" using view_list_frame [OF assms(1) v(3)] by blast
  then have m: "grows h1 h' \<and> view_list w h' ys' = Some vs' \<and> refs_list r h' ys' \<subseteq> {st_next h1..<st_next h'} \<and> length ys' = length xs"
    using Cons.IH [OF grows_wf _ c(2)] l by blast
  have "w h' y = Some v \<and> r h' y = r h1 y" using copier.grown [OF assms(1) grows_wf] l m by blast
  moreover have "grows h h'" using grows_trans l m by blast
  ultimately show ?case
    using l m v(1) c(3) grows_next [of h h1] grows_next [of h1 h'] by (fastforce simp: view_list_Cons)
qed

lemma copier_list:
  assumes "copier c r w"
  shows "copier (copy_list c) (refs_list r) (view_list w)"
  by unfold_locales
    (use view_list_frame [OF assms] view_list_inside [OF assms] copy_list_copies [OF assms] in blast)+

definition window :: "('c \<Rightarrow> 'a list option) \<Rightarrow> 'c store \<Rightarrow> slice \<Rightarrow> 'a list option" where
  "window unbox h s =
     (case s of (a, off, n) \<Rightarrow>
        (case load unbox h a of
           None \<Rightarrow> None
         | Some arr \<Rightarrow> if off + n \<le> length arr then Some (take n (drop off arr)) else None))"

definition copy_slice ::
  "('a list \<Rightarrow> 'c) \<Rightarrow> ('c \<Rightarrow> 'a list option) \<Rightarrow> ('c store \<Rightarrow> 'a \<Rightarrow> 'c store \<times> 'a) \<Rightarrow>
   'c store \<Rightarrow> slice \<Rightarrow> 'c store \<times> slice" where
  "copy_slice box unbox into h s =
     (case window unbox h s of
        None \<Rightarrow> (h, s)
      | Some xs \<Rightarrow>
          (let (h1, b) = new_cell h (box xs); (h2, ys) = copy_list into h1 xs
           in (write_cell h2 b (box ys), (b, 0, length xs))))"

definition refs_slice ::
  "('c \<Rightarrow> 'a list option) \<Rightarrow> ('c store \<Rightarrow> 'a \<Rightarrow> nat set) \<Rightarrow> 'c store \<Rightarrow> slice \<Rightarrow> nat set" where
  "refs_slice unbox r h s = insert (fst s) (case window unbox h s of None \<Rightarrow> {} | Some xs \<Rightarrow> refs_list r h xs)"

definition view_slice ::
  "('c \<Rightarrow> 'a list option) \<Rightarrow> ('c store \<Rightarrow> 'a \<Rightarrow> 'v option) \<Rightarrow> 'c store \<Rightarrow> slice \<Rightarrow> 'v list option" where
  "view_slice unbox w h s = Option.bind (window unbox h s) (view_list w h)"

lemma view_slice_Some: "view_slice unbox w h s = Some vs \<longleftrightarrow> (\<exists>xs. window unbox h s = Some xs \<and> view_list w h xs = Some vs)"
  by (cases "window unbox h s") (simp_all add: view_slice_def)

lemma refs_slice_window: "window unbox h s = Some xs \<Longrightarrow> refs_slice unbox r h s = insert (fst s) (refs_list r h xs)"
  by (simp add: refs_slice_def)

lemma window_frame: "st_mem h' (fst s) = st_mem h (fst s) \<Longrightarrow> window unbox h' s = window unbox h s"
  using load_frame [of h' "fst s" h unbox] by (cases s) (simp add: window_def)

lemma window_dom: "wf_store h \<Longrightarrow> window unbox h s = Some xs \<Longrightarrow> fst s < st_next h"
  by (cases s) (auto simp: window_def load_dom split: option.split_asm)

lemma copier_slice:
  assumes "copier c r w" "\<And>x. unbox (box x) = Some x"
  shows "copier (copy_slice box unbox c) (refs_slice unbox r) (view_slice unbox w)"
proof unfold_locales
  fix h h' s v assume v: "view_slice unbox w h s = Some v" and e: "\<And>b. b \<in> refs_slice unbox r h s \<Longrightarrow> st_mem h' b = st_mem h b"
  obtain xs where x: "window unbox h s = Some xs" "view_list w h xs = Some v" using v by (auto simp: view_slice_Some)
  have e': "st_mem h' b = st_mem h b" if "b = fst s \<or> b \<in> refs_list r h xs" for b
    using that x(1) by (intro e) (simp add: refs_slice_window)
  have l: "window unbox h' s = Some xs" using window_frame [OF e' [of "fst s"], of unbox] x(1) by simp
  have "view_list w h' xs = Some v \<and> refs_list r h' xs = refs_list r h xs"
    by (rule view_list_frame [OF assms(1) x(2)]) (simp add: e')
  then show "view_slice unbox w h' s = Some v \<and> refs_slice unbox r h' s = refs_slice unbox r h s"
    using l x by (auto simp: view_slice_Some refs_slice_window)
next
  fix h s v assume h: "wf_store h" "view_slice unbox w h s = Some v"
  then obtain xs where "window unbox h s = Some xs" "view_list w h xs = Some v" by (auto simp: view_slice_Some)
  then show "refs_slice unbox r h s \<subseteq> {..<st_next h}"
    using copier.inside [OF copier_list [OF assms(1)] h(1)] window_dom [OF h(1)] by (simp add: refs_slice_window)
next
  fix h s v h' t assume h: "wf_store h" "view_slice unbox w h s = Some v" "copy_slice box unbox c h s = (h', t)"
  obtain xs where x: "window unbox h s = Some xs" "view_list w h xs = Some v" using h(2) by (auto simp: view_slice_Some)
  obtain h1 b h2 ys where n: "new_cell h (box xs) = (h1, b)" "copy_list c h1 xs = (h2, ys)"
    and t: "h' = write_cell h2 b (box ys)" "t = (b, 0, length xs)"
    using h(3) x(1) by (auto simp: copy_slice_def split: prod.split_asm)
  note f = fill_fresh [OF copier_list [OF assms(1)] h(1) x(2) n, of "box ys"]
  have "grows h h1" using new_cell_grows [OF h(1) n(1)] by blast
  then have "view_list w h1 xs = Some v" using copier.grown [OF copier_list [OF assms(1)] h(1) x(2)] by blast
  then have "length ys = length xs"
    using copy_list_copies [OF assms(1) grows_wf _ n(2)] \<open>grows h h1\<close> by blast
  then have l: "window unbox h' t = Some ys" using t by (simp add: window_def assms(2))
  have "st_next h' = st_next h2" by (simp add: t(1) write_cell_def)
  then show "grows h h' \<and> view_slice unbox w h' t = Some v \<and> refs_slice unbox r h' t \<subseteq> {st_next h..<st_next h'}"
    using f l t by (auto simp: view_slice_Some refs_slice_window)
qed

section \<open>Writing a field of a copy\<close>

text \<open>
  \<open>p.Field = e\<close> through a pointer. The code writes through copies it just made, so the nil
  pointer, on which Go panics, does not occur; it leaves the store.
\<close>

definition set_field ::
  "('a \<Rightarrow> 'c) \<Rightarrow> ('c \<Rightarrow> 'a option) \<Rightarrow> ('a \<Rightarrow> 'a) \<Rightarrow> 'c store \<Rightarrow> nat option \<Rightarrow> 'c store" where
  "set_field box unbox f h p =
     (case p of
        None \<Rightarrow> h
      | Some a \<Rightarrow> (case load unbox h a of None \<Rightarrow> h | Some x \<Rightarrow> write_cell h a (box (f x))))"

text \<open>The pair of a patch and its base: the patch stands for the changed value, the base for the old one.\<close>

definition patched ::
  "('c store \<Rightarrow> nat \<Rightarrow> 'v option) \<Rightarrow> nat \<Rightarrow> 'v \<Rightarrow> 'v \<Rightarrow> 'c store \<times> nat option \<Rightarrow> bool" where
  "patched w a v v' r \<longleftrightarrow>
     (case r of
        (h, None) \<Rightarrow> False
      | (h, Some b) \<Rightarrow> b \<noteq> a \<and> wf_store h \<and> w h b = Some v' \<and> w h a = Some v)"

lemma set_field_patched:
  assumes c: "copier c r w" "\<And>x. unbox (box x) = Some x"
    and h: "wf_store h" "view_cell unbox w h a = Some v"
    and d: "copy_nullable (copy_cell box unbox c) h (Some a) = (h1, p)"
    and f: "\<And>y. w h1 y = Some v \<Longrightarrow> w h1 (f y) = Some v' \<and> r h1 (f y) \<subseteq> r h1 y \<union> {..<st_next h}"
  shows "patched (view_cell unbox w) a v v' (set_field box unbox f h1 p, p)"
proof -
  obtain x where x: "load unbox h a = Some x" "w h x = Some v" using h(2) by (auto simp: view_cell_Some)
  obtain g b g2 y where s: "new_cell h (box x) = (g, b)" "c g x = (g2, y)"
    and h1: "h1 = write_cell g2 b (box y)" and p: "p = Some b"
    using d x(1) by (auto simp: copy_cell_def split: prod.split_asm)
  note cell = copier_cell [where box = box, OF c]
  note fresh = fill_fresh [OF c(1) h(1) x(2) s, of "box y", folded h1]
  have a: "a < st_next h" by (rule load_dom [OF h(1) x(1)])
  have y: "load unbox h1 b = Some y" by (simp add: h1 c(2))
  let ?k = "write_cell h1 b (box (f y))"
  have m: "st_mem ?k e = st_mem h1 e" if "e \<noteq> b" for e using that by (simp add: write_cell_def)
  have fy: "w h1 (f y) = Some v' \<and> r h1 (f y) \<subseteq> r h1 y \<union> {..<st_next h}" using f fresh by blast
  have "w ?k (f y) = Some v' \<and> r ?k (f y) = r h1 (f y)"
    by (rule copier.frame [OF c(1) conjunct1 [OF fy]], rule m) (use fy fresh in auto)
  then have "view_cell unbox w ?k b = Some v'" by (auto simp: view_cell_Some c(2))
  moreover have "view_cell unbox w ?k a = Some v"
  proof (rule conjunct1 [OF copier.frame [OF cell]])
    show "view_cell unbox w h1 a = Some v" using copier.grown [OF cell h] fresh by blast
    show "st_mem ?k e = st_mem h1 e" if "e \<in> refs_cell unbox r h1 a" for e
      using that copier.grown [OF cell h] copier.inside [OF cell h] fresh by (intro m) fastforce
  qed
  moreover have "wf_store ?k"
    using fresh by (auto simp: h1 grows_def wf_store_def write_cell_def)
  moreover have "b \<noteq> a" using a fresh by simp
  ultimately show ?thesis by (simp add: patched_def set_field_def p y)
qed

end
