(* ===== verification/DeepCopy.thy ===== *)
theory DeepCopy
  imports GoHeap Kube
begin

text \<open>
  The generated copying code of \<open>api/v1alpha1/zz_generated.deepcopy.go\<close> on Go's heap. The
  structs of the API with their pointers, slices and maps are the records \<open>g_...\<close>, whose
  references point into one store of tagged cells; the view of a struct is the record of
  \<open>Api\<close> that the rest of the development works with. The copying code of other packages
  (quantities, times, conditions and the object metadata) is the parameter \<open>copy_lib\<close>.
\<close>

section \<open>Structs on the heap\<close>

text \<open>A pointer or map is an address, nil is none; a slice is a window, nil is none.\<close>

type_synonym type_meta = "string \<times> string"

record checkpoint_spec =
  spec_PPVPARef :: string

record prr_spec =
  spec_TargetPodName :: string

record g_container_level_contention =
  gclc_ContainerName :: "string"
  gclc_Memory :: "string"
  gclc_CPU :: "string"
  gclc_LastUpdated :: "nat option"

record g_pod_level_contention =
  gplc_Memory :: "string"
  gplc_CPU :: "string"
  gplc_LastUpdated :: "nat option"

record g_contention_high_watermarks =
  gchw_PodLevel :: "nat option"
  gchw_ContainerLevel :: "slice option"

record g_observed_peak =
  gop_PodLevel :: "nat option"
  gop_Containers :: "slice option"

record g_infeasible_behavior =
  gib_MaxSurge :: "nat option"
  gib_MaxUnavailable :: "nat option"

record g_update_policy =
  gup_UpdateMode :: "update_mode"
  gup_AnomalyEvictionTimeoutSeconds :: "int32"
  gup_SignificantChangeThresholdPercentage :: "int32"
  gup_BurstTimeoutSeconds :: "int32"
  gup_InfeasibleUpdateBehavior :: "g_infeasible_behavior"

record g_pod_level_policy =
  gplp_ResourceName :: "string"
  gplp_MinAllowed :: "nat option"
  gplp_MaxAllowed :: "nat option"

record g_container_policy =
  gcp_ContainerName :: "string"
  gcp_MinAllowed :: "nat option"
  gcp_MaxAllowed :: "nat option"

record g_resource_policy =
  grp_PodLevelPolicies :: "slice option"
  grp_ContainerPolicies :: "slice option"

record g_container_recommendation =
  gcr_ContainerName :: "string"
  gcr_LowerBound :: "nat option"
  gcr_Target :: "nat option"
  gcr_UncappedTarget :: "nat option"
  gcr_UpperBound :: "nat option"

record g_pod_level_recommendation =
  gpl_LowerBound :: "nat option"
  gpl_Target :: "nat option"
  gpl_UncappedTarget :: "nat option"
  gpl_UpperBound :: "nat option"

record g_recommendation =
  grec_PodLevelTarget :: "nat option"
  grec_PodLevel :: "g_pod_level_recommendation"
  grec_ContainerRecommendations :: "slice option"

record g_ppvpa_spec =
  gvs_TargetRef :: "cross_ref"
  gvs_RecommenderPolicy :: "recommender_policy"
  gvs_ScalingThresholds :: "scaling_thresholds"
  gvs_TargetReplicas :: "nat option"
  gvs_UpdatePolicy :: "g_update_policy"
  gvs_ResourcePolicy :: "g_resource_policy"

record g_ppvpa_status =
  gvt_ActiveReplicas :: "int32"
  gvt_TemporaryReplicas :: "int32"
  gvt_DefaultRecommendation :: "nat option"
  gvt_Conditions :: "slice option"

record 'm g_ppvpa =
  gv_TypeMeta :: "type_meta"
  gv_ObjectMeta :: "'m"
  gv_Spec :: "g_ppvpa_spec"
  gv_Status :: "g_ppvpa_status"

record g_prr_status =
  gpt_HistogramCheckpoint :: "string"
  gpt_ContentionHighWatermarks :: "nat option"
  gpt_ObservedPeak :: "nat option"
  gpt_PodLevelTarget :: "nat option"
  gpt_ContainerRecommendations :: "slice option"
  gpt_Conditions :: "slice option"

record 'm g_prr =
  gp_TypeMeta :: "type_meta"
  gp_Spec :: "prr_spec"
  gp_ObjectMeta :: "'m"
  gp_Status :: "g_prr_status"

record g_checkpoint_status =
  gct_AggregateHistogramCheckpoint :: "string"
  gct_LastUpdateTime :: "nat option"
  gct_Conditions :: "slice option"

record 'm g_checkpoint =
  gc_TypeMeta :: "type_meta"
  gc_Spec :: "checkpoint_spec"
  gc_ObjectMeta :: "'m"
  gc_Status :: "g_checkpoint_status"

record 'l g_ppvpa_list =
  gvl_TypeMeta :: "type_meta"
  gvl_ListMeta :: "'l"
  gvl_Items :: "slice option"

record 'l g_prr_list =
  gprl_TypeMeta :: "type_meta"
  gprl_ListMeta :: "'l"
  gprl_Items :: "slice option"

record 'l g_checkpoint_list =
  gcl_TypeMeta :: "type_meta"
  gcl_ListMeta :: "'l"
  gcl_Items :: "slice option"

text \<open>
  The cells of the store: what a pointer field, a map or the array of a slice holds; the
  structs; the objects with metadata, their lists and the arrays of these.
\<close>

datatype 'q field_cell =
    CInt32 "int32"
  | CIntOrString "int_or_string"
  | CTime "time"
  | CQuantity "'q"
  | CResources "'q resource_list"
  | CConditions "condition list"
  | CContainerLevelContentions "g_container_level_contention list"
  | CObservedPeakContainers "observed_peak_container list"
  | CPodLevelPolicies "g_pod_level_policy list"
  | CContainerPolicies "g_container_policy list"
  | CContainerRecommendations "g_container_recommendation list"

datatype ('m, 'l) object_cell =
    CPPVPAs "'m g_ppvpa list"
  | CPRRs "'m g_prr list"
  | CCheckpoints "'m g_checkpoint list"
  | CPPVPA "'m g_ppvpa"
  | CCheckpoint "'m g_checkpoint"
  | CPPVPACheckpointList "'l g_checkpoint_list"
  | CPPVPAList "'l g_ppvpa_list"
  | CPRR "'m g_prr"
  | CPRRList "'l g_prr_list"

datatype struct_cell =
    CCPUThresholds "cpu_thresholds"
  | CContainerLevelContention "g_container_level_contention"
  | CContainerPolicy "g_container_policy"
  | CContainerRecommendation "g_container_recommendation"
  | CContentionHighWatermarks "g_contention_high_watermarks"
  | CInfeasibleBehavior "g_infeasible_behavior"
  | CMemoryThresholds "memory_thresholds"
  | CObservedPeak "g_observed_peak"
  | CObservedPeakContainer "observed_peak_container"
  | CObservedPeakPodLevel "observed_peak_pod_level"
  | CPPVPACheckpointSpec "checkpoint_spec"
  | CPPVPACheckpointStatus "g_checkpoint_status"
  | CPPVPASpec "g_ppvpa_spec"
  | CPPVPAStatus "g_ppvpa_status"
  | CPodLevelContention "g_pod_level_contention"
  | CPodLevelPolicy "g_pod_level_policy"
  | CPodLevelRecommendation "g_pod_level_recommendation"
  | CPRRSpec "prr_spec"
  | CPRRStatus "g_prr_status"
  | CRecommendation "g_recommendation"
  | CRecommenderPolicy "recommender_policy"
  | CResourcePolicy "g_resource_policy"
  | CScalingThresholds "scaling_thresholds"
  | CUpdatePolicy "g_update_policy"

datatype ('q, 'm, 'l) cell =
    Field "'q field_cell"
  | Object "('m, 'l) object_cell"
  | Struct "struct_cell"

type_synonym ('q, 'm, 'l) heap = "('q, 'm, 'l) cell store"

type_synonym ('q, 'm, 'l, 'a) copying = "('q, 'm, 'l) heap \<Rightarrow> 'a \<Rightarrow> ('q, 'm, 'l) heap \<times> 'a"

text \<open>Reading a cell at a type.\<close>

definition as_Int32 :: "('q, 'm, 'l) cell \<Rightarrow> int32 option" where
  "as_Int32 c = (case c of Field (CInt32 x) \<Rightarrow> Some x | _ \<Rightarrow> None)"

definition as_IntOrString :: "('q, 'm, 'l) cell \<Rightarrow> int_or_string option" where
  "as_IntOrString c = (case c of Field (CIntOrString x) \<Rightarrow> Some x | _ \<Rightarrow> None)"

definition as_Time :: "('q, 'm, 'l) cell \<Rightarrow> time option" where
  "as_Time c = (case c of Field (CTime x) \<Rightarrow> Some x | _ \<Rightarrow> None)"

definition as_Quantity :: "('q, 'm, 'l) cell \<Rightarrow> 'q option" where
  "as_Quantity c = (case c of Field (CQuantity x) \<Rightarrow> Some x | _ \<Rightarrow> None)"

definition as_Resources :: "('q, 'm, 'l) cell \<Rightarrow> 'q resource_list option" where
  "as_Resources c = (case c of Field (CResources x) \<Rightarrow> Some x | _ \<Rightarrow> None)"

definition as_Conditions :: "('q, 'm, 'l) cell \<Rightarrow> (condition list) option" where
  "as_Conditions c = (case c of Field (CConditions x) \<Rightarrow> Some x | _ \<Rightarrow> None)"

definition as_ContainerLevelContentions :: "('q, 'm, 'l) cell \<Rightarrow> (g_container_level_contention list)
    option" where
  "as_ContainerLevelContentions c = (case c of Field (CContainerLevelContentions x) \<Rightarrow> Some x | _ \<Rightarrow>
      None)"

definition as_ObservedPeakContainers :: "('q, 'm, 'l) cell \<Rightarrow> (observed_peak_container list) option"
    where
  "as_ObservedPeakContainers c = (case c of Field (CObservedPeakContainers x) \<Rightarrow> Some x | _ \<Rightarrow> None)"

definition as_PodLevelPolicies :: "('q, 'm, 'l) cell \<Rightarrow> (g_pod_level_policy list) option" where
  "as_PodLevelPolicies c = (case c of Field (CPodLevelPolicies x) \<Rightarrow> Some x | _ \<Rightarrow> None)"

definition as_ContainerPolicies :: "('q, 'm, 'l) cell \<Rightarrow> (g_container_policy list) option" where
  "as_ContainerPolicies c = (case c of Field (CContainerPolicies x) \<Rightarrow> Some x | _ \<Rightarrow> None)"

definition as_ContainerRecommendations :: "('q, 'm, 'l) cell \<Rightarrow> (g_container_recommendation list) option"
    where
  "as_ContainerRecommendations c = (case c of Field (CContainerRecommendations x) \<Rightarrow> Some x | _ \<Rightarrow> None)"

definition as_PPVPAs :: "('q, 'm, 'l) cell \<Rightarrow> ('m g_ppvpa list) option" where
  "as_PPVPAs c = (case c of Object (CPPVPAs x) \<Rightarrow> Some x | _ \<Rightarrow> None)"

definition as_PRRs :: "('q, 'm, 'l) cell \<Rightarrow> ('m g_prr list) option" where
  "as_PRRs c = (case c of Object (CPRRs x) \<Rightarrow> Some x | _ \<Rightarrow> None)"

definition as_Checkpoints :: "('q, 'm, 'l) cell \<Rightarrow> ('m g_checkpoint list) option" where
  "as_Checkpoints c = (case c of Object (CCheckpoints x) \<Rightarrow> Some x | _ \<Rightarrow> None)"

definition as_PPVPA :: "('q, 'm, 'l) cell \<Rightarrow> 'm g_ppvpa option" where
  "as_PPVPA c = (case c of Object (CPPVPA x) \<Rightarrow> Some x | _ \<Rightarrow> None)"

definition as_Checkpoint :: "('q, 'm, 'l) cell \<Rightarrow> 'm g_checkpoint option" where
  "as_Checkpoint c = (case c of Object (CCheckpoint x) \<Rightarrow> Some x | _ \<Rightarrow> None)"

definition as_PPVPACheckpointList :: "('q, 'm, 'l) cell \<Rightarrow> 'l g_checkpoint_list option" where
  "as_PPVPACheckpointList c = (case c of Object (CPPVPACheckpointList x) \<Rightarrow> Some x | _ \<Rightarrow> None)"

definition as_PPVPAList :: "('q, 'm, 'l) cell \<Rightarrow> 'l g_ppvpa_list option" where
  "as_PPVPAList c = (case c of Object (CPPVPAList x) \<Rightarrow> Some x | _ \<Rightarrow> None)"

definition as_PRR :: "('q, 'm, 'l) cell \<Rightarrow> 'm g_prr option" where
  "as_PRR c = (case c of Object (CPRR x) \<Rightarrow> Some x | _ \<Rightarrow> None)"

definition as_PRRList :: "('q, 'm, 'l) cell \<Rightarrow> 'l g_prr_list option" where
  "as_PRRList c = (case c of Object (CPRRList x) \<Rightarrow> Some x | _ \<Rightarrow> None)"

definition as_CPUThresholds :: "('q, 'm, 'l) cell \<Rightarrow> cpu_thresholds option" where
  "as_CPUThresholds c = (case c of Struct (CCPUThresholds x) \<Rightarrow> Some x | _ \<Rightarrow> None)"

definition as_ContainerLevelContention :: "('q, 'm, 'l) cell \<Rightarrow> g_container_level_contention option"
    where
  "as_ContainerLevelContention c = (case c of Struct (CContainerLevelContention x) \<Rightarrow> Some x | _ \<Rightarrow> None)"

definition as_ContainerPolicy :: "('q, 'm, 'l) cell \<Rightarrow> g_container_policy option" where
  "as_ContainerPolicy c = (case c of Struct (CContainerPolicy x) \<Rightarrow> Some x | _ \<Rightarrow> None)"

definition as_ContainerRecommendation :: "('q, 'm, 'l) cell \<Rightarrow> g_container_recommendation option" where
  "as_ContainerRecommendation c = (case c of Struct (CContainerRecommendation x) \<Rightarrow> Some x | _ \<Rightarrow> None)"

definition as_ContentionHighWatermarks :: "('q, 'm, 'l) cell \<Rightarrow> g_contention_high_watermarks option"
    where
  "as_ContentionHighWatermarks c = (case c of Struct (CContentionHighWatermarks x) \<Rightarrow> Some x | _ \<Rightarrow> None)"

definition as_InfeasibleBehavior :: "('q, 'm, 'l) cell \<Rightarrow> g_infeasible_behavior option" where
  "as_InfeasibleBehavior c = (case c of Struct (CInfeasibleBehavior x) \<Rightarrow> Some x | _ \<Rightarrow> None)"

definition as_MemoryThresholds :: "('q, 'm, 'l) cell \<Rightarrow> memory_thresholds option" where
  "as_MemoryThresholds c = (case c of Struct (CMemoryThresholds x) \<Rightarrow> Some x | _ \<Rightarrow> None)"

definition as_ObservedPeak :: "('q, 'm, 'l) cell \<Rightarrow> g_observed_peak option" where
  "as_ObservedPeak c = (case c of Struct (CObservedPeak x) \<Rightarrow> Some x | _ \<Rightarrow> None)"

definition as_ObservedPeakContainer :: "('q, 'm, 'l) cell \<Rightarrow> observed_peak_container option" where
  "as_ObservedPeakContainer c = (case c of Struct (CObservedPeakContainer x) \<Rightarrow> Some x | _ \<Rightarrow> None)"

definition as_ObservedPeakPodLevel :: "('q, 'm, 'l) cell \<Rightarrow> observed_peak_pod_level option" where
  "as_ObservedPeakPodLevel c = (case c of Struct (CObservedPeakPodLevel x) \<Rightarrow> Some x | _ \<Rightarrow> None)"

definition as_PPVPACheckpointSpec :: "('q, 'm, 'l) cell \<Rightarrow> checkpoint_spec option" where
  "as_PPVPACheckpointSpec c = (case c of Struct (CPPVPACheckpointSpec x) \<Rightarrow> Some x | _ \<Rightarrow> None)"

definition as_PPVPACheckpointStatus :: "('q, 'm, 'l) cell \<Rightarrow> g_checkpoint_status option" where
  "as_PPVPACheckpointStatus c = (case c of Struct (CPPVPACheckpointStatus x) \<Rightarrow> Some x | _ \<Rightarrow> None)"

definition as_PPVPASpec :: "('q, 'm, 'l) cell \<Rightarrow> g_ppvpa_spec option" where
  "as_PPVPASpec c = (case c of Struct (CPPVPASpec x) \<Rightarrow> Some x | _ \<Rightarrow> None)"

definition as_PPVPAStatus :: "('q, 'm, 'l) cell \<Rightarrow> g_ppvpa_status option" where
  "as_PPVPAStatus c = (case c of Struct (CPPVPAStatus x) \<Rightarrow> Some x | _ \<Rightarrow> None)"

definition as_PodLevelContention :: "('q, 'm, 'l) cell \<Rightarrow> g_pod_level_contention option" where
  "as_PodLevelContention c = (case c of Struct (CPodLevelContention x) \<Rightarrow> Some x | _ \<Rightarrow> None)"

definition as_PodLevelPolicy :: "('q, 'm, 'l) cell \<Rightarrow> g_pod_level_policy option" where
  "as_PodLevelPolicy c = (case c of Struct (CPodLevelPolicy x) \<Rightarrow> Some x | _ \<Rightarrow> None)"

definition as_PodLevelRecommendation :: "('q, 'm, 'l) cell \<Rightarrow> g_pod_level_recommendation option" where
  "as_PodLevelRecommendation c = (case c of Struct (CPodLevelRecommendation x) \<Rightarrow> Some x | _ \<Rightarrow> None)"

definition as_PRRSpec :: "('q, 'm, 'l) cell \<Rightarrow> prr_spec option" where
  "as_PRRSpec c = (case c of Struct (CPRRSpec x) \<Rightarrow> Some x | _ \<Rightarrow> None)"

definition as_PRRStatus :: "('q, 'm, 'l) cell \<Rightarrow> g_prr_status option" where
  "as_PRRStatus c = (case c of Struct (CPRRStatus x) \<Rightarrow> Some x | _ \<Rightarrow> None)"

definition as_Recommendation :: "('q, 'm, 'l) cell \<Rightarrow> g_recommendation option" where
  "as_Recommendation c = (case c of Struct (CRecommendation x) \<Rightarrow> Some x | _ \<Rightarrow> None)"

definition as_RecommenderPolicy :: "('q, 'm, 'l) cell \<Rightarrow> recommender_policy option" where
  "as_RecommenderPolicy c = (case c of Struct (CRecommenderPolicy x) \<Rightarrow> Some x | _ \<Rightarrow> None)"

definition as_ResourcePolicy :: "('q, 'm, 'l) cell \<Rightarrow> g_resource_policy option" where
  "as_ResourcePolicy c = (case c of Struct (CResourcePolicy x) \<Rightarrow> Some x | _ \<Rightarrow> None)"

definition as_ScalingThresholds :: "('q, 'm, 'l) cell \<Rightarrow> scaling_thresholds option" where
  "as_ScalingThresholds c = (case c of Struct (CScalingThresholds x) \<Rightarrow> Some x | _ \<Rightarrow> None)"

definition as_UpdatePolicy :: "('q, 'm, 'l) cell \<Rightarrow> g_update_policy option" where
  "as_UpdatePolicy c = (case c of Struct (CUpdatePolicy x) \<Rightarrow> Some x | _ \<Rightarrow> None)"

lemmas unboxing = as_Int32_def as_IntOrString_def as_Time_def as_Quantity_def as_Resources_def
    as_Conditions_def as_ContainerLevelContentions_def as_ObservedPeakContainers_def
    as_PodLevelPolicies_def as_ContainerPolicies_def as_ContainerRecommendations_def as_PPVPAs_def
    as_PRRs_def as_Checkpoints_def as_CPUThresholds_def as_ContainerLevelContention_def
    as_ContainerPolicy_def as_ContainerRecommendation_def as_ContentionHighWatermarks_def
    as_InfeasibleBehavior_def as_MemoryThresholds_def as_ObservedPeak_def as_ObservedPeakContainer_def
    as_ObservedPeakPodLevel_def as_PPVPA_def as_Checkpoint_def as_PPVPACheckpointList_def
    as_PPVPACheckpointSpec_def as_PPVPACheckpointStatus_def as_PPVPAList_def as_PPVPASpec_def
    as_PPVPAStatus_def as_PodLevelContention_def as_PodLevelPolicy_def as_PodLevelRecommendation_def
    as_PRR_def as_PRRList_def as_PRRSpec_def as_PRRStatus_def as_Recommendation_def
    as_RecommenderPolicy_def as_ResourcePolicy_def as_ScalingThresholds_def as_UpdatePolicy_def

section \<open>Code of other packages\<close>

record ('q, 'm, 'l) copy_lib =
  lib_Quantity :: "'q \<Rightarrow> 'q"
  lib_Condition :: "condition \<Rightarrow> condition"
  lib_Time :: "('q, 'm, 'l, nat) copying"
  lib_ObjectMeta :: "('q, 'm, 'l, 'm) copying"
  lib_ListMeta :: "('q, 'm, 'l, 'l) copying"

text \<open>
  What is relied on: a copied quantity or condition equals the original, and the other
  copying functions keep the contract of \<open>copier\<close>.
\<close>

definition copy_lib_ok ::
  "('q, 'm, 'l) copy_lib \<Rightarrow> (('q, 'm, 'l) heap \<Rightarrow> 'm \<Rightarrow> nat set) \<Rightarrow> (('q, 'm, 'l) heap \<Rightarrow> 'm \<Rightarrow> object_meta
      option) \<Rightarrow>
   (('q, 'm, 'l) heap \<Rightarrow> 'l \<Rightarrow> nat set) \<Rightarrow> (('q, 'm, 'l) heap \<Rightarrow> 'l \<Rightarrow> 'u option) \<Rightarrow> bool" where
  "copy_lib_ok lib mr mv lr lv \<longleftrightarrow>
     (\<forall>x. lib_Quantity lib x = x) \<and> (\<forall>c. lib_Condition lib c = c) \<and>
     copier (lib_Time lib) (refs_cell as_Time refs_plain) (view_cell as_Time view_plain) \<and>
     copier (lib_ObjectMeta lib) mr mv \<and> copier (lib_ListMeta lib) lr lv"

section \<open>Fields\<close>

definition resources_copy :: "('q, 'm, 'l) copy_lib \<Rightarrow> ('q, 'm, 'l, nat option) copying" where
  "resources_copy lib = copy_nullable (copy_cell (Field \<circ> CResources) as_Resources (copy_plain (\<lambda>m k.
      map_option (lib_Quantity lib) (m k))))"

definition quantity_copy :: "('q, 'm, 'l) copy_lib \<Rightarrow> ('q, 'm, 'l, nat option) copying" where
  "quantity_copy lib = copy_nullable (copy_cell (Field \<circ> CQuantity) as_Quantity (copy_plain
      (lib_Quantity lib)))"

definition time_copy :: "('q, 'm, 'l) copy_lib \<Rightarrow> ('q, 'm, 'l, nat option) copying" where
  "time_copy lib = copy_nullable (lib_Time lib)"

definition conditions_copy :: "('q, 'm, 'l) copy_lib \<Rightarrow> ('q, 'm, 'l, slice option) copying" where
  "conditions_copy lib = copy_nullable (copy_slice (Field \<circ> CConditions) as_Conditions (copy_plain
      (lib_Condition lib)))"

abbreviation (input) refs_resources :: "('q, 'm, 'l) heap \<Rightarrow> nat option \<Rightarrow> nat set" where
  "refs_resources \<equiv> refs_nullable (refs_cell as_Resources refs_plain)"

abbreviation (input) view_resources :: "('q, 'm, 'l) heap \<Rightarrow> nat option \<Rightarrow> 'q resource_list option option"
    where
  "view_resources \<equiv> view_nullable (view_cell as_Resources view_plain)"

abbreviation (input) refs_quantity :: "('q, 'm, 'l) heap \<Rightarrow> nat option \<Rightarrow> nat set" where
  "refs_quantity \<equiv> refs_nullable (refs_cell as_Quantity refs_plain)"

abbreviation (input) view_quantity :: "('q, 'm, 'l) heap \<Rightarrow> nat option \<Rightarrow> 'q option option" where
  "view_quantity \<equiv> view_nullable (view_cell as_Quantity view_plain)"

abbreviation (input) refs_time :: "('q, 'm, 'l) heap \<Rightarrow> nat option \<Rightarrow> nat set" where
  "refs_time \<equiv> refs_nullable (refs_cell as_Time refs_plain)"

abbreviation (input) view_time :: "('q, 'm, 'l) heap \<Rightarrow> nat option \<Rightarrow> time option option" where
  "view_time \<equiv> view_nullable (view_cell as_Time view_plain)"

abbreviation (input) refs_conditions :: "('q, 'm, 'l) heap \<Rightarrow> slice option \<Rightarrow> nat set" where
  "refs_conditions \<equiv> refs_nullable (refs_slice as_Conditions refs_plain)"

abbreviation (input) view_conditions :: "('q, 'm, 'l) heap \<Rightarrow> slice option \<Rightarrow> condition list option
    option" where
  "view_conditions \<equiv> view_nullable (view_slice as_Conditions view_plain)"

text \<open>A nil map reads as the empty map, a nil slice as the empty slice.\<close>

definition res_of :: "'q resource_list option \<Rightarrow> 'q resource_list" where
  "res_of m = (case m of None \<Rightarrow> Map.empty | Some m' \<Rightarrow> m')"

definition list_of :: "'a list option \<Rightarrow> 'a list" where
  "list_of xs = (case xs of None \<Rightarrow> [] | Some ys \<Rightarrow> ys)"

section \<open>The generated functions\<close>

definition cpu_thresholds_DeepCopyInto :: "('q, 'm, 'l, cpu_thresholds) copying" where
  "cpu_thresholds_DeepCopyInto h x = (h, x)"

definition memory_thresholds_DeepCopyInto :: "('q, 'm, 'l, memory_thresholds) copying" where
  "memory_thresholds_DeepCopyInto h x = (h, x)"

definition observed_peak_container_DeepCopyInto :: "('q, 'm, 'l, observed_peak_container) copying" where
  "observed_peak_container_DeepCopyInto h x = (h, x)"

definition observed_peak_pod_level_DeepCopyInto :: "('q, 'm, 'l, observed_peak_pod_level) copying" where
  "observed_peak_pod_level_DeepCopyInto h x = (h, x)"

definition checkpoint_spec_DeepCopyInto :: "('q, 'm, 'l, checkpoint_spec) copying" where
  "checkpoint_spec_DeepCopyInto h x = (h, x)"

definition prr_spec_DeepCopyInto :: "('q, 'm, 'l, prr_spec) copying" where
  "prr_spec_DeepCopyInto h x = (h, x)"

definition recommender_policy_DeepCopyInto :: "('q, 'm, 'l, recommender_policy) copying" where
  "recommender_policy_DeepCopyInto h x = (h, x)"

definition scaling_thresholds_DeepCopyInto :: "('q, 'm, 'l, scaling_thresholds) copying" where
  "scaling_thresholds_DeepCopyInto h x = (h, x\<lparr>st_CPU := st_CPU x, st_Memory := st_Memory x\<rparr>)"

definition container_level_contention_DeepCopyInto :: "('q, 'm, 'l) copy_lib \<Rightarrow> ('q, 'm, 'l,
    g_container_level_contention) copying" where
  "container_level_contention_DeepCopyInto lib h x =
     (let (h1, y1) = time_copy lib h (gclc_LastUpdated x)
      in (h1, x\<lparr>gclc_LastUpdated := y1\<rparr>))"

definition fields_container_level_contention :: "g_container_level_contention \<Rightarrow> _" where
  "fields_container_level_contention x = ((gclc_ContainerName x, gclc_Memory x, gclc_CPU x),
      gclc_LastUpdated x)"

definition refs_container_level_contention :: "('q, 'm, 'l) heap \<Rightarrow> g_container_level_contention \<Rightarrow> nat
    set" where
  "refs_container_level_contention h x = refs_pair refs_plain refs_time h
      (fields_container_level_contention x)"

definition view_container_level_contention :: "('q, 'm, 'l) heap \<Rightarrow> g_container_level_contention \<Rightarrow>
    container_level_contention option" where
  "view_container_level_contention h x =
     map_option (\<lambda>((n, m, c), t). \<lparr>clc_ContainerName = n, clc_Memory = m, clc_CPU = c, clc_LastUpdated =
         t\<rparr>)
       (view_pair view_plain view_time h (fields_container_level_contention x))"

definition pod_level_contention_DeepCopyInto :: "('q, 'm, 'l) copy_lib \<Rightarrow> ('q, 'm, 'l,
    g_pod_level_contention) copying" where
  "pod_level_contention_DeepCopyInto lib h x =
     (let (h1, y1) = time_copy lib h (gplc_LastUpdated x)
      in (h1, x\<lparr>gplc_LastUpdated := y1\<rparr>))"

definition fields_pod_level_contention :: "g_pod_level_contention \<Rightarrow> _" where
  "fields_pod_level_contention x = ((gplc_Memory x, gplc_CPU x), gplc_LastUpdated x)"

definition refs_pod_level_contention :: "('q, 'm, 'l) heap \<Rightarrow> g_pod_level_contention \<Rightarrow> nat set" where
  "refs_pod_level_contention h x = refs_pair refs_plain refs_time h (fields_pod_level_contention x)"

definition view_pod_level_contention :: "('q, 'm, 'l) heap \<Rightarrow> g_pod_level_contention \<Rightarrow>
    pod_level_contention option" where
  "view_pod_level_contention h x =
     map_option (\<lambda>((m, c), t). \<lparr>plc_Memory = m, plc_CPU = c, plc_LastUpdated = t\<rparr>)
       (view_pair view_plain view_time h (fields_pod_level_contention x))"

definition contention_high_watermarks_DeepCopyInto :: "('q, 'm, 'l) copy_lib \<Rightarrow> ('q, 'm, 'l,
    g_contention_high_watermarks) copying" where
  "contention_high_watermarks_DeepCopyInto lib h x =
     (let (h1, y1) = copy_nullable (copy_cell (Struct \<circ> CPodLevelContention) as_PodLevelContention
         (pod_level_contention_DeepCopyInto lib)) h (gchw_PodLevel x);
          (h2, y2) = copy_nullable (copy_slice (Field \<circ> CContainerLevelContentions)
              as_ContainerLevelContentions (container_level_contention_DeepCopyInto lib)) h1
              (gchw_ContainerLevel x)
      in (h2, x\<lparr>gchw_PodLevel := y1, gchw_ContainerLevel := y2\<rparr>))"

definition fields_contention_high_watermarks :: "g_contention_high_watermarks \<Rightarrow> _" where
  "fields_contention_high_watermarks x = (gchw_PodLevel x, gchw_ContainerLevel x)"

definition refs_contention_high_watermarks :: "('q, 'm, 'l) heap \<Rightarrow> g_contention_high_watermarks \<Rightarrow> nat
    set" where
  "refs_contention_high_watermarks h x = refs_pair (refs_nullable (refs_cell as_PodLevelContention
      refs_pod_level_contention)) (refs_nullable (refs_slice as_ContainerLevelContentions
      refs_container_level_contention)) h (fields_contention_high_watermarks x)"

definition view_contention_high_watermarks :: "('q, 'm, 'l) heap \<Rightarrow> g_contention_high_watermarks \<Rightarrow>
    contention_high_watermarks option" where
  "view_contention_high_watermarks h x =
     map_option (\<lambda>(p, c). \<lparr>chw_PodLevel = p, chw_ContainerLevel = list_of c\<rparr>)
       (view_pair (view_nullable (view_cell as_PodLevelContention view_pod_level_contention))
           (view_nullable (view_slice as_ContainerLevelContentions view_container_level_contention)) h
           (fields_contention_high_watermarks x))"

definition observed_peak_DeepCopyInto :: "('q, 'm, 'l, g_observed_peak) copying" where
  "observed_peak_DeepCopyInto h x =
     (let (h1, y1) = copy_nullable (copy_cell (Struct \<circ> CObservedPeakPodLevel) as_ObservedPeakPodLevel
         (copy_plain (\<lambda>x. x))) h (gop_PodLevel x);
          (h2, y2) = copy_nullable (copy_slice (Field \<circ> CObservedPeakContainers)
              as_ObservedPeakContainers (copy_plain (\<lambda>x. x))) h1 (gop_Containers x)
      in (h2, x\<lparr>gop_PodLevel := y1, gop_Containers := y2\<rparr>))"

definition fields_observed_peak :: "g_observed_peak \<Rightarrow> _" where
  "fields_observed_peak x = (gop_PodLevel x, gop_Containers x)"

definition refs_observed_peak :: "('q, 'm, 'l) heap \<Rightarrow> g_observed_peak \<Rightarrow> nat set" where
  "refs_observed_peak h x = refs_pair (refs_nullable (refs_cell as_ObservedPeakPodLevel refs_plain))
      (refs_nullable (refs_slice as_ObservedPeakContainers refs_plain)) h (fields_observed_peak x)"

definition view_observed_peak :: "('q, 'm, 'l) heap \<Rightarrow> g_observed_peak \<Rightarrow> observed_peak option" where
  "view_observed_peak h x =
     map_option (\<lambda>(p, c). \<lparr>op_PodLevel = p, op_Containers = list_of c\<rparr>)
       (view_pair (view_nullable (view_cell as_ObservedPeakPodLevel view_plain)) (view_nullable
           (view_slice as_ObservedPeakContainers view_plain)) h (fields_observed_peak x))"

definition infeasible_behavior_DeepCopyInto :: "('q, 'm, 'l, g_infeasible_behavior) copying" where
  "infeasible_behavior_DeepCopyInto h x =
     (let (h1, y1) = copy_nullable (copy_cell (Field \<circ> CIntOrString) as_IntOrString (copy_plain (\<lambda>x.
         x))) h (gib_MaxSurge x);
          (h2, y2) = copy_nullable (copy_cell (Field \<circ> CIntOrString) as_IntOrString (copy_plain (\<lambda>x.
              x))) h1 (gib_MaxUnavailable x)
      in (h2, x\<lparr>gib_MaxSurge := y1, gib_MaxUnavailable := y2\<rparr>))"

definition fields_infeasible_behavior :: "g_infeasible_behavior \<Rightarrow> _" where
  "fields_infeasible_behavior x = (gib_MaxSurge x, gib_MaxUnavailable x)"

definition refs_infeasible_behavior :: "('q, 'm, 'l) heap \<Rightarrow> g_infeasible_behavior \<Rightarrow> nat set" where
  "refs_infeasible_behavior h x = refs_pair (refs_nullable (refs_cell as_IntOrString refs_plain))
      (refs_nullable (refs_cell as_IntOrString refs_plain)) h (fields_infeasible_behavior x)"

definition view_infeasible_behavior :: "('q, 'm, 'l) heap \<Rightarrow> g_infeasible_behavior \<Rightarrow> infeasible_behavior
    option" where
  "view_infeasible_behavior h x =
     map_option (\<lambda>(s, u). \<lparr>MaxSurge = s, MaxUnavailable = u\<rparr>)
       (view_pair (view_nullable (view_cell as_IntOrString view_plain)) (view_nullable (view_cell
           as_IntOrString view_plain)) h (fields_infeasible_behavior x))"

definition update_policy_DeepCopyInto :: "('q, 'm, 'l, g_update_policy) copying" where
  "update_policy_DeepCopyInto h x =
     (let (h1, y1) = infeasible_behavior_DeepCopyInto h (gup_InfeasibleUpdateBehavior x)
      in (h1, x\<lparr>gup_InfeasibleUpdateBehavior := y1\<rparr>))"

definition fields_update_policy :: "g_update_policy \<Rightarrow> _" where
  "fields_update_policy x = ((gup_UpdateMode x, gup_AnomalyEvictionTimeoutSeconds x,
      gup_SignificantChangeThresholdPercentage x, gup_BurstTimeoutSeconds x),
      gup_InfeasibleUpdateBehavior x)"

definition refs_update_policy :: "('q, 'm, 'l) heap \<Rightarrow> g_update_policy \<Rightarrow> nat set" where
  "refs_update_policy h x = refs_pair refs_plain refs_infeasible_behavior h (fields_update_policy x)"

definition view_update_policy :: "('q, 'm, 'l) heap \<Rightarrow> g_update_policy \<Rightarrow> update_policy option" where
  "view_update_policy h x =
     map_option (\<lambda>((m, a, s, b), i). \<lparr>UpdateMode = m, AnomalyEvictionTimeoutSeconds = a,
         SignificantChangeThresholdPercentage = s, InfeasibleUpdateBehavior = i, BurstTimeoutSeconds =
         b\<rparr>)
       (view_pair view_plain view_infeasible_behavior h (fields_update_policy x))"

definition pod_level_policy_DeepCopyInto :: "('q, 'm, 'l) copy_lib \<Rightarrow> ('q, 'm, 'l, g_pod_level_policy)
    copying" where
  "pod_level_policy_DeepCopyInto lib h x =
     (let (h1, y1) = quantity_copy lib h (gplp_MinAllowed x);
          (h2, y2) = quantity_copy lib h1 (gplp_MaxAllowed x)
      in (h2, x\<lparr>gplp_MinAllowed := y1, gplp_MaxAllowed := y2\<rparr>))"

definition fields_pod_level_policy :: "g_pod_level_policy \<Rightarrow> _" where
  "fields_pod_level_policy x = (gplp_ResourceName x, gplp_MinAllowed x, gplp_MaxAllowed x)"

definition refs_pod_level_policy :: "('q, 'm, 'l) heap \<Rightarrow> g_pod_level_policy \<Rightarrow> nat set" where
  "refs_pod_level_policy h x = refs_pair refs_plain (refs_pair refs_quantity refs_quantity) h
      (fields_pod_level_policy x)"

definition view_pod_level_policy :: "('q, 'm, 'l) heap \<Rightarrow> g_pod_level_policy \<Rightarrow> 'q pod_level_policy
    option" where
  "view_pod_level_policy h x =
     map_option (\<lambda>(n, a, b). \<lparr>plp_ResourceName = n, plp_MinAllowed = a, plp_MaxAllowed = b\<rparr>)
       (view_pair view_plain (view_pair view_quantity view_quantity) h (fields_pod_level_policy x))"

definition container_policy_DeepCopyInto :: "('q, 'm, 'l) copy_lib \<Rightarrow> ('q, 'm, 'l, g_container_policy)
    copying" where
  "container_policy_DeepCopyInto lib h x =
     (let (h1, y1) = resources_copy lib h (gcp_MinAllowed x);
          (h2, y2) = resources_copy lib h1 (gcp_MaxAllowed x)
      in (h2, x\<lparr>gcp_MinAllowed := y1, gcp_MaxAllowed := y2\<rparr>))"

definition fields_container_policy :: "g_container_policy \<Rightarrow> _" where
  "fields_container_policy x = (gcp_ContainerName x, gcp_MinAllowed x, gcp_MaxAllowed x)"

definition refs_container_policy :: "('q, 'm, 'l) heap \<Rightarrow> g_container_policy \<Rightarrow> nat set" where
  "refs_container_policy h x = refs_pair refs_plain (refs_pair refs_resources refs_resources) h
      (fields_container_policy x)"

definition view_container_policy :: "('q, 'm, 'l) heap \<Rightarrow> g_container_policy \<Rightarrow> 'q container_policy
    option" where
  "view_container_policy h x =
     map_option (\<lambda>(n, a, b). \<lparr>cp_ContainerName = n, cp_MinAllowed = res_of a, cp_MaxAllowed = res_of b\<rparr>)
       (view_pair view_plain (view_pair view_resources view_resources) h (fields_container_policy x))"

definition resource_policy_DeepCopyInto :: "('q, 'm, 'l) copy_lib \<Rightarrow> ('q, 'm, 'l, g_resource_policy)
    copying" where
  "resource_policy_DeepCopyInto lib h x =
     (let (h1, y1) = copy_nullable (copy_slice (Field \<circ> CPodLevelPolicies) as_PodLevelPolicies
         (pod_level_policy_DeepCopyInto lib)) h (grp_PodLevelPolicies x);
          (h2, y2) = copy_nullable (copy_slice (Field \<circ> CContainerPolicies) as_ContainerPolicies
              (container_policy_DeepCopyInto lib)) h1 (grp_ContainerPolicies x)
      in (h2, x\<lparr>grp_PodLevelPolicies := y1, grp_ContainerPolicies := y2\<rparr>))"

definition fields_resource_policy :: "g_resource_policy \<Rightarrow> _" where
  "fields_resource_policy x = (grp_PodLevelPolicies x, grp_ContainerPolicies x)"

definition refs_resource_policy :: "('q, 'm, 'l) heap \<Rightarrow> g_resource_policy \<Rightarrow> nat set" where
  "refs_resource_policy h x = refs_pair (refs_nullable (refs_slice as_PodLevelPolicies
      refs_pod_level_policy)) (refs_nullable (refs_slice as_ContainerPolicies refs_container_policy)) h
      (fields_resource_policy x)"

definition view_resource_policy :: "('q, 'm, 'l) heap \<Rightarrow> g_resource_policy \<Rightarrow> 'q resource_policy option"
    where
  "view_resource_policy h x =
     map_option (\<lambda>(p, c). \<lparr>PodLevelPolicies = list_of p, ContainerPolicies = list_of c\<rparr>)
       (view_pair (view_nullable (view_slice as_PodLevelPolicies view_pod_level_policy)) (view_nullable
           (view_slice as_ContainerPolicies view_container_policy)) h (fields_resource_policy x))"

definition container_recommendation_DeepCopyInto :: "('q, 'm, 'l) copy_lib \<Rightarrow> ('q, 'm, 'l,
    g_container_recommendation) copying" where
  "container_recommendation_DeepCopyInto lib h x =
     (let (h1, y1) = resources_copy lib h (gcr_LowerBound x);
          (h2, y2) = resources_copy lib h1 (gcr_Target x);
          (h3, y3) = resources_copy lib h2 (gcr_UncappedTarget x);
          (h4, y4) = resources_copy lib h3 (gcr_UpperBound x)
      in (h4, x\<lparr>gcr_LowerBound := y1, gcr_Target := y2, gcr_UncappedTarget := y3, gcr_UpperBound :=
          y4\<rparr>))"

definition fields_container_recommendation :: "g_container_recommendation \<Rightarrow> _" where
  "fields_container_recommendation x = (gcr_ContainerName x, gcr_LowerBound x, gcr_Target x,
      gcr_UncappedTarget x, gcr_UpperBound x)"

definition refs_container_recommendation :: "('q, 'm, 'l) heap \<Rightarrow> g_container_recommendation \<Rightarrow> nat set"
    where
  "refs_container_recommendation h x = refs_pair refs_plain (refs_pair refs_resources (refs_pair
      refs_resources (refs_pair refs_resources refs_resources))) h (fields_container_recommendation x)"

definition view_container_recommendation :: "('q, 'm, 'l) heap \<Rightarrow> g_container_recommendation \<Rightarrow> 'q
    container_recommendation option" where
  "view_container_recommendation h x =
     map_option (\<lambda>(n, l, t, u, b). \<lparr>cr_ContainerName = n, cr_LowerBound = res_of l, cr_Target = res_of
         t, cr_UncappedTarget = res_of u, cr_UpperBound = res_of b\<rparr>)
       (view_pair view_plain (view_pair view_resources (view_pair view_resources (view_pair
           view_resources view_resources))) h (fields_container_recommendation x))"

definition pod_level_recommendation_DeepCopyInto :: "('q, 'm, 'l) copy_lib \<Rightarrow> ('q, 'm, 'l,
    g_pod_level_recommendation) copying" where
  "pod_level_recommendation_DeepCopyInto lib h x =
     (let (h1, y1) = resources_copy lib h (gpl_LowerBound x);
          (h2, y2) = resources_copy lib h1 (gpl_Target x);
          (h3, y3) = resources_copy lib h2 (gpl_UncappedTarget x);
          (h4, y4) = resources_copy lib h3 (gpl_UpperBound x)
      in (h4, x\<lparr>gpl_LowerBound := y1, gpl_Target := y2, gpl_UncappedTarget := y3, gpl_UpperBound :=
          y4\<rparr>))"

definition fields_pod_level_recommendation :: "g_pod_level_recommendation \<Rightarrow> _" where
  "fields_pod_level_recommendation x = (gpl_LowerBound x, gpl_Target x, gpl_UncappedTarget x,
      gpl_UpperBound x)"

definition refs_pod_level_recommendation :: "('q, 'm, 'l) heap \<Rightarrow> g_pod_level_recommendation \<Rightarrow> nat set"
    where
  "refs_pod_level_recommendation h x = refs_pair refs_resources (refs_pair refs_resources (refs_pair
      refs_resources refs_resources)) h (fields_pod_level_recommendation x)"

definition view_pod_level_recommendation :: "('q, 'm, 'l) heap \<Rightarrow> g_pod_level_recommendation \<Rightarrow> 'q
    pod_level_recommendation option" where
  "view_pod_level_recommendation h x =
     map_option (\<lambda>(l, t, u, b). \<lparr>pl_LowerBound = res_of l, pl_Target = res_of t, pl_UncappedTarget =
         res_of u, pl_UpperBound = res_of b\<rparr>)
       (view_pair view_resources (view_pair view_resources (view_pair view_resources view_resources)) h
           (fields_pod_level_recommendation x))"

definition recommendation_DeepCopyInto :: "('q, 'm, 'l) copy_lib \<Rightarrow> ('q, 'm, 'l, g_recommendation)
    copying" where
  "recommendation_DeepCopyInto lib h x =
     (let (h1, y1) = resources_copy lib h (grec_PodLevelTarget x);
          (h2, y2) = pod_level_recommendation_DeepCopyInto lib h1 (grec_PodLevel x);
          (h3, y3) = copy_nullable (copy_slice (Field \<circ> CContainerRecommendations)
              as_ContainerRecommendations (container_recommendation_DeepCopyInto lib)) h2
              (grec_ContainerRecommendations x)
      in (h3, x\<lparr>grec_PodLevelTarget := y1, grec_PodLevel := y2, grec_ContainerRecommendations := y3\<rparr>))"

definition fields_recommendation :: "g_recommendation \<Rightarrow> _" where
  "fields_recommendation x = (grec_PodLevelTarget x, grec_PodLevel x, grec_ContainerRecommendations x)"

definition refs_recommendation :: "('q, 'm, 'l) heap \<Rightarrow> g_recommendation \<Rightarrow> nat set" where
  "refs_recommendation h x = refs_pair refs_resources (refs_pair refs_pod_level_recommendation
      (refs_nullable (refs_slice as_ContainerRecommendations refs_container_recommendation))) h
      (fields_recommendation x)"

definition view_recommendation :: "('q, 'm, 'l) heap \<Rightarrow> g_recommendation \<Rightarrow> 'q recommendation option"
    where
  "view_recommendation h x =
     map_option (\<lambda>(t, p, c). \<lparr>rec_PodLevelTarget = res_of t, rec_PodLevel = p,
         rec_ContainerRecommendations = list_of c\<rparr>)
       (view_pair view_resources (view_pair view_pod_level_recommendation (view_nullable (view_slice
           as_ContainerRecommendations view_container_recommendation))) h (fields_recommendation x))"

definition ppvpa_spec_DeepCopyInto :: "('q, 'm, 'l) copy_lib \<Rightarrow> ('q, 'm, 'l, g_ppvpa_spec) copying" where
  "ppvpa_spec_DeepCopyInto lib h x =
     (let (h1, y1) = copy_nullable (copy_cell (Field \<circ> CInt32) as_Int32 (copy_plain (\<lambda>x. x))) h
         (gvs_TargetReplicas x);
          (h2, y2) = update_policy_DeepCopyInto h1 (gvs_UpdatePolicy x);
          (h3, y3) = resource_policy_DeepCopyInto lib h2 (gvs_ResourcePolicy x)
      in (h3, x\<lparr>gvs_TargetReplicas := y1, gvs_UpdatePolicy := y2, gvs_ResourcePolicy := y3\<rparr>))"

definition fields_ppvpa_spec :: "g_ppvpa_spec \<Rightarrow> _" where
  "fields_ppvpa_spec x = ((gvs_TargetRef x, gvs_RecommenderPolicy x, gvs_ScalingThresholds x),
      gvs_TargetReplicas x, gvs_UpdatePolicy x, gvs_ResourcePolicy x)"

definition refs_ppvpa_spec :: "('q, 'm, 'l) heap \<Rightarrow> g_ppvpa_spec \<Rightarrow> nat set" where
  "refs_ppvpa_spec h x = refs_pair refs_plain (refs_pair (refs_nullable (refs_cell as_Int32 refs_plain))
      (refs_pair refs_update_policy refs_resource_policy)) h (fields_ppvpa_spec x)"

definition view_ppvpa_spec :: "('q, 'm, 'l) heap \<Rightarrow> g_ppvpa_spec \<Rightarrow> 'q ppvpa_spec option" where
  "view_ppvpa_spec h x =
     map_option (\<lambda>((t, p, s), n, u, r). \<lparr>TargetRef = t, TargetReplicas = n, UpdatePolicy = u,
         ResourcePolicy = r, RecommenderPolicy = p, ScalingThresholds = s\<rparr>)
       (view_pair view_plain (view_pair (view_nullable (view_cell as_Int32 view_plain)) (view_pair
           view_update_policy view_resource_policy)) h (fields_ppvpa_spec x))"

definition ppvpa_status_DeepCopyInto :: "('q, 'm, 'l) copy_lib \<Rightarrow> ('q, 'm, 'l, g_ppvpa_status) copying"
    where
  "ppvpa_status_DeepCopyInto lib h x =
     (let (h1, y1) = copy_nullable (copy_cell (Struct \<circ> CRecommendation) as_Recommendation
         (recommendation_DeepCopyInto lib)) h (gvt_DefaultRecommendation x);
          (h2, y2) = conditions_copy lib h1 (gvt_Conditions x)
      in (h2, x\<lparr>gvt_DefaultRecommendation := y1, gvt_Conditions := y2\<rparr>))"

definition fields_ppvpa_status :: "g_ppvpa_status \<Rightarrow> _" where
  "fields_ppvpa_status x = ((gvt_ActiveReplicas x, gvt_TemporaryReplicas x), gvt_DefaultRecommendation
      x, gvt_Conditions x)"

definition refs_ppvpa_status :: "('q, 'm, 'l) heap \<Rightarrow> g_ppvpa_status \<Rightarrow> nat set" where
  "refs_ppvpa_status h x = refs_pair refs_plain (refs_pair (refs_nullable (refs_cell as_Recommendation
      refs_recommendation)) refs_conditions) h (fields_ppvpa_status x)"

definition view_ppvpa_status :: "('q, 'm, 'l) heap \<Rightarrow> g_ppvpa_status \<Rightarrow> 'q ppvpa_status option" where
  "view_ppvpa_status h x =
     map_option (\<lambda>((a, t), d, c). \<lparr>DefaultRecommendation = d, ActiveReplicas = a, TemporaryReplicas = t,
         ppvpa_Conditions = list_of c\<rparr>)
       (view_pair view_plain (view_pair (view_nullable (view_cell as_Recommendation
           view_recommendation)) view_conditions) h (fields_ppvpa_status x))"

definition ppvpa_DeepCopyInto :: "('q, 'm, 'l) copy_lib \<Rightarrow> ('q, 'm, 'l, 'm g_ppvpa) copying" where
  "ppvpa_DeepCopyInto lib h x =
     (let (h1, y1) = lib_ObjectMeta lib h (gv_ObjectMeta x);
          (h2, y2) = ppvpa_spec_DeepCopyInto lib h1 (gv_Spec x);
          (h3, y3) = ppvpa_status_DeepCopyInto lib h2 (gv_Status x)
      in (h3, x\<lparr>gv_ObjectMeta := y1, gv_Spec := y2, gv_Status := y3\<rparr>))"

definition fields_ppvpa :: "'m g_ppvpa \<Rightarrow> _" where
  "fields_ppvpa x = (gv_TypeMeta x, gv_ObjectMeta x, gv_Spec x, gv_Status x)"

definition refs_ppvpa :: "(('q, 'm, 'l) heap \<Rightarrow> 'm \<Rightarrow> nat set) \<Rightarrow> ('q, 'm, 'l) heap \<Rightarrow> 'm g_ppvpa \<Rightarrow> nat set"
    where
  "refs_ppvpa mr h x = refs_pair refs_plain (refs_pair mr (refs_pair refs_ppvpa_spec refs_ppvpa_status))
      h (fields_ppvpa x)"

definition view_ppvpa :: "(('q, 'm, 'l) heap \<Rightarrow> 'm \<Rightarrow> object_meta option) \<Rightarrow> ('q, 'm, 'l) heap \<Rightarrow> 'm g_ppvpa
    \<Rightarrow> (type_meta \<times> 'q ppvpa) option" where
  "view_ppvpa mv h x =
     map_option (\<lambda>(y, m, s, t). (y, \<lparr>ppvpa_meta = m, ppvpa_Spec = s, ppvpa_Status = t\<rparr>))
       (view_pair view_plain (view_pair mv (view_pair view_ppvpa_spec view_ppvpa_status)) h
           (fields_ppvpa x))"

definition prr_status_DeepCopyInto :: "('q, 'm, 'l) copy_lib \<Rightarrow> ('q, 'm, 'l, g_prr_status) copying" where
  "prr_status_DeepCopyInto lib h x =
     (let (h1, y1) = copy_nullable (copy_cell (Struct \<circ> CContentionHighWatermarks)
         as_ContentionHighWatermarks (contention_high_watermarks_DeepCopyInto lib)) h
         (gpt_ContentionHighWatermarks x);
          (h2, y2) = copy_nullable (copy_cell (Struct \<circ> CObservedPeak) as_ObservedPeak
              observed_peak_DeepCopyInto) h1 (gpt_ObservedPeak x);
          (h3, y3) = resources_copy lib h2 (gpt_PodLevelTarget x);
          (h4, y4) = copy_nullable (copy_slice (Field \<circ> CContainerRecommendations)
              as_ContainerRecommendations (container_recommendation_DeepCopyInto lib)) h3
              (gpt_ContainerRecommendations x);
          (h5, y5) = conditions_copy lib h4 (gpt_Conditions x)
      in (h5, x\<lparr>gpt_ContentionHighWatermarks := y1, gpt_ObservedPeak := y2, gpt_PodLevelTarget := y3,
          gpt_ContainerRecommendations := y4, gpt_Conditions := y5\<rparr>))"

definition fields_prr_status :: "g_prr_status \<Rightarrow> _" where
  "fields_prr_status x = (gpt_HistogramCheckpoint x, gpt_ContentionHighWatermarks x, gpt_ObservedPeak x,
      gpt_PodLevelTarget x, gpt_ContainerRecommendations x, gpt_Conditions x)"

definition refs_prr_status :: "('q, 'm, 'l) heap \<Rightarrow> g_prr_status \<Rightarrow> nat set" where
  "refs_prr_status h x = refs_pair refs_plain (refs_pair (refs_nullable (refs_cell
      as_ContentionHighWatermarks refs_contention_high_watermarks)) (refs_pair (refs_nullable (refs_cell
      as_ObservedPeak refs_observed_peak)) (refs_pair refs_resources (refs_pair (refs_nullable
      (refs_slice as_ContainerRecommendations refs_container_recommendation)) refs_conditions)))) h
      (fields_prr_status x)"

definition view_prr_status :: "('q, 'm, 'l) heap \<Rightarrow> g_prr_status \<Rightarrow> 'q prr_status option" where
  "view_prr_status h x =
     map_option (\<lambda>(k, w, p, t, c, d). \<lparr>ContentionHighWatermarks = w, ObservedPeak = p,
         prr_PodLevelTarget = res_of t, ContainerRecommendations = list_of c, HistogramCheckpoint = k,
         prr_Conditions = list_of d\<rparr>)
       (view_pair view_plain (view_pair (view_nullable (view_cell as_ContentionHighWatermarks
           view_contention_high_watermarks)) (view_pair (view_nullable (view_cell as_ObservedPeak
           view_observed_peak)) (view_pair view_resources (view_pair (view_nullable (view_slice
           as_ContainerRecommendations view_container_recommendation)) view_conditions)))) h
           (fields_prr_status x))"

definition prr_DeepCopyInto :: "('q, 'm, 'l) copy_lib \<Rightarrow> ('q, 'm, 'l, 'm g_prr) copying" where
  "prr_DeepCopyInto lib h x =
     (let (h1, y1) = lib_ObjectMeta lib h (gp_ObjectMeta x);
          (h2, y2) = prr_status_DeepCopyInto lib h1 (gp_Status x)
      in (h2, x\<lparr>gp_ObjectMeta := y1, gp_Status := y2\<rparr>))"

definition fields_prr :: "'m g_prr \<Rightarrow> _" where
  "fields_prr x = ((gp_TypeMeta x, gp_Spec x), gp_ObjectMeta x, gp_Status x)"

definition refs_prr :: "(('q, 'm, 'l) heap \<Rightarrow> 'm \<Rightarrow> nat set) \<Rightarrow> ('q, 'm, 'l) heap \<Rightarrow> 'm g_prr \<Rightarrow> nat set"
    where
  "refs_prr mr h x = refs_pair refs_plain (refs_pair mr refs_prr_status) h (fields_prr x)"

definition view_prr :: "(('q, 'm, 'l) heap \<Rightarrow> 'm \<Rightarrow> object_meta option) \<Rightarrow> ('q, 'm, 'l) heap \<Rightarrow> 'm g_prr \<Rightarrow>
    (type_meta \<times> 'q prr) option" where
  "view_prr mv h x =
     map_option (\<lambda>((y, s), m, t). (y, \<lparr>prr_meta = m, TargetPodName = spec_TargetPodName s, prr_Status =
         t\<rparr>))
       (view_pair view_plain (view_pair mv view_prr_status) h (fields_prr x))"

definition checkpoint_status_DeepCopyInto :: "('q, 'm, 'l) copy_lib \<Rightarrow> ('q, 'm, 'l, g_checkpoint_status)
    copying" where
  "checkpoint_status_DeepCopyInto lib h x =
     (let (h1, y1) = time_copy lib h (gct_LastUpdateTime x);
          (h2, y2) = conditions_copy lib h1 (gct_Conditions x)
      in (h2, x\<lparr>gct_LastUpdateTime := y1, gct_Conditions := y2\<rparr>))"

definition fields_checkpoint_status :: "g_checkpoint_status \<Rightarrow> _" where
  "fields_checkpoint_status x = (gct_AggregateHistogramCheckpoint x, gct_LastUpdateTime x,
      gct_Conditions x)"

definition refs_checkpoint_status :: "('q, 'm, 'l) heap \<Rightarrow> g_checkpoint_status \<Rightarrow> nat set" where
  "refs_checkpoint_status h x = refs_pair refs_plain (refs_pair refs_time refs_conditions) h
      (fields_checkpoint_status x)"

definition view_checkpoint_status :: "('q, 'm, 'l) heap \<Rightarrow> g_checkpoint_status \<Rightarrow> ppvpa_checkpoint_status
    option" where
  "view_checkpoint_status h x =
     map_option (\<lambda>(a, t, c). \<lparr>AggregateHistogramCheckpoint = a, LastUpdateTime = t, cp_Conditions =
         list_of c\<rparr>)
       (view_pair view_plain (view_pair view_time view_conditions) h (fields_checkpoint_status x))"

definition checkpoint_DeepCopyInto :: "('q, 'm, 'l) copy_lib \<Rightarrow> ('q, 'm, 'l, 'm g_checkpoint) copying"
    where
  "checkpoint_DeepCopyInto lib h x =
     (let (h1, y1) = lib_ObjectMeta lib h (gc_ObjectMeta x);
          (h2, y2) = checkpoint_status_DeepCopyInto lib h1 (gc_Status x)
      in (h2, x\<lparr>gc_ObjectMeta := y1, gc_Status := y2\<rparr>))"

definition fields_checkpoint :: "'m g_checkpoint \<Rightarrow> _" where
  "fields_checkpoint x = ((gc_TypeMeta x, gc_Spec x), gc_ObjectMeta x, gc_Status x)"

definition refs_checkpoint :: "(('q, 'm, 'l) heap \<Rightarrow> 'm \<Rightarrow> nat set) \<Rightarrow> ('q, 'm, 'l) heap \<Rightarrow> 'm g_checkpoint
    \<Rightarrow> nat set" where
  "refs_checkpoint mr h x = refs_pair refs_plain (refs_pair mr refs_checkpoint_status) h
      (fields_checkpoint x)"

definition view_checkpoint :: "(('q, 'm, 'l) heap \<Rightarrow> 'm \<Rightarrow> object_meta option) \<Rightarrow> ('q, 'm, 'l) heap \<Rightarrow> 'm
    g_checkpoint \<Rightarrow> (type_meta \<times> ppvpa_checkpoint) option" where
  "view_checkpoint mv h x =
     map_option (\<lambda>((y, s), m, t). (y, \<lparr>checkpoint_meta = m, PPVPARef = spec_PPVPARef s,
         checkpoint_Status = t\<rparr>))
       (view_pair view_plain (view_pair mv view_checkpoint_status) h (fields_checkpoint x))"

definition ppvpa_list_DeepCopyInto :: "('q, 'm, 'l) copy_lib \<Rightarrow> ('q, 'm, 'l, 'l g_ppvpa_list) copying"
    where
  "ppvpa_list_DeepCopyInto lib h x =
     (let (h1, y1) = lib_ListMeta lib h (gvl_ListMeta x);
          (h2, y2) = copy_nullable (copy_slice (Object \<circ> CPPVPAs) as_PPVPAs (ppvpa_DeepCopyInto lib)) h1
              (gvl_Items x)
      in (h2, x\<lparr>gvl_ListMeta := y1, gvl_Items := y2\<rparr>))"

definition fields_ppvpa_list :: "'l g_ppvpa_list \<Rightarrow> _" where
  "fields_ppvpa_list x = (gvl_TypeMeta x, gvl_ListMeta x, gvl_Items x)"

definition refs_ppvpa_list :: "(('q, 'm, 'l) heap \<Rightarrow> 'm \<Rightarrow> nat set) \<Rightarrow> (('q, 'm, 'l) heap \<Rightarrow> 'l \<Rightarrow> nat set) \<Rightarrow>
    ('q, 'm, 'l) heap \<Rightarrow> 'l g_ppvpa_list \<Rightarrow> nat set" where
  "refs_ppvpa_list mr lr h x = refs_pair refs_plain (refs_pair lr (refs_nullable (refs_slice as_PPVPAs
      (refs_ppvpa mr)))) h (fields_ppvpa_list x)"

definition view_ppvpa_list :: "(('q, 'm, 'l) heap \<Rightarrow> 'm \<Rightarrow> object_meta option) \<Rightarrow> (('q, 'm, 'l) heap \<Rightarrow> 'l \<Rightarrow>
    'u option) \<Rightarrow> ('q, 'm, 'l) heap \<Rightarrow> 'l g_ppvpa_list \<Rightarrow> (type_meta \<times> 'u \<times> (type_meta \<times> 'q ppvpa) list)
    option" where
  "view_ppvpa_list mv lv h x =
     map_option (\<lambda>(y, m, i). (y, m, list_of i))
       (view_pair view_plain (view_pair lv (view_nullable (view_slice as_PPVPAs (view_ppvpa mv)))) h
           (fields_ppvpa_list x))"

definition prr_list_DeepCopyInto :: "('q, 'm, 'l) copy_lib \<Rightarrow> ('q, 'm, 'l, 'l g_prr_list) copying" where
  "prr_list_DeepCopyInto lib h x =
     (let (h1, y1) = lib_ListMeta lib h (gprl_ListMeta x);
          (h2, y2) = copy_nullable (copy_slice (Object \<circ> CPRRs) as_PRRs (prr_DeepCopyInto lib)) h1
              (gprl_Items x)
      in (h2, x\<lparr>gprl_ListMeta := y1, gprl_Items := y2\<rparr>))"

definition fields_prr_list :: "'l g_prr_list \<Rightarrow> _" where
  "fields_prr_list x = (gprl_TypeMeta x, gprl_ListMeta x, gprl_Items x)"

definition refs_prr_list :: "(('q, 'm, 'l) heap \<Rightarrow> 'm \<Rightarrow> nat set) \<Rightarrow> (('q, 'm, 'l) heap \<Rightarrow> 'l \<Rightarrow> nat set) \<Rightarrow>
    ('q, 'm, 'l) heap \<Rightarrow> 'l g_prr_list \<Rightarrow> nat set" where
  "refs_prr_list mr lr h x = refs_pair refs_plain (refs_pair lr (refs_nullable (refs_slice as_PRRs
      (refs_prr mr)))) h (fields_prr_list x)"

definition view_prr_list :: "(('q, 'm, 'l) heap \<Rightarrow> 'm \<Rightarrow> object_meta option) \<Rightarrow> (('q, 'm, 'l) heap \<Rightarrow> 'l \<Rightarrow>
    'u option) \<Rightarrow> ('q, 'm, 'l) heap \<Rightarrow> 'l g_prr_list \<Rightarrow> (type_meta \<times> 'u \<times> (type_meta \<times> 'q prr) list)
    option" where
  "view_prr_list mv lv h x =
     map_option (\<lambda>(y, m, i). (y, m, list_of i))
       (view_pair view_plain (view_pair lv (view_nullable (view_slice as_PRRs (view_prr mv)))) h
           (fields_prr_list x))"

definition checkpoint_list_DeepCopyInto :: "('q, 'm, 'l) copy_lib \<Rightarrow> ('q, 'm, 'l, 'l g_checkpoint_list)
    copying" where
  "checkpoint_list_DeepCopyInto lib h x =
     (let (h1, y1) = lib_ListMeta lib h (gcl_ListMeta x);
          (h2, y2) = copy_nullable (copy_slice (Object \<circ> CCheckpoints) as_Checkpoints
              (checkpoint_DeepCopyInto lib)) h1 (gcl_Items x)
      in (h2, x\<lparr>gcl_ListMeta := y1, gcl_Items := y2\<rparr>))"

definition fields_checkpoint_list :: "'l g_checkpoint_list \<Rightarrow> _" where
  "fields_checkpoint_list x = (gcl_TypeMeta x, gcl_ListMeta x, gcl_Items x)"

definition refs_checkpoint_list :: "(('q, 'm, 'l) heap \<Rightarrow> 'm \<Rightarrow> nat set) \<Rightarrow> (('q, 'm, 'l) heap \<Rightarrow> 'l \<Rightarrow> nat
    set) \<Rightarrow> ('q, 'm, 'l) heap \<Rightarrow> 'l g_checkpoint_list \<Rightarrow> nat set" where
  "refs_checkpoint_list mr lr h x = refs_pair refs_plain (refs_pair lr (refs_nullable (refs_slice
      as_Checkpoints (refs_checkpoint mr)))) h (fields_checkpoint_list x)"

definition view_checkpoint_list :: "(('q, 'm, 'l) heap \<Rightarrow> 'm \<Rightarrow> object_meta option) \<Rightarrow> (('q, 'm, 'l) heap \<Rightarrow>
    'l \<Rightarrow> 'u option) \<Rightarrow> ('q, 'm, 'l) heap \<Rightarrow> 'l g_checkpoint_list \<Rightarrow> (type_meta \<times> 'u \<times> (type_meta \<times>
    ppvpa_checkpoint) list) option" where
  "view_checkpoint_list mv lv h x =
     map_option (\<lambda>(y, m, i). (y, m, list_of i))
       (view_pair view_plain (view_pair lv (view_nullable (view_slice as_Checkpoints (view_checkpoint
           mv)))) h (fields_checkpoint_list x))"

section \<open>Copies of pointers\<close>

text \<open>
  \<open>DeepCopy\<close>: nil for nil, else a new cell that is filled by \<open>DeepCopyInto\<close>.
\<close>

definition cpu_thresholds_DeepCopy :: "('q, 'm, 'l, nat option) copying" where
  "cpu_thresholds_DeepCopy = copy_nullable (copy_cell (Struct \<circ> CCPUThresholds) as_CPUThresholds
      cpu_thresholds_DeepCopyInto)"

definition container_level_contention_DeepCopy :: "('q, 'm, 'l) copy_lib \<Rightarrow> ('q, 'm, 'l, nat option)
    copying" where
  "container_level_contention_DeepCopy lib = copy_nullable (copy_cell (Struct \<circ>
      CContainerLevelContention) as_ContainerLevelContention (container_level_contention_DeepCopyInto
      lib))"

definition container_policy_DeepCopy :: "('q, 'm, 'l) copy_lib \<Rightarrow> ('q, 'm, 'l, nat option) copying" where
  "container_policy_DeepCopy lib = copy_nullable (copy_cell (Struct \<circ> CContainerPolicy)
      as_ContainerPolicy (container_policy_DeepCopyInto lib))"

definition container_recommendation_DeepCopy :: "('q, 'm, 'l) copy_lib \<Rightarrow> ('q, 'm, 'l, nat option)
    copying" where
  "container_recommendation_DeepCopy lib = copy_nullable (copy_cell (Struct \<circ> CContainerRecommendation)
      as_ContainerRecommendation (container_recommendation_DeepCopyInto lib))"

definition contention_high_watermarks_DeepCopy :: "('q, 'm, 'l) copy_lib \<Rightarrow> ('q, 'm, 'l, nat option)
    copying" where
  "contention_high_watermarks_DeepCopy lib = copy_nullable (copy_cell (Struct \<circ>
      CContentionHighWatermarks) as_ContentionHighWatermarks (contention_high_watermarks_DeepCopyInto
      lib))"

definition infeasible_behavior_DeepCopy :: "('q, 'm, 'l, nat option) copying" where
  "infeasible_behavior_DeepCopy = copy_nullable (copy_cell (Struct \<circ> CInfeasibleBehavior)
      as_InfeasibleBehavior infeasible_behavior_DeepCopyInto)"

definition memory_thresholds_DeepCopy :: "('q, 'm, 'l, nat option) copying" where
  "memory_thresholds_DeepCopy = copy_nullable (copy_cell (Struct \<circ> CMemoryThresholds)
      as_MemoryThresholds memory_thresholds_DeepCopyInto)"

definition observed_peak_DeepCopy :: "('q, 'm, 'l, nat option) copying" where
  "observed_peak_DeepCopy = copy_nullable (copy_cell (Struct \<circ> CObservedPeak) as_ObservedPeak
      observed_peak_DeepCopyInto)"

definition observed_peak_container_DeepCopy :: "('q, 'm, 'l, nat option) copying" where
  "observed_peak_container_DeepCopy = copy_nullable (copy_cell (Struct \<circ> CObservedPeakContainer)
      as_ObservedPeakContainer observed_peak_container_DeepCopyInto)"

definition observed_peak_pod_level_DeepCopy :: "('q, 'm, 'l, nat option) copying" where
  "observed_peak_pod_level_DeepCopy = copy_nullable (copy_cell (Struct \<circ> CObservedPeakPodLevel)
      as_ObservedPeakPodLevel observed_peak_pod_level_DeepCopyInto)"

definition ppvpa_DeepCopy :: "('q, 'm, 'l) copy_lib \<Rightarrow> ('q, 'm, 'l, nat option) copying" where
  "ppvpa_DeepCopy lib = copy_nullable (copy_cell (Object \<circ> CPPVPA) as_PPVPA (ppvpa_DeepCopyInto lib))"

definition checkpoint_DeepCopy :: "('q, 'm, 'l) copy_lib \<Rightarrow> ('q, 'm, 'l, nat option) copying" where
  "checkpoint_DeepCopy lib = copy_nullable (copy_cell (Object \<circ> CCheckpoint) as_Checkpoint
      (checkpoint_DeepCopyInto lib))"

definition checkpoint_list_DeepCopy :: "('q, 'm, 'l) copy_lib \<Rightarrow> ('q, 'm, 'l, nat option) copying" where
  "checkpoint_list_DeepCopy lib = copy_nullable (copy_cell (Object \<circ> CPPVPACheckpointList)
      as_PPVPACheckpointList (checkpoint_list_DeepCopyInto lib))"

definition checkpoint_spec_DeepCopy :: "('q, 'm, 'l, nat option) copying" where
  "checkpoint_spec_DeepCopy = copy_nullable (copy_cell (Struct \<circ> CPPVPACheckpointSpec)
      as_PPVPACheckpointSpec checkpoint_spec_DeepCopyInto)"

definition checkpoint_status_DeepCopy :: "('q, 'm, 'l) copy_lib \<Rightarrow> ('q, 'm, 'l, nat option) copying"
    where
  "checkpoint_status_DeepCopy lib = copy_nullable (copy_cell (Struct \<circ> CPPVPACheckpointStatus)
      as_PPVPACheckpointStatus (checkpoint_status_DeepCopyInto lib))"

definition ppvpa_list_DeepCopy :: "('q, 'm, 'l) copy_lib \<Rightarrow> ('q, 'm, 'l, nat option) copying" where
  "ppvpa_list_DeepCopy lib = copy_nullable (copy_cell (Object \<circ> CPPVPAList) as_PPVPAList
      (ppvpa_list_DeepCopyInto lib))"

definition ppvpa_spec_DeepCopy :: "('q, 'm, 'l) copy_lib \<Rightarrow> ('q, 'm, 'l, nat option) copying" where
  "ppvpa_spec_DeepCopy lib = copy_nullable (copy_cell (Struct \<circ> CPPVPASpec) as_PPVPASpec
      (ppvpa_spec_DeepCopyInto lib))"

definition ppvpa_status_DeepCopy :: "('q, 'm, 'l) copy_lib \<Rightarrow> ('q, 'm, 'l, nat option) copying" where
  "ppvpa_status_DeepCopy lib = copy_nullable (copy_cell (Struct \<circ> CPPVPAStatus) as_PPVPAStatus
      (ppvpa_status_DeepCopyInto lib))"

definition pod_level_contention_DeepCopy :: "('q, 'm, 'l) copy_lib \<Rightarrow> ('q, 'm, 'l, nat option) copying"
    where
  "pod_level_contention_DeepCopy lib = copy_nullable (copy_cell (Struct \<circ> CPodLevelContention)
      as_PodLevelContention (pod_level_contention_DeepCopyInto lib))"

definition pod_level_policy_DeepCopy :: "('q, 'm, 'l) copy_lib \<Rightarrow> ('q, 'm, 'l, nat option) copying" where
  "pod_level_policy_DeepCopy lib = copy_nullable (copy_cell (Struct \<circ> CPodLevelPolicy) as_PodLevelPolicy
      (pod_level_policy_DeepCopyInto lib))"

definition pod_level_recommendation_DeepCopy :: "('q, 'm, 'l) copy_lib \<Rightarrow> ('q, 'm, 'l, nat option)
    copying" where
  "pod_level_recommendation_DeepCopy lib = copy_nullable (copy_cell (Struct \<circ> CPodLevelRecommendation)
      as_PodLevelRecommendation (pod_level_recommendation_DeepCopyInto lib))"

definition prr_DeepCopy :: "('q, 'm, 'l) copy_lib \<Rightarrow> ('q, 'm, 'l, nat option) copying" where
  "prr_DeepCopy lib = copy_nullable (copy_cell (Object \<circ> CPRR) as_PRR (prr_DeepCopyInto lib))"

definition prr_list_DeepCopy :: "('q, 'm, 'l) copy_lib \<Rightarrow> ('q, 'm, 'l, nat option) copying" where
  "prr_list_DeepCopy lib = copy_nullable (copy_cell (Object \<circ> CPRRList) as_PRRList
      (prr_list_DeepCopyInto lib))"

definition prr_spec_DeepCopy :: "('q, 'm, 'l, nat option) copying" where
  "prr_spec_DeepCopy = copy_nullable (copy_cell (Struct \<circ> CPRRSpec) as_PRRSpec prr_spec_DeepCopyInto)"

definition prr_status_DeepCopy :: "('q, 'm, 'l) copy_lib \<Rightarrow> ('q, 'm, 'l, nat option) copying" where
  "prr_status_DeepCopy lib = copy_nullable (copy_cell (Struct \<circ> CPRRStatus) as_PRRStatus
      (prr_status_DeepCopyInto lib))"

definition recommendation_DeepCopy :: "('q, 'm, 'l) copy_lib \<Rightarrow> ('q, 'm, 'l, nat option) copying" where
  "recommendation_DeepCopy lib = copy_nullable (copy_cell (Struct \<circ> CRecommendation) as_Recommendation
      (recommendation_DeepCopyInto lib))"

definition recommender_policy_DeepCopy :: "('q, 'm, 'l, nat option) copying" where
  "recommender_policy_DeepCopy = copy_nullable (copy_cell (Struct \<circ> CRecommenderPolicy)
      as_RecommenderPolicy recommender_policy_DeepCopyInto)"

definition resource_policy_DeepCopy :: "('q, 'm, 'l) copy_lib \<Rightarrow> ('q, 'm, 'l, nat option) copying" where
  "resource_policy_DeepCopy lib = copy_nullable (copy_cell (Struct \<circ> CResourcePolicy) as_ResourcePolicy
      (resource_policy_DeepCopyInto lib))"

definition scaling_thresholds_DeepCopy :: "('q, 'm, 'l, nat option) copying" where
  "scaling_thresholds_DeepCopy = copy_nullable (copy_cell (Struct \<circ> CScalingThresholds)
      as_ScalingThresholds scaling_thresholds_DeepCopyInto)"

definition update_policy_DeepCopy :: "('q, 'm, 'l, nat option) copying" where
  "update_policy_DeepCopy = copy_nullable (copy_cell (Struct \<circ> CUpdatePolicy) as_UpdatePolicy
      update_policy_DeepCopyInto)"

text \<open>
  \<open>DeepCopyObject\<close> wraps the pointer into the interface \<open>runtime.Object\<close>; the interface is nil
  when the pointer is, never an interface that holds a nil pointer.
\<close>

datatype runtime_object = PPVPAObject "nat option" | CheckpointObject "nat option" |
    CheckpointListObject "nat option" | PPVPAListObject "nat option" | PRRObject "nat option" |
    PRRListObject "nat option"

definition ppvpa_DeepCopyObject :: "('q, 'm, 'l) copy_lib \<Rightarrow> ('q, 'm, 'l) heap \<Rightarrow> nat option \<Rightarrow> ('q, 'm,
    'l) heap \<times> runtime_object option" where
  "ppvpa_DeepCopyObject lib h p =
     (let (h', c) = ppvpa_DeepCopy lib h p in if c \<noteq> None then (h', Some (PPVPAObject c)) else (h',
         None))"

definition checkpoint_DeepCopyObject :: "('q, 'm, 'l) copy_lib \<Rightarrow> ('q, 'm, 'l) heap \<Rightarrow> nat option \<Rightarrow> ('q,
    'm, 'l) heap \<times> runtime_object option" where
  "checkpoint_DeepCopyObject lib h p =
     (let (h', c) = checkpoint_DeepCopy lib h p in if c \<noteq> None then (h', Some (CheckpointObject c)) else
         (h', None))"

definition checkpoint_list_DeepCopyObject :: "('q, 'm, 'l) copy_lib \<Rightarrow> ('q, 'm, 'l) heap \<Rightarrow> nat option \<Rightarrow>
    ('q, 'm, 'l) heap \<times> runtime_object option" where
  "checkpoint_list_DeepCopyObject lib h p =
     (let (h', c) = checkpoint_list_DeepCopy lib h p in if c \<noteq> None then (h', Some (CheckpointListObject
         c)) else (h', None))"

definition ppvpa_list_DeepCopyObject :: "('q, 'm, 'l) copy_lib \<Rightarrow> ('q, 'm, 'l) heap \<Rightarrow> nat option \<Rightarrow> ('q,
    'm, 'l) heap \<times> runtime_object option" where
  "ppvpa_list_DeepCopyObject lib h p =
     (let (h', c) = ppvpa_list_DeepCopy lib h p in if c \<noteq> None then (h', Some (PPVPAListObject c)) else
         (h', None))"

definition prr_DeepCopyObject :: "('q, 'm, 'l) copy_lib \<Rightarrow> ('q, 'm, 'l) heap \<Rightarrow> nat option \<Rightarrow> ('q, 'm, 'l)
    heap \<times> runtime_object option" where
  "prr_DeepCopyObject lib h p =
     (let (h', c) = prr_DeepCopy lib h p in if c \<noteq> None then (h', Some (PRRObject c)) else (h', None))"

definition prr_list_DeepCopyObject :: "('q, 'm, 'l) copy_lib \<Rightarrow> ('q, 'm, 'l) heap \<Rightarrow> nat option \<Rightarrow> ('q, 'm,
    'l) heap \<times> runtime_object option" where
  "prr_list_DeepCopyObject lib h p =
     (let (h', c) = prr_list_DeepCopy lib h p in if c \<noteq> None then (h', Some (PRRListObject c)) else (h',
         None))"

section \<open>The contract\<close>

lemma map_option_id: "(\<And>x. f x = x) \<Longrightarrow> (\<lambda>k. map_option f (m k)) = m"
  by (rule ext, case_tac "m k") simp_all

lemma lib_copiers:
  assumes "copy_lib_ok lib mr mv lr lv"
  shows "copier (resources_copy lib) refs_resources view_resources"
    and "copier (quantity_copy lib) refs_quantity view_quantity"
    and "copier (time_copy lib) refs_time view_time"
    and "copier (conditions_copy lib) refs_conditions view_conditions"
    and "copier (lib_ObjectMeta lib) mr mv" and "copier (lib_ListMeta lib) lr lv"
  using assms unfolding copy_lib_ok_def resources_copy_def quantity_copy_def time_copy_def
      conditions_copy_def
  by (auto intro!: copier_nullable copier_cell copier_slice copier_plain simp: unboxing map_option_id)

lemmas copier_shapes = copier_nullable copier_cell copier_slice copier_plain copier_pair

lemma copier_container_level_contention:
  assumes "copy_lib_ok lib mr mv lr lv"
  shows "copier (container_level_contention_DeepCopyInto lib) (refs_container_level_contention)
      (view_container_level_contention)"
proof (rule copier_struct [where pack = "\<lambda>((p1, p2, p3), y1). \<lparr>gclc_ContainerName = p1, gclc_Memory =
    p2, gclc_CPU = p3, gclc_LastUpdated = y1\<rparr>" and unpack = fields_container_level_contention])
  show "copier (copy_pair (copy_plain (\<lambda>x. x)) (time_copy lib)) (refs_pair refs_plain refs_time)
      (view_pair view_plain view_time)"
    by (intro copier_shapes lib_copiers [OF assms]; simp add: unboxing)
qed (auto simp: container_level_contention_DeepCopyInto_def fields_container_level_contention_def
    refs_container_level_contention_def view_container_level_contention_def copy_pair_def copy_plain_def
    split: prod.split)

lemma copier_pod_level_contention:
  assumes "copy_lib_ok lib mr mv lr lv"
  shows "copier (pod_level_contention_DeepCopyInto lib) (refs_pod_level_contention)
      (view_pod_level_contention)"
proof (rule copier_struct [where pack = "\<lambda>((p1, p2), y1). \<lparr>gplc_Memory = p1, gplc_CPU = p2,
    gplc_LastUpdated = y1\<rparr>" and unpack = fields_pod_level_contention])
  show "copier (copy_pair (copy_plain (\<lambda>x. x)) (time_copy lib)) (refs_pair refs_plain refs_time)
      (view_pair view_plain view_time)"
    by (intro copier_shapes lib_copiers [OF assms]; simp add: unboxing)
qed (auto simp: pod_level_contention_DeepCopyInto_def fields_pod_level_contention_def
    refs_pod_level_contention_def view_pod_level_contention_def copy_pair_def copy_plain_def split:
    prod.split)

lemma copier_contention_high_watermarks:
  assumes "copy_lib_ok lib mr mv lr lv"
  shows "copier (contention_high_watermarks_DeepCopyInto lib) (refs_contention_high_watermarks)
      (view_contention_high_watermarks)"
proof (rule copier_struct [where pack = "\<lambda>(y1, y2). \<lparr>gchw_PodLevel = y1, gchw_ContainerLevel = y2\<rparr>" and
    unpack = fields_contention_high_watermarks])
  show "copier (copy_pair (copy_nullable (copy_cell (Struct \<circ> CPodLevelContention) as_PodLevelContention
      (pod_level_contention_DeepCopyInto lib))) (copy_nullable (copy_slice (Field \<circ>
      CContainerLevelContentions) as_ContainerLevelContentions (container_level_contention_DeepCopyInto
      lib)))) (refs_pair (refs_nullable (refs_cell as_PodLevelContention refs_pod_level_contention))
      (refs_nullable (refs_slice as_ContainerLevelContentions refs_container_level_contention)))
      (view_pair (view_nullable (view_cell as_PodLevelContention view_pod_level_contention))
          (view_nullable (view_slice as_ContainerLevelContentions view_container_level_contention)))"
    by (intro copier_shapes lib_copiers [OF assms] copier_pod_level_contention [OF assms]
        copier_container_level_contention [OF assms]; simp add: unboxing)
qed (auto simp: contention_high_watermarks_DeepCopyInto_def fields_contention_high_watermarks_def
    refs_contention_high_watermarks_def view_contention_high_watermarks_def copy_pair_def copy_plain_def
    split: prod.split)

lemma copier_observed_peak:
  "copier (observed_peak_DeepCopyInto) (refs_observed_peak) (view_observed_peak)"
proof (rule copier_struct [where pack = "\<lambda>(y1, y2). \<lparr>gop_PodLevel = y1, gop_Containers = y2\<rparr>" and unpack
    = fields_observed_peak])
  show "copier (copy_pair (copy_nullable (copy_cell (Struct \<circ> CObservedPeakPodLevel)
      as_ObservedPeakPodLevel (copy_plain (\<lambda>x. x)))) (copy_nullable (copy_slice (Field \<circ>
      CObservedPeakContainers) as_ObservedPeakContainers (copy_plain (\<lambda>x. x))))) (refs_pair
      (refs_nullable (refs_cell as_ObservedPeakPodLevel refs_plain)) (refs_nullable (refs_slice
      as_ObservedPeakContainers refs_plain)))
      (view_pair (view_nullable (view_cell as_ObservedPeakPodLevel view_plain)) (view_nullable
          (view_slice as_ObservedPeakContainers view_plain)))"
    by (intro copier_shapes ; simp add: unboxing)
qed (auto simp: observed_peak_DeepCopyInto_def fields_observed_peak_def refs_observed_peak_def
    view_observed_peak_def copy_pair_def copy_plain_def split: prod.split)

lemma copier_infeasible_behavior:
  "copier (infeasible_behavior_DeepCopyInto) (refs_infeasible_behavior) (view_infeasible_behavior)"
proof (rule copier_struct [where pack = "\<lambda>(y1, y2). \<lparr>gib_MaxSurge = y1, gib_MaxUnavailable = y2\<rparr>" and
    unpack = fields_infeasible_behavior])
  show "copier (copy_pair (copy_nullable (copy_cell (Field \<circ> CIntOrString) as_IntOrString (copy_plain
      (\<lambda>x. x)))) (copy_nullable (copy_cell (Field \<circ> CIntOrString) as_IntOrString (copy_plain (\<lambda>x. x)))))
      (refs_pair (refs_nullable (refs_cell as_IntOrString refs_plain)) (refs_nullable (refs_cell
      as_IntOrString refs_plain)))
      (view_pair (view_nullable (view_cell as_IntOrString view_plain)) (view_nullable (view_cell
          as_IntOrString view_plain)))"
    by (intro copier_shapes ; simp add: unboxing)
qed (auto simp: infeasible_behavior_DeepCopyInto_def fields_infeasible_behavior_def
    refs_infeasible_behavior_def view_infeasible_behavior_def copy_pair_def copy_plain_def split:
    prod.split)

lemma copier_update_policy:
  "copier (update_policy_DeepCopyInto) (refs_update_policy) (view_update_policy)"
proof (rule copier_struct [where pack = "\<lambda>((p1, p2, p3, p4), y1). \<lparr>gup_UpdateMode = p1,
    gup_AnomalyEvictionTimeoutSeconds = p2, gup_SignificantChangeThresholdPercentage = p3,
    gup_BurstTimeoutSeconds = p4, gup_InfeasibleUpdateBehavior = y1\<rparr>" and unpack =
    fields_update_policy])
  show "copier (copy_pair (copy_plain (\<lambda>x. x)) infeasible_behavior_DeepCopyInto) (refs_pair refs_plain
      refs_infeasible_behavior)
      (view_pair view_plain view_infeasible_behavior)"
    by (intro copier_shapes copier_infeasible_behavior; simp add: unboxing)
qed (auto simp: update_policy_DeepCopyInto_def fields_update_policy_def refs_update_policy_def
    view_update_policy_def copy_pair_def copy_plain_def split: prod.split)

lemma copier_pod_level_policy:
  assumes "copy_lib_ok lib mr mv lr lv"
  shows "copier (pod_level_policy_DeepCopyInto lib) (refs_pod_level_policy) (view_pod_level_policy)"
proof (rule copier_struct [where pack = "\<lambda>(p1, y1, y2). \<lparr>gplp_ResourceName = p1, gplp_MinAllowed = y1,
    gplp_MaxAllowed = y2\<rparr>" and unpack = fields_pod_level_policy])
  show "copier (copy_pair (copy_plain (\<lambda>x. x)) (copy_pair (quantity_copy lib) (quantity_copy lib)))
      (refs_pair refs_plain (refs_pair refs_quantity refs_quantity))
      (view_pair view_plain (view_pair view_quantity view_quantity))"
    by (intro copier_shapes lib_copiers [OF assms]; simp add: unboxing)
qed (auto simp: pod_level_policy_DeepCopyInto_def fields_pod_level_policy_def refs_pod_level_policy_def
    view_pod_level_policy_def copy_pair_def copy_plain_def split: prod.split)

lemma copier_container_policy:
  assumes "copy_lib_ok lib mr mv lr lv"
  shows "copier (container_policy_DeepCopyInto lib) (refs_container_policy) (view_container_policy)"
proof (rule copier_struct [where pack = "\<lambda>(p1, y1, y2). \<lparr>gcp_ContainerName = p1, gcp_MinAllowed = y1,
    gcp_MaxAllowed = y2\<rparr>" and unpack = fields_container_policy])
  show "copier (copy_pair (copy_plain (\<lambda>x. x)) (copy_pair (resources_copy lib) (resources_copy lib)))
      (refs_pair refs_plain (refs_pair refs_resources refs_resources))
      (view_pair view_plain (view_pair view_resources view_resources))"
    by (intro copier_shapes lib_copiers [OF assms]; simp add: unboxing)
qed (auto simp: container_policy_DeepCopyInto_def fields_container_policy_def refs_container_policy_def
    view_container_policy_def copy_pair_def copy_plain_def split: prod.split)

lemma copier_resource_policy:
  assumes "copy_lib_ok lib mr mv lr lv"
  shows "copier (resource_policy_DeepCopyInto lib) (refs_resource_policy) (view_resource_policy)"
proof (rule copier_struct [where pack = "\<lambda>(y1, y2). \<lparr>grp_PodLevelPolicies = y1, grp_ContainerPolicies =
    y2\<rparr>" and unpack = fields_resource_policy])
  show "copier (copy_pair (copy_nullable (copy_slice (Field \<circ> CPodLevelPolicies) as_PodLevelPolicies
      (pod_level_policy_DeepCopyInto lib))) (copy_nullable (copy_slice (Field \<circ> CContainerPolicies)
      as_ContainerPolicies (container_policy_DeepCopyInto lib)))) (refs_pair (refs_nullable (refs_slice
      as_PodLevelPolicies refs_pod_level_policy)) (refs_nullable (refs_slice as_ContainerPolicies
      refs_container_policy)))
      (view_pair (view_nullable (view_slice as_PodLevelPolicies view_pod_level_policy)) (view_nullable
          (view_slice as_ContainerPolicies view_container_policy)))"
    by (intro copier_shapes lib_copiers [OF assms] copier_pod_level_policy [OF assms]
        copier_container_policy [OF assms]; simp add: unboxing)
qed (auto simp: resource_policy_DeepCopyInto_def fields_resource_policy_def refs_resource_policy_def
    view_resource_policy_def copy_pair_def copy_plain_def split: prod.split)

lemma copier_container_recommendation:
  assumes "copy_lib_ok lib mr mv lr lv"
  shows "copier (container_recommendation_DeepCopyInto lib) (refs_container_recommendation)
      (view_container_recommendation)"
proof (rule copier_struct [where pack = "\<lambda>(p1, y1, y2, y3, y4). \<lparr>gcr_ContainerName = p1, gcr_LowerBound
    = y1, gcr_Target = y2, gcr_UncappedTarget = y3, gcr_UpperBound = y4\<rparr>" and unpack =
    fields_container_recommendation])
  show "copier (copy_pair (copy_plain (\<lambda>x. x)) (copy_pair (resources_copy lib) (copy_pair
      (resources_copy lib) (copy_pair (resources_copy lib) (resources_copy lib))))) (refs_pair
      refs_plain (refs_pair refs_resources (refs_pair refs_resources (refs_pair refs_resources
      refs_resources))))
      (view_pair view_plain (view_pair view_resources (view_pair view_resources (view_pair
          view_resources view_resources))))"
    by (intro copier_shapes lib_copiers [OF assms]; simp add: unboxing)
qed (auto simp: container_recommendation_DeepCopyInto_def fields_container_recommendation_def
    refs_container_recommendation_def view_container_recommendation_def copy_pair_def copy_plain_def
    split: prod.split)

lemma copier_pod_level_recommendation:
  assumes "copy_lib_ok lib mr mv lr lv"
  shows "copier (pod_level_recommendation_DeepCopyInto lib) (refs_pod_level_recommendation)
      (view_pod_level_recommendation)"
proof (rule copier_struct [where pack = "\<lambda>(y1, y2, y3, y4). \<lparr>gpl_LowerBound = y1, gpl_Target = y2,
    gpl_UncappedTarget = y3, gpl_UpperBound = y4\<rparr>" and unpack = fields_pod_level_recommendation])
  show "copier (copy_pair (resources_copy lib) (copy_pair (resources_copy lib) (copy_pair
      (resources_copy lib) (resources_copy lib)))) (refs_pair refs_resources (refs_pair refs_resources
      (refs_pair refs_resources refs_resources)))
      (view_pair view_resources (view_pair view_resources (view_pair view_resources view_resources)))"
    by (intro copier_shapes lib_copiers [OF assms]; simp add: unboxing)
qed (auto simp: pod_level_recommendation_DeepCopyInto_def fields_pod_level_recommendation_def
    refs_pod_level_recommendation_def view_pod_level_recommendation_def copy_pair_def copy_plain_def
    split: prod.split)

lemma copier_recommendation:
  assumes "copy_lib_ok lib mr mv lr lv"
  shows "copier (recommendation_DeepCopyInto lib) (refs_recommendation) (view_recommendation)"
proof (rule copier_struct [where pack = "\<lambda>(y1, y2, y3). \<lparr>grec_PodLevelTarget = y1, grec_PodLevel = y2,
    grec_ContainerRecommendations = y3\<rparr>" and unpack = fields_recommendation])
  show "copier (copy_pair (resources_copy lib) (copy_pair (pod_level_recommendation_DeepCopyInto lib)
      (copy_nullable (copy_slice (Field \<circ> CContainerRecommendations) as_ContainerRecommendations
      (container_recommendation_DeepCopyInto lib))))) (refs_pair refs_resources (refs_pair
      refs_pod_level_recommendation (refs_nullable (refs_slice as_ContainerRecommendations
      refs_container_recommendation))))
      (view_pair view_resources (view_pair view_pod_level_recommendation (view_nullable (view_slice
          as_ContainerRecommendations view_container_recommendation))))"
    by (intro copier_shapes lib_copiers [OF assms] copier_pod_level_recommendation [OF assms]
        copier_container_recommendation [OF assms]; simp add: unboxing)
qed (auto simp: recommendation_DeepCopyInto_def fields_recommendation_def refs_recommendation_def
    view_recommendation_def copy_pair_def copy_plain_def split: prod.split)

lemma copier_ppvpa_spec:
  assumes "copy_lib_ok lib mr mv lr lv"
  shows "copier (ppvpa_spec_DeepCopyInto lib) (refs_ppvpa_spec) (view_ppvpa_spec)"
proof (rule copier_struct [where pack = "\<lambda>((p1, p2, p3), y1, y2, y3). \<lparr>gvs_TargetRef = p1,
    gvs_RecommenderPolicy = p2, gvs_ScalingThresholds = p3, gvs_TargetReplicas = y1, gvs_UpdatePolicy =
    y2, gvs_ResourcePolicy = y3\<rparr>" and unpack = fields_ppvpa_spec])
  show "copier (copy_pair (copy_plain (\<lambda>x. x)) (copy_pair (copy_nullable (copy_cell (Field \<circ> CInt32)
      as_Int32 (copy_plain (\<lambda>x. x)))) (copy_pair update_policy_DeepCopyInto
      (resource_policy_DeepCopyInto lib)))) (refs_pair refs_plain (refs_pair (refs_nullable (refs_cell
      as_Int32 refs_plain)) (refs_pair refs_update_policy refs_resource_policy)))
      (view_pair view_plain (view_pair (view_nullable (view_cell as_Int32 view_plain)) (view_pair
          view_update_policy view_resource_policy)))"
    by (intro copier_shapes lib_copiers [OF assms] copier_update_policy copier_resource_policy [OF
        assms]; simp add: unboxing)
qed (auto simp: ppvpa_spec_DeepCopyInto_def fields_ppvpa_spec_def refs_ppvpa_spec_def
    view_ppvpa_spec_def copy_pair_def copy_plain_def split: prod.split)

lemma copier_ppvpa_status:
  assumes "copy_lib_ok lib mr mv lr lv"
  shows "copier (ppvpa_status_DeepCopyInto lib) (refs_ppvpa_status) (view_ppvpa_status)"
proof (rule copier_struct [where pack = "\<lambda>((p1, p2), y1, y2). \<lparr>gvt_ActiveReplicas = p1,
    gvt_TemporaryReplicas = p2, gvt_DefaultRecommendation = y1, gvt_Conditions = y2\<rparr>" and unpack =
    fields_ppvpa_status])
  show "copier (copy_pair (copy_plain (\<lambda>x. x)) (copy_pair (copy_nullable (copy_cell (Struct \<circ>
      CRecommendation) as_Recommendation (recommendation_DeepCopyInto lib))) (conditions_copy lib)))
      (refs_pair refs_plain (refs_pair (refs_nullable (refs_cell as_Recommendation refs_recommendation))
      refs_conditions))
      (view_pair view_plain (view_pair (view_nullable (view_cell as_Recommendation view_recommendation))
          view_conditions))"
    by (intro copier_shapes lib_copiers [OF assms] copier_recommendation [OF assms]; simp add: unboxing)
qed (auto simp: ppvpa_status_DeepCopyInto_def fields_ppvpa_status_def refs_ppvpa_status_def
    view_ppvpa_status_def copy_pair_def copy_plain_def split: prod.split)

lemma copier_ppvpa:
  assumes "copy_lib_ok lib mr mv lr lv"
  shows "copier (ppvpa_DeepCopyInto lib) (refs_ppvpa mr) (view_ppvpa mv)"
proof (rule copier_struct [where pack = "\<lambda>(p1, y1, y2, y3). \<lparr>gv_TypeMeta = p1, gv_ObjectMeta = y1,
    gv_Spec = y2, gv_Status = y3\<rparr>" and unpack = fields_ppvpa])
  show "copier (copy_pair (copy_plain (\<lambda>x. x)) (copy_pair (lib_ObjectMeta lib) (copy_pair
      (ppvpa_spec_DeepCopyInto lib) (ppvpa_status_DeepCopyInto lib)))) (refs_pair refs_plain (refs_pair
      mr (refs_pair refs_ppvpa_spec refs_ppvpa_status)))
      (view_pair view_plain (view_pair mv (view_pair view_ppvpa_spec view_ppvpa_status)))"
    by (intro copier_shapes lib_copiers [OF assms] copier_ppvpa_spec [OF assms] copier_ppvpa_status [OF
        assms]; simp add: unboxing)
qed (auto simp: ppvpa_DeepCopyInto_def fields_ppvpa_def refs_ppvpa_def view_ppvpa_def copy_pair_def
    copy_plain_def split: prod.split)

lemma copier_prr_status:
  assumes "copy_lib_ok lib mr mv lr lv"
  shows "copier (prr_status_DeepCopyInto lib) (refs_prr_status) (view_prr_status)"
proof (rule copier_struct [where pack = "\<lambda>(p1, y1, y2, y3, y4, y5). \<lparr>gpt_HistogramCheckpoint = p1,
    gpt_ContentionHighWatermarks = y1, gpt_ObservedPeak = y2, gpt_PodLevelTarget = y3,
    gpt_ContainerRecommendations = y4, gpt_Conditions = y5\<rparr>" and unpack = fields_prr_status])
  show "copier (copy_pair (copy_plain (\<lambda>x. x)) (copy_pair (copy_nullable (copy_cell (Struct \<circ>
      CContentionHighWatermarks) as_ContentionHighWatermarks (contention_high_watermarks_DeepCopyInto
      lib))) (copy_pair (copy_nullable (copy_cell (Struct \<circ> CObservedPeak) as_ObservedPeak
      observed_peak_DeepCopyInto)) (copy_pair (resources_copy lib) (copy_pair (copy_nullable (copy_slice
      (Field \<circ> CContainerRecommendations) as_ContainerRecommendations
      (container_recommendation_DeepCopyInto lib))) (conditions_copy lib)))))) (refs_pair refs_plain
      (refs_pair (refs_nullable (refs_cell as_ContentionHighWatermarks refs_contention_high_watermarks))
      (refs_pair (refs_nullable (refs_cell as_ObservedPeak refs_observed_peak)) (refs_pair
      refs_resources (refs_pair (refs_nullable (refs_slice as_ContainerRecommendations
      refs_container_recommendation)) refs_conditions)))))
      (view_pair view_plain (view_pair (view_nullable (view_cell as_ContentionHighWatermarks
          view_contention_high_watermarks)) (view_pair (view_nullable (view_cell as_ObservedPeak
          view_observed_peak)) (view_pair view_resources (view_pair (view_nullable (view_slice
          as_ContainerRecommendations view_container_recommendation)) view_conditions)))))"
    by (intro copier_shapes lib_copiers [OF assms] copier_contention_high_watermarks [OF assms]
        copier_observed_peak copier_container_recommendation [OF assms]; simp add: unboxing)
qed (auto simp: prr_status_DeepCopyInto_def fields_prr_status_def refs_prr_status_def
    view_prr_status_def copy_pair_def copy_plain_def split: prod.split)

lemma copier_prr:
  assumes "copy_lib_ok lib mr mv lr lv"
  shows "copier (prr_DeepCopyInto lib) (refs_prr mr) (view_prr mv)"
proof (rule copier_struct [where pack = "\<lambda>((p1, p2), y1, y2). \<lparr>gp_TypeMeta = p1, gp_Spec = p2,
    gp_ObjectMeta = y1, gp_Status = y2\<rparr>" and unpack = fields_prr])
  show "copier (copy_pair (copy_plain (\<lambda>x. x)) (copy_pair (lib_ObjectMeta lib) (prr_status_DeepCopyInto
      lib))) (refs_pair refs_plain (refs_pair mr refs_prr_status))
      (view_pair view_plain (view_pair mv view_prr_status))"
    by (intro copier_shapes lib_copiers [OF assms] copier_prr_status [OF assms]; simp add: unboxing)
qed (auto simp: prr_DeepCopyInto_def fields_prr_def refs_prr_def view_prr_def copy_pair_def
    copy_plain_def split: prod.split)

lemma copier_checkpoint_status:
  assumes "copy_lib_ok lib mr mv lr lv"
  shows "copier (checkpoint_status_DeepCopyInto lib) (refs_checkpoint_status) (view_checkpoint_status)"
proof (rule copier_struct [where pack = "\<lambda>(p1, y1, y2). \<lparr>gct_AggregateHistogramCheckpoint = p1,
    gct_LastUpdateTime = y1, gct_Conditions = y2\<rparr>" and unpack = fields_checkpoint_status])
  show "copier (copy_pair (copy_plain (\<lambda>x. x)) (copy_pair (time_copy lib) (conditions_copy lib)))
      (refs_pair refs_plain (refs_pair refs_time refs_conditions))
      (view_pair view_plain (view_pair view_time view_conditions))"
    by (intro copier_shapes lib_copiers [OF assms]; simp add: unboxing)
qed (auto simp: checkpoint_status_DeepCopyInto_def fields_checkpoint_status_def
    refs_checkpoint_status_def view_checkpoint_status_def copy_pair_def copy_plain_def split:
    prod.split)

lemma copier_checkpoint:
  assumes "copy_lib_ok lib mr mv lr lv"
  shows "copier (checkpoint_DeepCopyInto lib) (refs_checkpoint mr) (view_checkpoint mv)"
proof (rule copier_struct [where pack = "\<lambda>((p1, p2), y1, y2). \<lparr>gc_TypeMeta = p1, gc_Spec = p2,
    gc_ObjectMeta = y1, gc_Status = y2\<rparr>" and unpack = fields_checkpoint])
  show "copier (copy_pair (copy_plain (\<lambda>x. x)) (copy_pair (lib_ObjectMeta lib)
      (checkpoint_status_DeepCopyInto lib))) (refs_pair refs_plain (refs_pair mr
      refs_checkpoint_status))
      (view_pair view_plain (view_pair mv view_checkpoint_status))"
    by (intro copier_shapes lib_copiers [OF assms] copier_checkpoint_status [OF assms]; simp add:
        unboxing)
qed (auto simp: checkpoint_DeepCopyInto_def fields_checkpoint_def refs_checkpoint_def
    view_checkpoint_def copy_pair_def copy_plain_def split: prod.split)

lemma copier_ppvpa_list:
  assumes "copy_lib_ok lib mr mv lr lv"
  shows "copier (ppvpa_list_DeepCopyInto lib) (refs_ppvpa_list mr lr) (view_ppvpa_list mv lv)"
proof (rule copier_struct [where pack = "\<lambda>(p1, y1, y2). \<lparr>gvl_TypeMeta = p1, gvl_ListMeta = y1, gvl_Items
    = y2\<rparr>" and unpack = fields_ppvpa_list])
  show "copier (copy_pair (copy_plain (\<lambda>x. x)) (copy_pair (lib_ListMeta lib) (copy_nullable (copy_slice
      (Object \<circ> CPPVPAs) as_PPVPAs (ppvpa_DeepCopyInto lib))))) (refs_pair refs_plain (refs_pair lr
      (refs_nullable (refs_slice as_PPVPAs (refs_ppvpa mr)))))
      (view_pair view_plain (view_pair lv (view_nullable (view_slice as_PPVPAs (view_ppvpa mv)))))"
    by (intro copier_shapes lib_copiers [OF assms] copier_ppvpa [OF assms]; simp add: unboxing)
qed (auto simp: ppvpa_list_DeepCopyInto_def fields_ppvpa_list_def refs_ppvpa_list_def
    view_ppvpa_list_def copy_pair_def copy_plain_def split: prod.split)

lemma copier_prr_list:
  assumes "copy_lib_ok lib mr mv lr lv"
  shows "copier (prr_list_DeepCopyInto lib) (refs_prr_list mr lr) (view_prr_list mv lv)"
proof (rule copier_struct [where pack = "\<lambda>(p1, y1, y2). \<lparr>gprl_TypeMeta = p1, gprl_ListMeta = y1,
    gprl_Items = y2\<rparr>" and unpack = fields_prr_list])
  show "copier (copy_pair (copy_plain (\<lambda>x. x)) (copy_pair (lib_ListMeta lib) (copy_nullable (copy_slice
      (Object \<circ> CPRRs) as_PRRs (prr_DeepCopyInto lib))))) (refs_pair refs_plain (refs_pair lr
      (refs_nullable (refs_slice as_PRRs (refs_prr mr)))))
      (view_pair view_plain (view_pair lv (view_nullable (view_slice as_PRRs (view_prr mv)))))"
    by (intro copier_shapes lib_copiers [OF assms] copier_prr [OF assms]; simp add: unboxing)
qed (auto simp: prr_list_DeepCopyInto_def fields_prr_list_def refs_prr_list_def view_prr_list_def
    copy_pair_def copy_plain_def split: prod.split)

lemma copier_checkpoint_list:
  assumes "copy_lib_ok lib mr mv lr lv"
  shows "copier (checkpoint_list_DeepCopyInto lib) (refs_checkpoint_list mr lr) (view_checkpoint_list mv
      lv)"
proof (rule copier_struct [where pack = "\<lambda>(p1, y1, y2). \<lparr>gcl_TypeMeta = p1, gcl_ListMeta = y1, gcl_Items
    = y2\<rparr>" and unpack = fields_checkpoint_list])
  show "copier (copy_pair (copy_plain (\<lambda>x. x)) (copy_pair (lib_ListMeta lib) (copy_nullable (copy_slice
      (Object \<circ> CCheckpoints) as_Checkpoints (checkpoint_DeepCopyInto lib))))) (refs_pair refs_plain
      (refs_pair lr (refs_nullable (refs_slice as_Checkpoints (refs_checkpoint mr)))))
      (view_pair view_plain (view_pair lv (view_nullable (view_slice as_Checkpoints (view_checkpoint
          mv)))))"
    by (intro copier_shapes lib_copiers [OF assms] copier_checkpoint [OF assms]; simp add: unboxing)
qed (auto simp: checkpoint_list_DeepCopyInto_def fields_checkpoint_list_def refs_checkpoint_list_def
    view_checkpoint_list_def copy_pair_def copy_plain_def split: prod.split)

lemmas deep_copy_defs = cpu_thresholds_DeepCopy_def container_level_contention_DeepCopy_def
    container_policy_DeepCopy_def container_recommendation_DeepCopy_def
    contention_high_watermarks_DeepCopy_def infeasible_behavior_DeepCopy_def
    memory_thresholds_DeepCopy_def observed_peak_DeepCopy_def observed_peak_container_DeepCopy_def
    observed_peak_pod_level_DeepCopy_def ppvpa_DeepCopy_def checkpoint_DeepCopy_def
    checkpoint_list_DeepCopy_def checkpoint_spec_DeepCopy_def checkpoint_status_DeepCopy_def
    ppvpa_list_DeepCopy_def ppvpa_spec_DeepCopy_def ppvpa_status_DeepCopy_def
    pod_level_contention_DeepCopy_def pod_level_policy_DeepCopy_def
    pod_level_recommendation_DeepCopy_def prr_DeepCopy_def prr_list_DeepCopy_def prr_spec_DeepCopy_def
    prr_status_DeepCopy_def recommendation_DeepCopy_def recommender_policy_DeepCopy_def
    resource_policy_DeepCopy_def scaling_thresholds_DeepCopy_def update_policy_DeepCopy_def

lemma copier_values:
  shows "copier cpu_thresholds_DeepCopyInto refs_plain view_plain"
    and "copier memory_thresholds_DeepCopyInto refs_plain view_plain"
    and "copier observed_peak_container_DeepCopyInto refs_plain view_plain"
    and "copier observed_peak_pod_level_DeepCopyInto refs_plain view_plain"
    and "copier checkpoint_spec_DeepCopyInto refs_plain view_plain"
    and "copier prr_spec_DeepCopyInto refs_plain view_plain"
    and "copier recommender_policy_DeepCopyInto refs_plain view_plain"
    and "copier scaling_thresholds_DeepCopyInto refs_plain view_plain"
  by (unfold_locales; simp add: cpu_thresholds_DeepCopyInto_def memory_thresholds_DeepCopyInto_def
      observed_peak_container_DeepCopyInto_def observed_peak_pod_level_DeepCopyInto_def
      checkpoint_spec_DeepCopyInto_def prr_spec_DeepCopyInto_def recommender_policy_DeepCopyInto_def
      scaling_thresholds_DeepCopyInto_def refs_plain_def view_plain_def grows_refl)+

text \<open>Every \<open>DeepCopy\<close> keeps the contract.\<close>

lemma copier_DeepCopy:
  assumes "copy_lib_ok lib mr mv lr lv"
  shows "copier (cpu_thresholds_DeepCopy) (refs_nullable (refs_cell as_CPUThresholds refs_plain))
      (view_nullable (view_cell as_CPUThresholds view_plain))"
    and "copier (container_level_contention_DeepCopy lib) (refs_nullable (refs_cell
        as_ContainerLevelContention refs_container_level_contention))
      (view_nullable (view_cell as_ContainerLevelContention view_container_level_contention))"
    and "copier (container_policy_DeepCopy lib) (refs_nullable (refs_cell as_ContainerPolicy
        refs_container_policy))
      (view_nullable (view_cell as_ContainerPolicy view_container_policy))"
    and "copier (container_recommendation_DeepCopy lib) (refs_nullable (refs_cell
        as_ContainerRecommendation refs_container_recommendation))
      (view_nullable (view_cell as_ContainerRecommendation view_container_recommendation))"
    and "copier (contention_high_watermarks_DeepCopy lib) (refs_nullable (refs_cell
        as_ContentionHighWatermarks refs_contention_high_watermarks))
      (view_nullable (view_cell as_ContentionHighWatermarks view_contention_high_watermarks))"
    and "copier (infeasible_behavior_DeepCopy) (refs_nullable (refs_cell as_InfeasibleBehavior
        refs_infeasible_behavior))
      (view_nullable (view_cell as_InfeasibleBehavior view_infeasible_behavior))"
    and "copier (memory_thresholds_DeepCopy) (refs_nullable (refs_cell as_MemoryThresholds refs_plain))
      (view_nullable (view_cell as_MemoryThresholds view_plain))"
    and "copier (observed_peak_DeepCopy) (refs_nullable (refs_cell as_ObservedPeak refs_observed_peak))
      (view_nullable (view_cell as_ObservedPeak view_observed_peak))"
    and "copier (observed_peak_container_DeepCopy) (refs_nullable (refs_cell as_ObservedPeakContainer
        refs_plain))
      (view_nullable (view_cell as_ObservedPeakContainer view_plain))"
    and "copier (observed_peak_pod_level_DeepCopy) (refs_nullable (refs_cell as_ObservedPeakPodLevel
        refs_plain))
      (view_nullable (view_cell as_ObservedPeakPodLevel view_plain))"
    and "copier (ppvpa_DeepCopy lib) (refs_nullable (refs_cell as_PPVPA (refs_ppvpa mr)))
      (view_nullable (view_cell as_PPVPA (view_ppvpa mv)))"
    and "copier (checkpoint_DeepCopy lib) (refs_nullable (refs_cell as_Checkpoint (refs_checkpoint mr)))
      (view_nullable (view_cell as_Checkpoint (view_checkpoint mv)))"
    and "copier (checkpoint_list_DeepCopy lib) (refs_nullable (refs_cell as_PPVPACheckpointList
        (refs_checkpoint_list mr lr)))
      (view_nullable (view_cell as_PPVPACheckpointList (view_checkpoint_list mv lv)))"
    and "copier (checkpoint_spec_DeepCopy) (refs_nullable (refs_cell as_PPVPACheckpointSpec refs_plain))
      (view_nullable (view_cell as_PPVPACheckpointSpec view_plain))"
    and "copier (checkpoint_status_DeepCopy lib) (refs_nullable (refs_cell as_PPVPACheckpointStatus
        refs_checkpoint_status))
      (view_nullable (view_cell as_PPVPACheckpointStatus view_checkpoint_status))"
    and "copier (ppvpa_list_DeepCopy lib) (refs_nullable (refs_cell as_PPVPAList (refs_ppvpa_list mr
        lr)))
      (view_nullable (view_cell as_PPVPAList (view_ppvpa_list mv lv)))"
    and "copier (ppvpa_spec_DeepCopy lib) (refs_nullable (refs_cell as_PPVPASpec refs_ppvpa_spec))
      (view_nullable (view_cell as_PPVPASpec view_ppvpa_spec))"
    and "copier (ppvpa_status_DeepCopy lib) (refs_nullable (refs_cell as_PPVPAStatus refs_ppvpa_status))
      (view_nullable (view_cell as_PPVPAStatus view_ppvpa_status))"
    and "copier (pod_level_contention_DeepCopy lib) (refs_nullable (refs_cell as_PodLevelContention
        refs_pod_level_contention))
      (view_nullable (view_cell as_PodLevelContention view_pod_level_contention))"
    and "copier (pod_level_policy_DeepCopy lib) (refs_nullable (refs_cell as_PodLevelPolicy
        refs_pod_level_policy))
      (view_nullable (view_cell as_PodLevelPolicy view_pod_level_policy))"
    and "copier (pod_level_recommendation_DeepCopy lib) (refs_nullable (refs_cell
        as_PodLevelRecommendation refs_pod_level_recommendation))
      (view_nullable (view_cell as_PodLevelRecommendation view_pod_level_recommendation))"
    and "copier (prr_DeepCopy lib) (refs_nullable (refs_cell as_PRR (refs_prr mr)))
      (view_nullable (view_cell as_PRR (view_prr mv)))"
    and "copier (prr_list_DeepCopy lib) (refs_nullable (refs_cell as_PRRList (refs_prr_list mr lr)))
      (view_nullable (view_cell as_PRRList (view_prr_list mv lv)))"
    and "copier (prr_spec_DeepCopy) (refs_nullable (refs_cell as_PRRSpec refs_plain))
      (view_nullable (view_cell as_PRRSpec view_plain))"
    and "copier (prr_status_DeepCopy lib) (refs_nullable (refs_cell as_PRRStatus refs_prr_status))
      (view_nullable (view_cell as_PRRStatus view_prr_status))"
    and "copier (recommendation_DeepCopy lib) (refs_nullable (refs_cell as_Recommendation
        refs_recommendation))
      (view_nullable (view_cell as_Recommendation view_recommendation))"
    and "copier (recommender_policy_DeepCopy) (refs_nullable (refs_cell as_RecommenderPolicy
        refs_plain))
      (view_nullable (view_cell as_RecommenderPolicy view_plain))"
    and "copier (resource_policy_DeepCopy lib) (refs_nullable (refs_cell as_ResourcePolicy
        refs_resource_policy))
      (view_nullable (view_cell as_ResourcePolicy view_resource_policy))"
    and "copier (scaling_thresholds_DeepCopy) (refs_nullable (refs_cell as_ScalingThresholds
        refs_plain))
      (view_nullable (view_cell as_ScalingThresholds view_plain))"
    and "copier (update_policy_DeepCopy) (refs_nullable (refs_cell as_UpdatePolicy refs_update_policy))
      (view_nullable (view_cell as_UpdatePolicy view_update_policy))"
  unfolding deep_copy_defs
  by (intro copier_nullable copier_cell copier_values copier_container_level_contention [OF assms]
      copier_pod_level_contention [OF assms] copier_contention_high_watermarks [OF assms]
      copier_observed_peak copier_infeasible_behavior copier_update_policy copier_pod_level_policy [OF
      assms] copier_container_policy [OF assms] copier_resource_policy [OF assms]
      copier_container_recommendation [OF assms] copier_pod_level_recommendation [OF assms]
      copier_recommendation [OF assms] copier_ppvpa_spec [OF assms] copier_ppvpa_status [OF assms]
      copier_ppvpa [OF assms] copier_prr_status [OF assms] copier_prr [OF assms]
      copier_checkpoint_status [OF assms] copier_checkpoint [OF assms] copier_ppvpa_list [OF assms]
      copier_prr_list [OF assms] copier_checkpoint_list [OF assms]; simp add: unboxing)+

text \<open>Instances that need nothing of other packages.\<close>

interpretation infeasible_copy: copier infeasible_behavior_DeepCopyInto refs_infeasible_behavior
    view_infeasible_behavior
  by (rule copier_infeasible_behavior)

interpretation policy_copy: copier update_policy_DeepCopyInto refs_update_policy view_update_policy
  by (rule copier_update_policy)

interpretation peak_copy: copier observed_peak_DeepCopyInto refs_observed_peak view_observed_peak
  by (rule copier_observed_peak)

end
