(* ===== verification/HeapPatches.thy ===== *)
theory HeapPatches
  imports DeepCopy Controllers Agent
begin

text \<open>
  The places where the program changes an object: a deep copy is made, fields of the copy are
  assigned, and the copy is sent as a patch against the original (\<open>client.MergeFrom\<close>). The
  other theories write this as a record update on values; here the same steps run on Go's
  heap, and every one of them is shown to refine the record update: the patch stands for the
  updated value while the original still stands for the old one, whatever the two share in
  the copy's source.
\<close>

section \<open>Patches on the heap\<close>

abbreviation set_ppvpa ::
  "('m g_ppvpa \<Rightarrow> 'm g_ppvpa) \<Rightarrow> ('q, 'm, 'l) heap \<Rightarrow> nat option \<Rightarrow> ('q, 'm, 'l) heap" where
  "set_ppvpa \<equiv> set_field (Object \<circ> CPPVPA) as_PPVPA"

abbreviation set_prr ::
  "('m g_prr \<Rightarrow> 'm g_prr) \<Rightarrow> ('q, 'm, 'l) heap \<Rightarrow> nat option \<Rightarrow> ('q, 'm, 'l) heap" where
  "set_prr \<equiv> set_field (Object \<circ> CPRR) as_PRR"

abbreviation set_checkpoint ::
  "('m g_checkpoint \<Rightarrow> 'm g_checkpoint) \<Rightarrow> ('q, 'm, 'l) heap \<Rightarrow> nat option \<Rightarrow> ('q, 'm, 'l) heap" where
  "set_checkpoint \<equiv> set_field (Object \<circ> CCheckpoint) as_Checkpoint"

text \<open>\<open>patch.Status.TemporaryReplicas\<close> of the budgeted handler: one more than the original's, or one less.\<close>

definition bump_patch ::
  "('q, 'm, 'l) copy_lib \<Rightarrow> ('q, 'm, 'l) heap \<Rightarrow> nat \<Rightarrow> ('q, 'm, 'l) heap \<times> nat option" where
  "bump_patch lib h a =
     (let (h1, p) = ppvpa_DeepCopy lib h (Some a);
          n = (case load as_PPVPA h1 a of None \<Rightarrow> 0 | Some x \<Rightarrow> gvt_TemporaryReplicas (gv_Status x))
      in (set_ppvpa (\<lambda>x. x\<lparr>gv_Status := (gv_Status x)\<lparr>gvt_TemporaryReplicas := wrap32 (n + 1)\<rparr>\<rparr>) h1 p, p))"

definition decrement_patch ::
  "('q, 'm, 'l) copy_lib \<Rightarrow> ('q, 'm, 'l) heap \<Rightarrow> nat \<Rightarrow> ('q, 'm, 'l) heap \<times> nat option" where
  "decrement_patch lib h a =
     (let (h1, p) = ppvpa_DeepCopy lib h (Some a)
      in (set_ppvpa
            (\<lambda>x. let n = gvt_TemporaryReplicas (gv_Status x)
                 in if 0 < n then x\<lparr>gv_Status := (gv_Status x)\<lparr>gvt_TemporaryReplicas := wrap32 (n - 1)\<rparr>\<rparr> else x)
            h1 p, p))"

text \<open>\<open>patch.Status.DefaultRecommendation = rec\<close>, \<open>rec\<close> a pointer.\<close>

definition recommendation_patch ::
  "('q, 'm, 'l) copy_lib \<Rightarrow> ('q, 'm, 'l) heap \<Rightarrow> nat \<Rightarrow> nat option \<Rightarrow> ('q, 'm, 'l) heap \<times> nat option" where
  "recommendation_patch lib h a rec =
     (let (h1, p) = ppvpa_DeepCopy lib h (Some a)
      in (set_ppvpa (\<lambda>x. x\<lparr>gv_Status := (gv_Status x)\<lparr>gvt_DefaultRecommendation := rec\<rparr>\<rparr>) h1 p, p))"

text \<open>\<open>specPatch.Spec.TargetReplicas = &current\<close>: the variable is a cell of its own.\<close>

definition target_patch ::
  "('q, 'm, 'l) copy_lib \<Rightarrow> ('q, 'm, 'l) heap \<Rightarrow> nat \<Rightarrow> int32 \<Rightarrow> ('q, 'm, 'l) heap \<times> nat option" where
  "target_patch lib h a n =
     (let (h0, current) = new_cell h (Field (CInt32 n));
          (h1, p) = ppvpa_DeepCopy lib h0 (Some a)
      in (set_ppvpa (\<lambda>x. x\<lparr>gv_Spec := (gv_Spec x)\<lparr>gvs_TargetReplicas := Some current\<rparr>\<rparr>) h1 p, p))"

definition active_patch ::
  "('q, 'm, 'l) copy_lib \<Rightarrow> ('q, 'm, 'l) heap \<Rightarrow> nat \<Rightarrow> int32 \<Rightarrow> ('q, 'm, 'l) heap \<times> nat option" where
  "active_patch lib h a n =
     (let (h1, p) = ppvpa_DeepCopy lib h (Some a)
      in (set_ppvpa (\<lambda>x. x\<lparr>gv_Status := (gv_Status x)\<lparr>gvt_ActiveReplicas := n\<rparr>\<rparr>) h1 p, p))"

definition aggregate_patch ::
  "('q, 'm, 'l) copy_lib \<Rightarrow> ('q, 'm, 'l) heap \<Rightarrow> nat \<Rightarrow> string \<Rightarrow> time \<Rightarrow> ('q, 'm, 'l) heap \<times> nat option" where
  "aggregate_patch lib h a enc t =
     (let (h0, now) = new_cell h (Field (CTime t));
          (h1, p) = checkpoint_DeepCopy lib h0 (Some a);
          h2 = set_checkpoint (\<lambda>x. x\<lparr>gc_Status := (gc_Status x)\<lparr>gct_AggregateHistogramCheckpoint := enc\<rparr>\<rparr>) h1 p
      in (set_checkpoint (\<lambda>x. x\<lparr>gc_Status := (gc_Status x)\<lparr>gct_LastUpdateTime := Some now\<rparr>\<rparr>) h2 p, p))"

definition histogram_patch ::
  "('q, 'm, 'l) copy_lib \<Rightarrow> ('q, 'm, 'l) heap \<Rightarrow> nat \<Rightarrow> string \<Rightarrow> ('q, 'm, 'l) heap \<times> nat option" where
  "histogram_patch lib h a enc =
     (let (h1, p) = prr_DeepCopy lib h (Some a)
      in (set_prr (\<lambda>x. x\<lparr>gp_Status := (gp_Status x)\<lparr>gpt_HistogramCheckpoint := enc\<rparr>\<rparr>) h1 p, p))"

text \<open>
  A concrete heap: metadata without references, an autoscaler that points to its target and its
  surge budget, a recommendation, a checkpoint, and a list of one pod recommendation.
\<close>

definition demo_lib :: "(int, object_meta, unit) copy_lib" where
  "demo_lib =
     \<lparr>lib_Quantity = (\<lambda>x. x), lib_Condition = (\<lambda>c. c), lib_Time = copy_cell (Field \<circ> CTime) as_Time (copy_plain (\<lambda>x. x)),
      lib_ObjectMeta = copy_plain (\<lambda>x. x), lib_ListMeta = copy_plain (\<lambda>x. x)\<rparr>"

definition demo_g_ppvpa :: "object_meta g_ppvpa" where
  "demo_g_ppvpa =
     \<lparr>gv_TypeMeta = ([], []), gv_ObjectMeta = demo_meta ''vpa'',
      gv_Spec = \<lparr>gvs_TargetRef = TargetRef demo_spec, gvs_RecommenderPolicy = RecommenderPolicy demo_spec,
        gvs_ScalingThresholds = ScalingThresholds demo_spec, gvs_TargetReplicas = Some 1,
        gvs_UpdatePolicy = \<lparr>gup_UpdateMode = UpdateModeInPlace, gup_AnomalyEvictionTimeoutSeconds = 60,
          gup_SignificantChangeThresholdPercentage = 10, gup_BurstTimeoutSeconds = 120,
          gup_InfeasibleUpdateBehavior = \<lparr>gib_MaxSurge = Some 2, gib_MaxUnavailable = None\<rparr>\<rparr>,
        gvs_ResourcePolicy = \<lparr>grp_PodLevelPolicies = None, grp_ContainerPolicies = None\<rparr>\<rparr>,
      gv_Status = \<lparr>gvt_ActiveReplicas = 3, gvt_TemporaryReplicas = 1, gvt_DefaultRecommendation = None,
        gvt_Conditions = None\<rparr>\<rparr>"

definition demo_g_prr :: "object_meta g_prr" where
  "demo_g_prr =
     \<lparr>gp_TypeMeta = ([], []), gp_Spec = \<lparr>spec_TargetPodName = ''pod''\<rparr>, gp_ObjectMeta = demo_meta ''prr'',
      gp_Status = \<lparr>gpt_HistogramCheckpoint = ''x'', gpt_ContentionHighWatermarks = None, gpt_ObservedPeak = None,
        gpt_PodLevelTarget = None, gpt_ContainerRecommendations = None, gpt_Conditions = None\<rparr>\<rparr>"

definition demo_g_checkpoint :: "object_meta g_checkpoint" where
  "demo_g_checkpoint =
     \<lparr>gc_TypeMeta = ([], []), gc_Spec = \<lparr>spec_PPVPARef = ''vpa''\<rparr>, gc_ObjectMeta = demo_meta ''cp'',
      gc_Status = \<lparr>gct_AggregateHistogramCheckpoint = [], gct_LastUpdateTime = None, gct_Conditions = None\<rparr>\<rparr>"

definition demo_g_recommendation :: g_recommendation where
  "demo_g_recommendation =
     \<lparr>grec_PodLevelTarget = None,
      grec_PodLevel = \<lparr>gpl_LowerBound = None, gpl_Target = None, gpl_UncappedTarget = None, gpl_UpperBound = None\<rparr>,
      grec_ContainerRecommendations = None\<rparr>"

definition demo_heap :: "(int, object_meta, unit) heap" where
  "demo_heap =
     Store
       [0 \<mapsto> Object (CPPVPA demo_g_ppvpa), 1 \<mapsto> Field (CInt32 3), 2 \<mapsto> Field (CIntOrString (IntVal 1)),
        3 \<mapsto> Struct (CRecommendation demo_g_recommendation), 4 \<mapsto> Object (CCheckpoint demo_g_checkpoint),
        5 \<mapsto> Object (CPRR demo_g_prr), 6 \<mapsto> Object (CPRRs [demo_g_prr]),
        7 \<mapsto> Object (CPRRList \<lparr>gprl_TypeMeta = ([], []), gprl_ListMeta = (), gprl_Items = Some (6, 0, 1)\<rparr>)]
       8"

section \<open>Assigning a field\<close>

lemma view_ppvpa_Some:
  "view_ppvpa mv h x = Some (y, v) \<longleftrightarrow>
     gv_TypeMeta x = y \<and> mv h (gv_ObjectMeta x) = Some (ppvpa_meta v) \<and>
     view_ppvpa_spec h (gv_Spec x) = Some (ppvpa_Spec v) \<and> view_ppvpa_status h (gv_Status x) = Some (ppvpa_Status v)"
  by (cases v) (auto simp: view_ppvpa_def fields_ppvpa_def view_pair_Some view_plain_def)

lemma view_ppvpa_status_Some:
  "view_ppvpa_status h x = Some s \<longleftrightarrow>
     gvt_ActiveReplicas x = ActiveReplicas s \<and> gvt_TemporaryReplicas x = TemporaryReplicas s \<and>
     view_nullable (view_cell as_Recommendation view_recommendation) h (gvt_DefaultRecommendation x) =
       Some (DefaultRecommendation s) \<and>
     map_option list_of (view_conditions h (gvt_Conditions x)) = Some (ppvpa_Conditions s)"
  by (cases s) (auto simp: view_ppvpa_status_def fields_ppvpa_status_def view_pair_Some view_plain_def)

lemma view_ppvpa_spec_Some:
  "view_ppvpa_spec h x = Some s \<longleftrightarrow>
     gvs_TargetRef x = TargetRef s \<and> gvs_RecommenderPolicy x = RecommenderPolicy s \<and>
     gvs_ScalingThresholds x = ScalingThresholds s \<and>
     view_nullable (view_cell as_Int32 view_plain) h (gvs_TargetReplicas x) = Some (TargetReplicas s) \<and>
     view_update_policy h (gvs_UpdatePolicy x) = Some (UpdatePolicy s) \<and>
     view_resource_policy h (gvs_ResourcePolicy x) = Some (ResourcePolicy s)"
  by (cases s) (auto simp: view_ppvpa_spec_def fields_ppvpa_spec_def view_pair_Some view_plain_def)

lemma view_checkpoint_Some:
  "view_checkpoint mv h x = Some (y, v) \<longleftrightarrow>
     gc_TypeMeta x = y \<and> spec_PPVPARef (gc_Spec x) = PPVPARef v \<and> mv h (gc_ObjectMeta x) = Some (checkpoint_meta v) \<and>
     view_checkpoint_status h (gc_Status x) = Some (checkpoint_Status v)"
  by (cases v) (auto simp: view_checkpoint_def fields_checkpoint_def view_pair_Some view_plain_def)

lemma view_checkpoint_status_Some:
  "view_checkpoint_status h x = Some s \<longleftrightarrow>
     gct_AggregateHistogramCheckpoint x = AggregateHistogramCheckpoint s \<and>
     view_time h (gct_LastUpdateTime x) = Some (LastUpdateTime s) \<and>
     map_option list_of (view_conditions h (gct_Conditions x)) = Some (cp_Conditions s)"
  by (cases s) (auto simp: view_checkpoint_status_def fields_checkpoint_status_def view_pair_Some view_plain_def)

lemma view_prr_Some:
  "view_prr mv h x = Some (y, v) \<longleftrightarrow>
     gp_TypeMeta x = y \<and> spec_TargetPodName (gp_Spec x) = TargetPodName v \<and> mv h (gp_ObjectMeta x) = Some (prr_meta v) \<and>
     view_prr_status h (gp_Status x) = Some (prr_Status v)"
  by (cases v) (auto simp: view_prr_def fields_prr_def view_pair_Some view_plain_def)

lemma view_prr_histogram:
  "view_prr_status h x = Some s \<Longrightarrow>
   view_prr_status h (x\<lparr>gpt_HistogramCheckpoint := e\<rparr>) = Some (s\<lparr>HistogramCheckpoint := e\<rparr>)"
  by (auto simp: view_prr_status_def fields_prr_status_def view_pair_Some view_plain_def)

lemmas view_Some =
  view_ppvpa_Some view_ppvpa_spec_Some view_ppvpa_status_Some view_checkpoint_Some view_checkpoint_status_Some view_prr_Some

lemma refs_object:
  "refs_ppvpa mr h x =
     mr h (gv_ObjectMeta x) \<union> refs_ppvpa_spec h (gv_Spec x) \<union> refs_ppvpa_status h (gv_Status x)"
  "refs_prr mr h y = mr h (gp_ObjectMeta y) \<union> refs_prr_status h (gp_Status y)"
  "refs_checkpoint mr h z = mr h (gc_ObjectMeta z) \<union> refs_checkpoint_status h (gc_Status z)"
  by (auto simp: refs_ppvpa_def fields_ppvpa_def refs_prr_def fields_prr_def refs_checkpoint_def fields_checkpoint_def
      refs_pair_def refs_plain_def)

lemma refs_fields:
  "refs_ppvpa_status h s =
     refs_nullable (refs_cell as_Recommendation refs_recommendation) h (gvt_DefaultRecommendation s) \<union>
     refs_conditions h (gvt_Conditions s)"
  "refs_ppvpa_spec h p =
     refs_nullable (refs_cell as_Int32 refs_plain) h (gvs_TargetReplicas p) \<union>
     refs_update_policy h (gvs_UpdatePolicy p) \<union> refs_resource_policy h (gvs_ResourcePolicy p)"
  "refs_checkpoint_status h c = refs_time h (gct_LastUpdateTime c) \<union> refs_conditions h (gct_Conditions c)"
  "refs_prr_status h (r\<lparr>gpt_HistogramCheckpoint := e\<rparr>) = refs_prr_status h r"
  by (auto simp: refs_ppvpa_status_def fields_ppvpa_status_def refs_ppvpa_spec_def fields_ppvpa_spec_def
      refs_checkpoint_status_def fields_checkpoint_status_def refs_prr_status_def fields_prr_status_def
      refs_pair_def refs_plain_def)

text \<open>Two assignments through one pointer are one.\<close>

lemma set_field_twice:
  assumes "\<And>x. unbox (box x) = Some x"
  shows "set_field box unbox g (set_field box unbox f h p) p = set_field box unbox (g \<circ> f) h p"
  by (auto simp: set_field_def assms write_cell_def load_def split: option.split)

section \<open>The patches refine the record updates\<close>

text \<open>The patch of an object, up to what the assignment does to the view.\<close>

lemma ppvpa_patched:
  assumes "copy_lib_ok lib mr mv lr lv" "wf_store h" "view_cell as_PPVPA (view_ppvpa mv) h a = Some v"
    and "ppvpa_DeepCopy lib h (Some a) = (h1, p)"
    and "\<And>x. view_ppvpa mv h1 x = Some v \<Longrightarrow>
           view_ppvpa mv h1 (f x) = Some v' \<and> refs_ppvpa mr h1 (f x) \<subseteq> refs_ppvpa mr h1 x \<union> {..<st_next h}"
  shows "patched (view_cell as_PPVPA (view_ppvpa mv)) a v v' (set_ppvpa f h1 p, p)"
  by (rule set_field_patched [OF copier_ppvpa [OF assms(1)] _ assms(2,3) _ assms(5)])
    (use assms(4) in \<open>simp_all add: unboxing ppvpa_DeepCopy_def\<close>)

lemma ppvpa_copied:
  assumes "copy_lib_ok lib mr mv lr lv" "wf_store h" "view_cell as_PPVPA (view_ppvpa mv) h a = Some v"
    and "ppvpa_DeepCopy lib h (Some a) = (h1, p)"
  shows "grows h h1" and "\<exists>x. load as_PPVPA h1 a = Some x \<and> view_ppvpa mv h1 x = Some v"
proof -
  note c = copier_DeepCopy(11) [OF assms(1)]
  have v: "view_nullable (view_cell as_PPVPA (view_ppvpa mv)) h (Some a) = Some (Some v)" using assms(3) by simp
  show g: "grows h h1" using copier.copies [OF c assms(2) v assms(4)] by blast
  have "view_nullable (view_cell as_PPVPA (view_ppvpa mv)) h1 (Some a) = Some (Some v)"
    using copier.grown [OF c assms(2) v g] by blast
  then show "\<exists>x. load as_PPVPA h1 a = Some x \<and> view_ppvpa mv h1 x = Some v" by (auto simp: view_cell_Some)
qed

lemma bump_patched:
  assumes "copy_lib_ok lib mr mv lr lv" "wf_store h" "view_cell as_PPVPA (view_ppvpa mv) h a = Some (y, v)"
  shows "patched (view_cell as_PPVPA (view_ppvpa mv)) a (y, v)
    (y, with_temporary v (wrap32 (TemporaryReplicas (ppvpa_Status v) + 1))) (bump_patch lib h a)"
proof -
  obtain h1 p where d: "ppvpa_DeepCopy lib h (Some a) = (h1, p)" by fastforce
  obtain x where x: "load as_PPVPA h1 a = Some x" "view_ppvpa mv h1 x = Some (y, v)"
    using ppvpa_copied(2) [OF assms d] by blast
  show ?thesis unfolding bump_patch_def d
    by (simp add: x(1), rule ppvpa_patched [OF assms d])
      (use x(2) in \<open>auto simp: view_Some refs_object refs_fields with_temporary_def\<close>)
qed

lemma decrement_patched:
  assumes "copy_lib_ok lib mr mv lr lv" "wf_store h" "view_cell as_PPVPA (view_ppvpa mv) h a = Some (y, v)"
  shows "patched (view_cell as_PPVPA (view_ppvpa mv)) a (y, v) (y, decremented v) (decrement_patch lib h a)"
proof -
  obtain h1 p where d: "ppvpa_DeepCopy lib h (Some a) = (h1, p)" by fastforce
  show ?thesis unfolding decrement_patch_def d
    by (simp, rule ppvpa_patched [OF assms d])
      (auto simp: view_Some refs_object refs_fields with_temporary_def decremented_def Let_def)
qed

lemma active_patched:
  assumes "copy_lib_ok lib mr mv lr lv" "wf_store h" "view_cell as_PPVPA (view_ppvpa mv) h a = Some (y, v)"
  shows "patched (view_cell as_PPVPA (view_ppvpa mv)) a (y, v) (y, with_active v n) (active_patch lib h a n)"
proof -
  obtain h1 p where d: "ppvpa_DeepCopy lib h (Some a) = (h1, p)" by fastforce
  show ?thesis unfolding active_patch_def d
    by (simp, rule ppvpa_patched [OF assms d]) (auto simp: view_Some refs_object refs_fields with_active_def)
qed

lemma recommendation_patched:
  assumes "copy_lib_ok lib mr mv lr lv" "wf_store h" "view_cell as_PPVPA (view_ppvpa mv) h a = Some (y, v)"
    and r: "view_cell as_Recommendation view_recommendation h b = Some rec"
  shows "patched (view_cell as_PPVPA (view_ppvpa mv)) a (y, v)
    (y, v\<lparr>ppvpa_Status := (ppvpa_Status v)\<lparr>DefaultRecommendation := Some rec\<rparr>\<rparr>) (recommendation_patch lib h a (Some b))"
proof -
  obtain h1 p where d: "ppvpa_DeepCopy lib h (Some a) = (h1, p)" by fastforce
  have c: "copier (copy_cell (Struct \<circ> CRecommendation) as_Recommendation (recommendation_DeepCopyInto lib))
      (refs_cell as_Recommendation refs_recommendation) (view_cell as_Recommendation view_recommendation)"
    by (rule copier_cell [OF copier_recommendation [OF assms(1)]]) (simp add: unboxing)
  note g = copier.grown [OF c assms(2) r ppvpa_copied(1) [OF assms(1-3) d]] copier.inside [OF c assms(2) r]
  show ?thesis unfolding recommendation_patch_def d
    by (simp, rule ppvpa_patched [OF assms(1-3) d])
      (use g in \<open>auto simp: view_Some refs_object refs_fields\<close>)
qed

text \<open>A new variable: nothing that was there changes, and the variable holds its value.\<close>

lemma new_variable:
  assumes "new_cell h k = (h0, c)" "wf_store h" "copier f r w" "w h x = Some v"
  shows "wf_store h0" "w h0 x = Some v" "st_mem h0 c = Some k" "c < st_next h0" "grows h h0"
proof -
  show g: "grows h h0" and "c < st_next h0" using new_cell_grows [OF assms(2,1)] by auto
  show "wf_store h0" by (rule grows_wf [OF g])
  show "w h0 x = Some v" using copier.grown [OF assms(3,2,4) g] by blast
  show "st_mem h0 c = Some k" using assms(1) by (auto simp: new_cell_def)
qed

lemma target_patched:
  assumes "copy_lib_ok lib mr mv lr lv" "wf_store h" "view_cell as_PPVPA (view_ppvpa mv) h a = Some (y, v)"
  shows "patched (view_cell as_PPVPA (view_ppvpa mv)) a (y, v) (y, with_target v n) (target_patch lib h a n)"
proof -
  obtain h0 c where n: "new_cell h (Field (CInt32 n)) = (h0, c)" by fastforce
  obtain h1 p where d: "ppvpa_DeepCopy lib h0 (Some a) = (h1, p)" by fastforce
  have cell: "copier (copy_cell (Object \<circ> CPPVPA) as_PPVPA (ppvpa_DeepCopyInto lib))
      (refs_cell as_PPVPA (refs_ppvpa mr)) (view_cell as_PPVPA (view_ppvpa mv))"
    by (rule copier_cell [OF copier_ppvpa [OF assms(1)]]) (simp add: unboxing)
  note v = new_variable [OF n assms(2) cell assms(3)]
  have "st_mem h1 c = Some (Field (CInt32 n))" using ppvpa_copied(1) [OF assms(1) v(1,2) d] v(3,4) growsD by metis
  then have "load as_Int32 h1 c = Some n" by (simp add: load_def unboxing)
  then show ?thesis unfolding target_patch_def n prod.case Let_def d
    by (intro ppvpa_patched [OF assms(1) v(1,2) d])
      (use v(4) in \<open>auto simp: view_Some refs_object refs_fields with_target_def refs_cell_def refs_plain_def view_cell_Some view_plain_def\<close>)
qed

lemma histogram_patched:
  assumes "copy_lib_ok lib mr mv lr lv" "wf_store h" "view_cell as_PRR (view_prr mv) h a = Some (y, v)"
  shows "patched (view_cell as_PRR (view_prr mv)) a (y, v)
    (y, v\<lparr>prr_Status := (prr_Status v)\<lparr>HistogramCheckpoint := enc\<rparr>\<rparr>) (histogram_patch lib h a enc)"
proof -
  obtain h1 p where d: "prr_DeepCopy lib h (Some a) = (h1, p)" by fastforce
  show ?thesis unfolding histogram_patch_def d
    by (simp, rule set_field_patched [OF copier_prr [OF assms(1)] _ assms(2,3)])
      (use d in \<open>auto simp: unboxing prr_DeepCopy_def view_Some view_prr_histogram refs_object refs_fields\<close>)
qed

lemma aggregate_patched:
  assumes "copy_lib_ok lib mr mv lr lv" "wf_store h" "view_cell as_Checkpoint (view_checkpoint mv) h a = Some (y, v)"
  shows "patched (view_cell as_Checkpoint (view_checkpoint mv)) a (y, v)
    (y, with_aggregate v enc t) (aggregate_patch lib h a enc t)"
proof -
  obtain h0 c where n: "new_cell h (Field (CTime t)) = (h0, c)" by fastforce
  obtain h1 p where d: "checkpoint_DeepCopy lib h0 (Some a) = (h1, p)" by fastforce
  have cell: "copier (copy_cell (Object \<circ> CCheckpoint) as_Checkpoint (checkpoint_DeepCopyInto lib))
      (refs_cell as_Checkpoint (refs_checkpoint mr)) (view_cell as_Checkpoint (view_checkpoint mv))"
    by (rule copier_cell [OF copier_checkpoint [OF assms(1)]]) (simp add: unboxing)
  note v = new_variable [OF n assms(2) cell assms(3)]
  have v': "view_nullable (view_cell as_Checkpoint (view_checkpoint mv)) h0 (Some a) = Some (Some (y, v))" using v(2) by simp
  have "grows h0 h1" using copier.copies [OF copier_DeepCopy(12) [OF assms(1)] v(1) v' d] by blast
  then have "st_mem h1 c = Some (Field (CTime t))" using v(3,4) growsD by metis
  then have l: "load as_Time h1 c = Some t" by (simp add: load_def unboxing)
  have d': "copy_nullable (copy_cell (Object \<circ> CCheckpoint) as_Checkpoint (checkpoint_DeepCopyInto lib)) h0 (Some a) = (h1, p)"
    using d by (simp only: checkpoint_DeepCopy_def)
  have b: "as_Checkpoint ((Object \<circ> CCheckpoint) x) = Some x" for x by (simp add: unboxing)
  show ?thesis unfolding aggregate_patch_def n prod.case Let_def d set_field_twice [where unbox = as_Checkpoint, OF b]
    by (rule set_field_patched [OF copier_checkpoint [OF assms(1)] b v(1,2) d'])
      (use l v(4) in \<open>auto simp: view_Some refs_object refs_fields with_aggregate_def
         refs_cell_def refs_plain_def view_cell_Some view_plain_def\<close>)
qed

section \<open>Copies and patches\<close>

lemma demo_lib_ok: "copy_lib_ok demo_lib refs_plain view_plain refs_plain view_plain"
  unfolding copy_lib_ok_def demo_lib_def
  by (simp, intro conjI copier_cell copier_plain) (simp_all add: unboxing)

lemma demo_heap_wf: "wf_store demo_heap"
  by (auto simp: wf_store_def demo_heap_def split: if_splits)

lemma demo_loads:
  "load as_PPVPA demo_heap 0 = Some demo_g_ppvpa" "load as_Int32 demo_heap 1 = Some 3"
  "load as_IntOrString demo_heap 2 = Some (IntVal 1)" "load as_Recommendation demo_heap 3 = Some demo_g_recommendation"
  "load as_Checkpoint demo_heap 4 = Some demo_g_checkpoint" "load as_PRR demo_heap 5 = Some demo_g_prr"
  "window as_PRRs demo_heap (6, 0, 1) = Some [demo_g_prr]"
  "load as_PRRList demo_heap 7 =
     Some \<lparr>gprl_TypeMeta = ([], []), gprl_ListMeta = (), gprl_Items = Some (6, 0, 1)\<rparr>"
  by (simp_all add: window_def load_def demo_heap_def unboxing)

lemma demo_ppvpa_view: "view_cell as_PPVPA (view_ppvpa view_plain) demo_heap 0 = Some (([], []), demo_ppvpa 1)"
  by (simp add: view_cell_Some demo_loads view_Some demo_g_ppvpa_def demo_ppvpa_def view_plain_def demo_spec_def
      view_update_policy_def fields_update_policy_def view_infeasible_behavior_def fields_infeasible_behavior_def
      view_resource_policy_def fields_resource_policy_def view_pair_def view_cell_def list_of_def del: One_nat_def)

lemma demo_prr_view: "view_prr view_plain demo_heap demo_g_prr = Some (([], []), demo_prr ''x'' [] None)"
  by (simp add: view_Some view_prr_status_def fields_prr_status_def demo_g_prr_def demo_prr_def demo_status_def
      view_pair_def view_plain_def list_of_def res_of_def)

text \<open>
  (C10) A deep copy of an autoscaler: the copy is a new object that stands for the same value,
  nothing is reachable from both, whatever is done to the memory of the copy leaves the value
  of the original, and nothing that was allocated before is written.
\<close>

theorem deep_copy_isolated:
  assumes "copy_lib_ok lib mr mv lr lv" "wf_store h" "view_cell as_PPVPA (view_ppvpa mv) h a = Some v"
  shows "\<exists>h' b. ppvpa_DeepCopy lib h (Some a) = (h', Some b) \<and> grows h h' \<and>
    view_cell as_PPVPA (view_ppvpa mv) h' b = Some v \<and>
    refs_cell as_PPVPA (refs_ppvpa mr) h' a \<inter> refs_cell as_PPVPA (refs_ppvpa mr) h' b = {} \<and>
    (\<forall>h''. (\<forall>x. x \<notin> refs_cell as_PPVPA (refs_ppvpa mr) h' b \<longrightarrow> st_mem h'' x = st_mem h' x) \<longrightarrow>
       view_cell as_PPVPA (view_ppvpa mv) h'' a = Some v)"
proof -
  have c: "copier (copy_cell (Object \<circ> CPPVPA) as_PPVPA (ppvpa_DeepCopyInto lib))
      (refs_cell as_PPVPA (refs_ppvpa mr)) (view_cell as_PPVPA (view_ppvpa mv))"
    by (rule copier_cell [OF copier_ppvpa [OF assms(1)]]) (simp add: unboxing)
  obtain h' b where d: "copy_cell (Object \<circ> CPPVPA) as_PPVPA (ppvpa_DeepCopyInto lib) h a = (h', b)" by fastforce
  show ?thesis
    using copier.copies [OF c assms(2,3) d] copier.isolated(1,2) [OF c assms(2,3) d]
    by (intro exI [of _ h'] exI [of _ b]) (simp add: ppvpa_DeepCopy_def d)
qed

theorem deep_copy_isolated_witness:
  "\<exists>h' b. ppvpa_DeepCopy demo_lib demo_heap (Some 0) = (h', Some b) \<and>
    view_cell as_PPVPA (view_ppvpa view_plain) h' b = Some (([], []), demo_ppvpa 1)"
  using deep_copy_isolated [OF demo_lib_ok demo_heap_wf demo_ppvpa_view] by blast

text \<open>
  (C16) Every patch of an autoscaler on the heap refines the record update that the handlers are
  modelled with: the counter of the budgeted handler one up, one down unless it is zero, the new
  recommendation, the seeded target and the seeded number of active replicas. The object that
  the patch is computed against keeps its value in each case.
\<close>

theorem autoscaler_patches_refine:
  assumes "copy_lib_ok lib mr mv lr lv" "wf_store h" "view_cell as_PPVPA (view_ppvpa mv) h a = Some (y, v)"
    and "view_cell as_Recommendation view_recommendation h b = Some rec"
  shows "patched (view_cell as_PPVPA (view_ppvpa mv)) a (y, v)
      (y, with_temporary v (wrap32 (TemporaryReplicas (ppvpa_Status v) + 1))) (bump_patch lib h a) \<and>
    patched (view_cell as_PPVPA (view_ppvpa mv)) a (y, v) (y, decremented v) (decrement_patch lib h a) \<and>
    patched (view_cell as_PPVPA (view_ppvpa mv)) a (y, v)
      (y, v\<lparr>ppvpa_Status := (ppvpa_Status v)\<lparr>DefaultRecommendation := Some rec\<rparr>\<rparr>) (recommendation_patch lib h a (Some b)) \<and>
    patched (view_cell as_PPVPA (view_ppvpa mv)) a (y, v) (y, with_target v n) (target_patch lib h a n) \<and>
    patched (view_cell as_PPVPA (view_ppvpa mv)) a (y, v) (y, with_active v n) (active_patch lib h a n)"
  by (intro conjI bump_patched [OF assms(1-3)] decrement_patched [OF assms(1-3)] recommendation_patched [OF assms]
      target_patched [OF assms(1-3)] active_patched [OF assms(1-3)])

lemma demo_recommendation_view:
  "view_cell as_Recommendation view_recommendation demo_heap 3 =
     Some \<lparr>rec_PodLevelTarget = Map.empty, rec_PodLevel = \<lparr>pl_LowerBound = Map.empty, pl_Target = Map.empty,
       pl_UncappedTarget = Map.empty, pl_UpperBound = Map.empty\<rparr>, rec_ContainerRecommendations = []\<rparr>"
  by (simp add: view_cell_Some demo_loads demo_g_recommendation_def view_recommendation_def fields_recommendation_def
      view_pod_level_recommendation_def fields_pod_level_recommendation_def view_pair_def res_of_def list_of_def)

theorem autoscaler_patches_refine_witness:
  "patched (view_cell as_PPVPA (view_ppvpa view_plain)) 0 (([], []), demo_ppvpa 1) (([], []), demo_ppvpa 2)
     (bump_patch demo_lib demo_heap 0)"
proof -
  have "with_temporary (demo_ppvpa 1) (wrap32 (TemporaryReplicas (ppvpa_Status (demo_ppvpa 1)) + 1)) = demo_ppvpa 2"
    by (simp add: with_temporary_def demo_ppvpa_def wrap_def)
  then show ?thesis
    using autoscaler_patches_refine [OF demo_lib_ok demo_heap_wf demo_ppvpa_view demo_recommendation_view] by metis
qed

text \<open>
  (C24) The same for the checkpoints: the patch of the checkpoint controller has the encoded
  aggregate and the time, the patch of the node agent the encoded histogram, and the objects
  they were copied from keep their values.
\<close>

theorem checkpoint_patches_refine:
  assumes "copy_lib_ok lib mr mv lr lv" "wf_store h"
    and "view_cell as_Checkpoint (view_checkpoint mv) h a = Some (y, c)"
    and "view_cell as_PRR (view_prr mv) h b = Some (z, r)"
  shows "patched (view_cell as_Checkpoint (view_checkpoint mv)) a (y, c)
      (y, with_aggregate c enc t) (aggregate_patch lib h a enc t) \<and>
    patched (view_cell as_PRR (view_prr mv)) b (z, r)
      (z, r\<lparr>prr_Status := (prr_Status r)\<lparr>HistogramCheckpoint := enc\<rparr>\<rparr>) (histogram_patch lib h b enc)"
  by (intro conjI aggregate_patched [OF assms(1-3)] histogram_patched [OF assms(1,2,4)])

theorem checkpoint_patches_refine_witness:
  "patched (view_cell as_PRR (view_prr view_plain)) 5 (([], []), demo_prr ''x'' [] None)
     (([], []), demo_prr ''y'' [] None) (histogram_patch demo_lib demo_heap 5 ''y'')"
proof -
  have "view_cell as_PRR (view_prr view_plain) demo_heap 5 = Some (([], []), demo_prr ''x'' [] None)"
    by (simp add: view_cell_Some demo_loads demo_prr_view)
  moreover have "view_cell as_Checkpoint (view_checkpoint view_plain) demo_heap 4 =
    Some (([], []), \<lparr>checkpoint_meta = demo_meta ''cp'', PPVPARef = ''vpa'',
      checkpoint_Status = \<lparr>AggregateHistogramCheckpoint = [], LastUpdateTime = None, cp_Conditions = []\<rparr>\<rparr>)"
    by (simp add: view_cell_Some demo_loads demo_g_checkpoint_def view_Some view_plain_def list_of_def)
  moreover have "(demo_prr ''x'' [] None)\<lparr>prr_Status := (prr_Status (demo_prr ''x'' [] None))\<lparr>HistogramCheckpoint := ''y''\<rparr>\<rparr> =
    demo_prr ''y'' [] None"
    by (simp add: demo_prr_def demo_status_def)
  ultimately show ?thesis
    using checkpoint_patches_refine [OF demo_lib_ok demo_heap_wf, of 4 _ _ 5 _ _ "''y''"] by metis
qed

text \<open>
  Copying a list of pod recommendations through \<open>runtime.Object\<close>: a nil list gives the nil
  interface and leaves the heap; any other list gives an interface that holds a pointer to a
  list of the same recommendations in the same order, none of it shared with the original.
\<close>

theorem list_copy_object:
  assumes "copy_lib_ok lib mr mv lr lv" "wf_store h" "view_cell as_PRRList (view_prr_list mv lv) h a = Some v"
  shows "prr_list_DeepCopyObject lib h None = (h, None) \<and>
    (\<exists>h' b. prr_list_DeepCopyObject lib h (Some a) = (h', Some (PRRListObject (Some b))) \<and>
       view_cell as_PRRList (view_prr_list mv lv) h' b = Some v \<and>
       refs_cell as_PRRList (refs_prr_list mr lr) h' a \<inter> refs_cell as_PRRList (refs_prr_list mr lr) h' b = {})"
proof -
  have c: "copier (copy_cell (Object \<circ> CPRRList) as_PRRList (prr_list_DeepCopyInto lib))
      (refs_cell as_PRRList (refs_prr_list mr lr)) (view_cell as_PRRList (view_prr_list mv lv))"
    by (rule copier_cell [OF copier_prr_list [OF assms(1)]]) (simp add: unboxing)
  obtain h' b where d: "copy_cell (Object \<circ> CPRRList) as_PRRList (prr_list_DeepCopyInto lib) h a = (h', b)" by fastforce
  show ?thesis
    using copier.copies [OF c assms(2,3) d] copier.isolated(1) [OF c assms(2,3) d]
    by (simp add: prr_list_DeepCopyObject_def prr_list_DeepCopy_def d)
qed

theorem list_copy_object_witness:
  "\<exists>h' b. prr_list_DeepCopyObject demo_lib demo_heap (Some 7) = (h', Some (PRRListObject (Some b))) \<and>
     view_cell as_PRRList (view_prr_list view_plain view_plain) h' b =
       Some (([], []), (), [(([], []), demo_prr ''x'' [] None)])"
proof -
  have "view_slice as_PRRs (view_prr view_plain) demo_heap (6, 0, 1) = Some [(([], []), demo_prr ''x'' [] None)]"
    by (simp add: view_slice_Some demo_loads view_list_Cons demo_prr_view del: One_nat_def)
  then have "view_cell as_PRRList (view_prr_list view_plain view_plain) demo_heap 7 =
      Some (([], []), (), [(([], []), demo_prr ''x'' [] None)])"
    by (simp add: view_cell_Some demo_loads view_prr_list_def fields_prr_list_def view_pair_def view_plain_def list_of_def
        del: One_nat_def)
  from list_copy_object [OF demo_lib_ok demo_heap_wf this] show ?thesis by blast
qed

end
