(* ===== verification/Webhook.thy ===== *)
theory Webhook
  imports Eviction
begin

text \<open>
  Package \<open>webhook/v1\<close>: the admission webhook that writes the recommended resources into new
  pods. It only reads the API server; its result is the pod it was given, changed in place,
  and its error.
\<close>

section \<open>Finding the autoscaler of a pod\<close>

fun first_targeting :: "string \<Rightarrow> 'q ppvpa list \<Rightarrow> 'q ppvpa option" where
  "first_targeting dep [] = None"
| "first_targeting dep (v # vs) =
     (let t = TargetRef (ppvpa_Spec v)
      in if tr_kind t = ''Deployment'' \<and> tr_name t = dep then Some v else first_targeting dep vs)"

definition findPPVPAByDeployment ::
  "('q, 'w) client \<Rightarrow> 'w \<Rightarrow> string \<Rightarrow> string \<Rightarrow> go_error + 'q ppvpa option" where
  "findPPVPAByDeployment cl w ns dep =
     (case k_list_ppvpas cl w ns of Inl e \<Rightarrow> Inl e | Inr vs \<Rightarrow> Inr (first_targeting dep vs))"

text \<open>The inner loop: the first owner of the replica set that is a deployment.\<close>

fun deployment_owner :: "owner_ref list \<Rightarrow> string option" where
  "deployment_owner [] = None"
| "deployment_owner (r # rs) = (if or_kind r \<noteq> ''Deployment'' then deployment_owner rs else Some (or_name r))"

fun find_loop :: "('q, 'w) client \<Rightarrow> 'w \<Rightarrow> string \<Rightarrow> owner_ref list \<Rightarrow> go_error + 'q ppvpa option" where
  "find_loop cl w ns [] = Inr None"
| "find_loop cl w ns (r # rs) =
     (if or_kind r \<noteq> ''ReplicaSet'' then find_loop cl w ns rs
      else
        (case k_get_replicaset cl w ns (or_name r) of
           Inl _ \<Rightarrow> find_loop cl w ns rs
         | Inr set' \<Rightarrow>
             (case deployment_owner (om_ownerRefs (rs_meta set')) of
                None \<Rightarrow> find_loop cl w ns rs
              | Some dep \<Rightarrow> findPPVPAByDeployment cl w ns dep)))"

definition findPPVPA :: "('q, 'w) client \<Rightarrow> 'w \<Rightarrow> 'q pod \<Rightarrow> go_error + 'q ppvpa option" where
  "findPPVPA cl w p = find_loop cl w (om_namespace (pod_meta p)) (om_ownerRefs (pod_meta p))"

section \<open>Choosing the resources\<close>

fun conditionTrue :: "condition list \<Rightarrow> string \<Rightarrow> bool" where
  "conditionTrue [] t = False"
| "conditionTrue (c # cs) t =
     (if c_type c = t \<and> c_status c = ConditionTrue then True else conditionTrue cs t)"

fun flagged_loop :: "string \<Rightarrow> 'q prr list \<Rightarrow> bool" where
  "flagged_loop uid [] = False"
| "flagged_loop uid (p # ps) =
     (if \<not> owned_by uid (om_ownerRefs (prr_meta p)) then flagged_loop uid ps
      else if conditionTrue (prr_Conditions (prr_Status p)) PRRConditionInfeasible \<or>
              conditionTrue (prr_Conditions (prr_Status p)) PRRConditionAnomalous then True
      else flagged_loop uid ps)"

definition siblingsFlagged :: "('q, 'w) client \<Rightarrow> 'w \<Rightarrow> 'q ppvpa \<Rightarrow> bool" where
  "siblingsFlagged cl w v =
     (case k_list_prrs cl w (om_namespace (ppvpa_meta v)) of
        Inl _ \<Rightarrow> False
      | Inr ps \<Rightarrow> flagged_loop (om_uid (ppvpa_meta v)) ps)"

fun matchContainer :: "'q container_recommendation list \<Rightarrow> string \<Rightarrow> 'q container_recommendation option" where
  "matchContainer [] name = None"
| "matchContainer (r # rs) name = (if cr_ContainerName r = name then Some r else matchContainer rs name)"

fun inject_loop ::
  "bool \<Rightarrow> 'q container_recommendation list \<Rightarrow> 'q container_spec list \<Rightarrow> 'q container_spec list" where
  "inject_loop useUpper chosen [] = []"
| "inject_loop useUpper chosen (c # cs) =
     (case matchContainer chosen (k_name c) of
        None \<Rightarrow> c
      | Some m \<Rightarrow>
          if useUpper then c\<lparr>k_requests := cr_UpperBound m, k_limits := cr_UpperBound m\<rparr>
          else c\<lparr>k_requests := cr_Target m, k_limits := cr_Target m\<rparr>) # inject_loop useUpper chosen cs"

definition Default ::
  "('q, 'w) client \<Rightarrow> 'w \<Rightarrow> 'q pod option \<Rightarrow> 'q pod option \<times> go_error option" where
  "Default cl w obj =
     (case obj of
        None \<Rightarrow> (None, None)
      | Some p \<Rightarrow>
          if om_annotations (pod_meta p) AnnotationSurgePod = Some ''true'' then (Some p, None)
          else
            (case findPPVPA cl w p of
               Inl _ \<Rightarrow> (Some p, None)
             | Inr None \<Rightarrow> (Some p, None)
             | Inr (Some v) \<Rightarrow>
                 (case DefaultRecommendation (ppvpa_Status v) of
                    None \<Rightarrow> (Some p, None)
                  | Some rec \<Rightarrow>
                      (let useUpper = 0 < TemporaryReplicas (ppvpa_Status v) \<or> siblingsFlagged cl w v
                       in (Some (p\<lparr>pod_containers :=
                                  inject_loop useUpper (rec_ContainerRecommendations rec) (pod_containers p)\<rparr>), None)))))"

section \<open>What the webhook does to a pod\<close>

lemma conditionTrue_hasCondition: "conditionTrue cs t = hasCondition cs t"
  by (induction cs) simp_all

lemma flagged_loop_iff:
  "flagged_loop uid ps \<longleftrightarrow>
     (\<exists>p \<in> set ps. owned_by uid (om_ownerRefs (prr_meta p)) \<and>
        (hasCondition (prr_Conditions (prr_Status p)) PRRConditionInfeasible \<or>
         hasCondition (prr_Conditions (prr_Status p)) PRRConditionAnomalous))"
  by (induction ps) (auto simp: conditionTrue_hasCondition)

lemma matchContainer_find: "matchContainer rs name = List.find (\<lambda>r. cr_ContainerName r = name) rs"
  by (induction rs) simp_all

text \<open>The resources a recommendation entry gives a container.\<close>

definition inherited :: "('q, 'w) client \<Rightarrow> 'w \<Rightarrow> 'q ppvpa \<Rightarrow> 'q container_recommendation \<Rightarrow> 'q resource_list" where
  "inherited cl w v r =
     (if 0 < TemporaryReplicas (ppvpa_Status v) \<or>
         (\<exists>ps. k_list_prrs cl w (om_namespace (ppvpa_meta v)) = Inr ps \<and>
            (\<exists>p \<in> set ps. owned_by (om_uid (ppvpa_meta v)) (om_ownerRefs (prr_meta p)) \<and>
               (hasCondition (prr_Conditions (prr_Status p)) PRRConditionInfeasible \<or>
                hasCondition (prr_Conditions (prr_Status p)) PRRConditionAnomalous)))
      then cr_UpperBound r else cr_Target r)"

lemma inherited_upper:
  "(if 0 < TemporaryReplicas (ppvpa_Status v) \<or> siblingsFlagged cl w v then cr_UpperBound r else cr_Target r) =
     inherited cl w v r"
  by (auto simp: inherited_def siblingsFlagged_def flagged_loop_iff split: sum.split)

lemma inject_loop_map:
  "inject_loop (0 < TemporaryReplicas (ppvpa_Status v) \<or> siblingsFlagged cl w v) rs cs =
     map (\<lambda>c. case List.find (\<lambda>r. cr_ContainerName r = k_name c) rs of
                None \<Rightarrow> c
              | Some r \<Rightarrow> c\<lparr>k_requests := inherited cl w v r, k_limits := inherited cl w v r\<rparr>) cs"
  by (induction cs) (auto simp: matchContainer_find inherited_upper [symmetric] split: option.split)

lemma Default_injects:
  assumes "\<not> surge_annotated p" "findPPVPA cl w p = Inr (Some v)" "DefaultRecommendation (ppvpa_Status v) = Some rec"
  shows "Default cl w (Some p) =
    (Some (p\<lparr>pod_containers :=
       map (\<lambda>c. case List.find (\<lambda>r. cr_ContainerName r = k_name c) (rec_ContainerRecommendations rec) of
                  None \<Rightarrow> c
                | Some r \<Rightarrow> c\<lparr>k_requests := inherited cl w v r, k_limits := inherited cl w v r\<rparr>)
           (pod_containers p)\<rparr>), None)"
  using assms by (simp add: Default_def surge_annotated_def Let_def inject_loop_map)

text \<open>
  (C25) State inheritance: a new pod of a workload with a recommendation gets, in every
  container the recommendation names, the entry's upper bound as requests and limits when a
  surge is under way or a sibling is flagged Infeasible or Anomalous, and its target
  otherwise; the first entry of that name counts and other containers are left alone.
\<close>

theorem webhook_injects:
  assumes "\<not> surge_annotated p" "findPPVPA cl w p = Inr (Some v)" "DefaultRecommendation (ppvpa_Status v) = Some rec"
  shows "Default cl w (Some p) =
    (Some (p\<lparr>pod_containers :=
       map (\<lambda>c. case List.find (\<lambda>r. cr_ContainerName r = k_name c) (rec_ContainerRecommendations rec) of
                  None \<Rightarrow> c
                | Some r \<Rightarrow> c\<lparr>k_requests := inherited cl w v r, k_limits := inherited cl w v r\<rparr>)
           (pod_containers p)\<rparr>), None)"
  using assms by (rule Default_injects)

definition demo_advice :: "int recommendation" where
  "demo_advice =
     \<lparr>rec_PodLevelTarget = Map.empty,
      rec_PodLevel = \<lparr>pl_LowerBound = Map.empty, pl_Target = Map.empty, pl_UncappedTarget = Map.empty, pl_UpperBound = Map.empty\<rparr>,
      rec_ContainerRecommendations =
        [\<lparr>cr_ContainerName = ''app'', cr_LowerBound = Map.empty, cr_Target = [''cpu'' \<mapsto> 1],
          cr_UncappedTarget = Map.empty, cr_UpperBound = [''cpu'' \<mapsto> 2]\<rparr>]\<rparr>"

definition demo_advised :: "int recommendation \<Rightarrow> int32 \<Rightarrow> int ppvpa" where
  "demo_advised rec temp =
     (demo_ppvpa temp)\<lparr>ppvpa_Status := (ppvpa_Status (demo_ppvpa temp))\<lparr>DefaultRecommendation := Some rec\<rparr>\<rparr>"

definition demo_advised_cluster :: "int recommendation \<Rightarrow> int32 \<Rightarrow> int cluster" where
  "demo_advised_cluster rec temp = demo_cluster\<lparr>cl_ppvpas := [demo_advised rec temp]\<rparr>"

lemma demo_found:
  "findPPVPA mem_client (demo_advised_cluster rec n) (hd (cl_pods demo_cluster)) = Inr (Some (demo_advised rec n))"
  by (simp add: findPPVPA_def findPPVPAByDeployment_def mem_client_def list_objects_def get_object_def
      demo_advised_cluster_def demo_advised_def demo_cluster_def demo_ppvpa_def demo_spec_def demo_meta_def named_def)

theorem webhook_injects_witness:
  "map_option (\<lambda>p. map k_limits (pod_containers p))
     (fst (Default mem_client (demo_advised_cluster demo_advice 1) (Some (hd (cl_pods demo_cluster))))) = Some [[''cpu'' \<mapsto> 2]]"
proof -
  have s: "\<not> surge_annotated (hd (cl_pods demo_cluster))"
    by (simp add: surge_annotated_def demo_cluster_def demo_meta_def)
  have r: "DefaultRecommendation (ppvpa_Status (demo_advised demo_advice 1)) = Some demo_advice" by (simp add: demo_advised_def)
  show ?thesis
    using webhook_injects [OF s demo_found r]
    by (simp add: demo_advice_def demo_advised_def demo_ppvpa_def inherited_def demo_cluster_def)
qed

text \<open>
  (C39) The webhook fails open: it never rejects a pod, whatever the server answers, and
  admits it unchanged when it is a surge pod, when the autoscaler cannot be read or does not
  exist, or when there is no recommendation yet.
\<close>

theorem webhook_fails_open:
  "snd (Default cl w obj) = None \<and>
   (fst (Default cl w obj) = obj \<or>
    (\<exists>p v rec. obj = Some p \<and> \<not> surge_annotated p \<and> findPPVPA cl w p = Inr (Some v) \<and>
       DefaultRecommendation (ppvpa_Status v) = Some rec))"
  by (auto simp: Default_def surge_annotated_def Let_def split: option.split sum.split)

end
