(* ===== verification/Scheme.thy ===== *)
theory Scheme
  imports Api
begin

text \<open>
  The registration of the API types (\<open>groupversion_info.go\<close> and the \<open>init\<close> functions of package
  \<open>v1alpha1\<close>) and the scheme both run modes start from. The scheme builder of
  controller-runtime and the registration of client-go are parameters; a Go type is its name.
\<close>

section \<open>The scheme library\<close>

record ('b, 's) scheme_lib =
  sl_Builder :: "group_version \<Rightarrow> 'b"
  sl_Register :: "'b \<Rightarrow> string list \<Rightarrow> 'b"
  sl_AddToScheme :: "'b \<Rightarrow> 's \<Rightarrow> 's \<times> go_error option"
  sl_NewScheme :: 's
  sl_clientgo :: "'s \<Rightarrow> 's \<times> go_error option"

text \<open>
  What is relied on: \<open>objs\<close> is the group version of a builder and what was registered with it,
  \<open>known\<close> the types of a scheme. \<open>AddToScheme\<close> without an error adds what was registered;
  nothing is ever removed.
\<close>

definition scheme_laws ::
  "('b, 's) scheme_lib \<Rightarrow> ('b \<Rightarrow> group_version \<times> string list) \<Rightarrow> ('s \<Rightarrow> (group_version \<times> string) set) \<Rightarrow> bool" where
  "scheme_laws lib objs known \<longleftrightarrow>
     (\<forall>gv. objs (sl_Builder lib gv) = (gv, [])) \<and>
     (\<forall>b ks. objs (sl_Register lib b ks) = (fst (objs b), snd (objs b) @ ks)) \<and>
     (\<forall>b s s'. sl_AddToScheme lib b s = (s', None) \<longrightarrow> known s' = known s \<union> {fst (objs b)} \<times> set (snd (objs b)))"

section \<open>Package initialisation\<close>

text \<open>The variable \<open>SchemeBuilder\<close> as it is initialised, before any \<open>init\<close> function has run.\<close>

definition SchemeBuilder :: "('b, 's) scheme_lib \<Rightarrow> 'b" where
  "SchemeBuilder lib = sl_Builder lib SchemeGroupVersion"

definition init_ppvpa :: "('b, 's) scheme_lib \<Rightarrow> 'b \<Rightarrow> 'b" where
  "init_ppvpa lib b = sl_Register lib b [''PerPodVerticalPodAutoscaler'', ''PerPodVerticalPodAutoscalerList'']"

definition init_checkpoint :: "('b, 's) scheme_lib \<Rightarrow> 'b \<Rightarrow> 'b" where
  "init_checkpoint lib b =
     sl_Register lib b [''PerPodVerticalPodAutoscalerCheckpoint'', ''PerPodVerticalPodAutoscalerCheckpointList'']"

definition init_prr :: "('b, 's) scheme_lib \<Rightarrow> 'b \<Rightarrow> 'b" where
  "init_prr lib b = sl_Register lib b [''PodResourceRecommendation'', ''PodResourceRecommendationList'']"

text \<open>
  The \<open>init\<close> functions run in the order of the file names. They change the builder that
  \<open>SchemeBuilder\<close> points to, and \<open>AddToScheme\<close> is a method value bound to that pointer: when it
  is called it sees every registration.
\<close>

definition initialised_builder :: "('b, 's) scheme_lib \<Rightarrow> 'b" where
  "initialised_builder lib = init_prr lib (init_checkpoint lib (init_ppvpa lib (SchemeBuilder lib)))"

definition AddToScheme :: "('b, 's) scheme_lib \<Rightarrow> 's \<Rightarrow> 's \<times> go_error option" where
  "AddToScheme lib s = sl_AddToScheme lib (initialised_builder lib) s"

section \<open>The scheme of a run mode\<close>

text \<open>\<open>utilruntime.Must\<close> panics on an error.\<close>

definition Must :: "'s \<times> go_error option \<Rightarrow> 's go" where
  "Must r = (case r of (s, None) \<Rightarrow> Ret s | (s, Some e) \<Rightarrow> Panic)"

definition mode_scheme :: "('b, 's) scheme_lib \<Rightarrow> 's go" where
  "mode_scheme lib = go_bind (Must (sl_clientgo lib (sl_NewScheme lib))) (\<lambda>s. Must (AddToScheme lib s))"

definition api_types :: "(group_version \<times> string) set" where
  "api_types =
     {GroupVersion} \<times>
       {''PerPodVerticalPodAutoscaler'', ''PerPodVerticalPodAutoscalerList'',
        ''PerPodVerticalPodAutoscalerCheckpoint'', ''PerPodVerticalPodAutoscalerCheckpointList'',
        ''PodResourceRecommendation'', ''PodResourceRecommendationList''}"

lemma Must_Ret: "Must r = Ret s \<longleftrightarrow> r = (s, None)"
  by (cases r) (simp add: Must_def split: option.split)

lemma AddToScheme_knows:
  assumes "scheme_laws lib objs known" "AddToScheme lib s = (s', None)"
  shows "known s' = known s \<union> api_types"
proof -
  have "fst (objs (initialised_builder lib)) = SchemeGroupVersion"
    "set (snd (objs (initialised_builder lib))) = snd ` api_types"
    using assms(1) by (auto simp: scheme_laws_def initialised_builder_def init_ppvpa_def init_checkpoint_def
        init_prr_def SchemeBuilder_def api_types_def)
  moreover have "api_types = {SchemeGroupVersion} \<times> snd ` api_types"
    by (auto simp: api_types_def GroupVersion_def)
  ultimately show ?thesis using assms unfolding AddToScheme_def scheme_laws_def by metis
qed

text \<open>A scheme exists exactly when both registrations succeed, and then it knows the six types.\<close>

lemma mode_scheme_knows:
  assumes "scheme_laws lib objs known" "mode_scheme lib = Ret s"
  shows "api_types \<subseteq> known s"
proof -
  obtain s0 where "AddToScheme lib s0 = (s, None)"
    using assms(2) unfolding mode_scheme_def by (elim go_bind_RetE) (simp add: Must_Ret)
  then show ?thesis using AddToScheme_knows [OF assms(1)] by simp
qed

text \<open>A builder that keeps what it is given, a scheme that is the set of its types.\<close>

definition demo_scheme :: "(group_version \<times> string list, (group_version \<times> string) list) scheme_lib" where
  "demo_scheme =
     \<lparr>sl_Builder = (\<lambda>gv. (gv, [])), sl_Register = (\<lambda>(gv, ks) ks'. (gv, ks @ ks')),
      sl_AddToScheme = (\<lambda>(gv, ks) s. (s @ map (\<lambda>k. (gv, k)) ks, None)), sl_NewScheme = [],
      sl_clientgo = (\<lambda>s. (s, None))\<rparr>"

lemma demo_scheme_laws: "scheme_laws demo_scheme (\<lambda>b. b) set"
  by (auto simp: scheme_laws_def demo_scheme_def)

lemma demo_mode_scheme: "\<exists>s. mode_scheme demo_scheme = Ret s"
  by (simp add: mode_scheme_def Must_def AddToScheme_def demo_scheme_def split: prod.split)

end
