(* ===== verification/Modes.thy ===== *)
theory Modes
  imports Agent Controllers Webhook Scheme
begin

text \<open>
  The command and its two run modes (\<open>cmd/main.go\<close>, package \<open>modes\<close>) and the registration of
  the reconcilers and of the webhook. The manager of controller-runtime and the construction
  of the API clients are parameters; the environment is a function. The flags are taken as
  parsed. A mode that has not returned yet has the outcome \<open>None\<close>.
\<close>

section \<open>Options\<close>

record cli_flags =
  mode :: string
  metricsAddr :: string
  probeAddr :: string
  webhookCertPath :: string
  enableLeaderElection :: bool
  enableWebhooks :: bool
  nodeName :: string
  cgroupRoot :: string
  kubeletConfig :: string

definition default_flags :: cli_flags where
  "default_flags =
     \<lparr>mode = ''manager'', metricsAddr = ''0'', probeAddr = '':8081'', webhookCertPath = [],
      enableLeaderElection = False, enableWebhooks = True, nodeName = [],
      cgroupRoot = ''/sys/fs/cgroup'', kubeletConfig = ''/var/lib/kubelet/config.yaml''\<rparr>"

record manager_options =
  MetricsAddr :: string
  ProbeAddr :: string
  WebhookCertDir :: string
  EnableLeaderElection :: bool
  EnableWebhooks :: bool

record node_agent_options =
  na_NodeName :: string
  na_CgroupRoot :: string
  na_KubeletConfig :: string

section \<open>The manager\<close>

record 's manager_config =
  mc_scheme :: 's
  mc_metrics :: string
  mc_probe :: string
  mc_certDir :: string
  mc_leaderElection :: bool
  mc_leaderElectionID :: string
  mc_nextProtos :: "string list"

record controller_builder =
  cb_for :: string
  cb_owns :: "string list"
  cb_named :: string

record ('s, 'm) manager_lib =
  ml_new :: "'s manager_config \<Rightarrow> go_error + 'm"
  ml_complete :: "'m \<Rightarrow> controller_builder \<Rightarrow> 'm \<times> go_error option"
  ml_webhook :: "'m \<Rightarrow> string \<Rightarrow> 'm \<times> go_error option"
  ml_healthz :: "'m \<Rightarrow> string \<Rightarrow> 'm \<times> go_error option"
  ml_readyz :: "'m \<Rightarrow> string \<Rightarrow> 'm \<times> go_error option"
  ml_start :: "'m \<Rightarrow> 'm \<times> go_error option"

definition ppvpa_SetupWithManager :: "('s, 'm) manager_lib \<Rightarrow> 'm \<Rightarrow> 'm \<times> go_error option" where
  "ppvpa_SetupWithManager lib mgr =
     ml_complete lib mgr \<lparr>cb_for = ''PerPodVerticalPodAutoscaler'', cb_owns = [''PodResourceRecommendation''],
       cb_named = ''perpodverticalpodautoscaler''\<rparr>"

definition prr_SetupWithManager :: "('s, 'm) manager_lib \<Rightarrow> 'm \<Rightarrow> 'm \<times> go_error option" where
  "prr_SetupWithManager lib mgr =
     ml_complete lib mgr \<lparr>cb_for = ''PodResourceRecommendation'', cb_owns = [], cb_named = ''podresourcerecommendation''\<rparr>"

definition checkpoint_SetupWithManager :: "('s, 'm) manager_lib \<Rightarrow> 'm \<Rightarrow> 'm \<times> go_error option" where
  "checkpoint_SetupWithManager lib mgr =
     ml_complete lib mgr \<lparr>cb_for = ''PerPodVerticalPodAutoscaler'', cb_owns = [], cb_named = ''ppvpa-checkpoint''\<rparr>"

definition SetupPodWebhookWithManager :: "('s, 'm) manager_lib \<Rightarrow> 'm \<Rightarrow> 'm \<times> go_error option" where
  "SetupPodWebhookWithManager lib mgr = ml_webhook lib mgr ''Pod''"

definition manager_config_of :: "'s \<Rightarrow> manager_options \<Rightarrow> 's manager_config" where
  "manager_config_of s opts' =
     \<lparr>mc_scheme = s, mc_metrics = MetricsAddr opts', mc_probe = ProbeAddr opts',
      mc_certDir = (if WebhookCertDir opts' \<noteq> [] then WebhookCertDir opts' else []),
      mc_leaderElection = EnableLeaderElection opts', mc_leaderElectionID = ''ppvpa.brycemclachlan.me'',
      mc_nextProtos = [''http/1.1'']\<rparr>"

text \<open>Everything after the scheme has been built.\<close>

definition manager_up ::
  "('s, 'm) manager_lib \<Rightarrow> (string \<Rightarrow> string) \<Rightarrow> 's \<Rightarrow> manager_options \<Rightarrow> 'm option \<times> go_error option" where
  "manager_up lib getenv s opts' =
     (case ml_new lib (manager_config_of s opts') of
        Inl e \<Rightarrow> (None, Some (Wrap ''creating manager'' e))
      | Inr mgr0 \<Rightarrow>
          (case ppvpa_SetupWithManager lib mgr0 of
             (mgr, Some e) \<Rightarrow> (Some mgr, Some (Wrap ''ppvpa controller'' e))
           | (mgr1, None) \<Rightarrow>
          (case prr_SetupWithManager lib mgr1 of
             (mgr, Some e) \<Rightarrow> (Some mgr, Some (Wrap ''prr controller'' e))
           | (mgr2, None) \<Rightarrow>
          (case checkpoint_SetupWithManager lib mgr2 of
             (mgr, Some e) \<Rightarrow> (Some mgr, Some (Wrap ''checkpoint controller'' e))
           | (mgr3, None) \<Rightarrow>
          (case (if EnableWebhooks opts' \<and> getenv ''ENABLE_WEBHOOKS'' \<noteq> ''false''
                 then SetupPodWebhookWithManager lib mgr3 else (mgr3, None)) of
             (mgr, Some e) \<Rightarrow> (Some mgr, Some (Wrap ''pod webhook'' e))
           | (mgr4, None) \<Rightarrow>
          (case ml_healthz lib mgr4 ''healthz'' of
             (mgr, Some e) \<Rightarrow> (Some mgr, Some e)
           | (mgr5, None) \<Rightarrow>
          (case ml_readyz lib mgr5 ''readyz'' of
             (mgr, Some e) \<Rightarrow> (Some mgr, Some e)
           | (mgr6, None) \<Rightarrow>
          (case ml_start lib mgr6 of (mgr, e) \<Rightarrow> (Some mgr, e)))))))))"

definition RunManager ::
  "('b, 's) scheme_lib \<Rightarrow> ('s, 'm) manager_lib \<Rightarrow> (string \<Rightarrow> string) \<Rightarrow> manager_options \<Rightarrow>
   ('m option \<times> go_error option) go" where
  "RunManager sl lib getenv opts' = go_bind (mode_scheme sl) (\<lambda>s. Ret (manager_up lib getenv s opts'))"

section \<open>The node agent\<close>

text \<open>
  What the \<open>select\<close> of \<open>Run\<close> picks next. The context is done when a termination signal has
  arrived; \<open>ctx.Err()\<close> is then \<open>context.Canceled\<close>.
\<close>

datatype 'q selected = Done | Tick "'q event"

fun agent_Run :: "('q, 'w) agent_env \<Rightarrow> 'q agent \<times> 'w \<Rightarrow> 'q selected list \<Rightarrow> go_error option go option" where
  "agent_Run E s [] = None"
| "agent_Run E s (Done # cs) = Some (Ret (Some (Err ''context canceled'')))"
| "agent_Run E s (Tick ev # cs) =
     (case handle E s ev of Panic \<Rightarrow> Some Panic | Ret s' \<Rightarrow> agent_Run E s' cs)"

record 's agent_lib =
  al_kube :: "go_error option"
  al_client :: "'s \<Rightarrow> go_error option"

definition node_name :: "(string \<Rightarrow> string) \<Rightarrow> node_agent_options \<Rightarrow> string" where
  "node_name getenv opts' = (if na_NodeName opts' = [] then getenv ''NODE_NAME'' else na_NodeName opts')"

definition agent_config :: "(string \<Rightarrow> string) \<Rightarrow> node_agent_options \<Rightarrow> config" where
  "agent_config getenv opts' =
     \<lparr>NodeName = node_name getenv opts', CgroupRoot = na_CgroupRoot opts', KubeletConfig = na_KubeletConfig opts',
      SampleInterval = 0, CheckpointEvery = 0\<rparr>"

text \<open>Everything after the scheme has been built.\<close>

definition node_agent_up ::
  "'s agent_lib \<Rightarrow> (string \<Rightarrow> string) \<Rightarrow> node_fs \<Rightarrow> ('q, 'w) agent_env \<Rightarrow> 'w \<Rightarrow> 's \<Rightarrow> node_agent_options \<Rightarrow>
   'q selected list \<Rightarrow> go_error option go option" where
  "node_agent_up lib getenv fs E w s opts' cs =
     (case al_kube lib of
        Some e \<Rightarrow> Some (Ret (Some (Wrap ''kube client'' e)))
      | None \<Rightarrow>
          (case al_client lib s of
             Some e \<Rightarrow> Some (Ret (Some (Wrap ''controller-runtime client'' e)))
           | None \<Rightarrow>
               if node_name getenv opts' = [] then
                 Some (Ret (Some (Err ''--node-name or NODE_NAME env required'')))
               else
                 (case agent_New fs (agent_config getenv opts') of
                    Inl e \<Rightarrow> Some (Ret (Some (Wrap ''agent'' e)))
                  | Inr a \<Rightarrow> agent_Run E (a, w) cs)))"

definition RunNodeAgent ::
  "('b, 's) scheme_lib \<Rightarrow> 's agent_lib \<Rightarrow> (string \<Rightarrow> string) \<Rightarrow> node_fs \<Rightarrow> ('q, 'w) agent_env \<Rightarrow> 'w \<Rightarrow>
   node_agent_options \<Rightarrow> 'q selected list \<Rightarrow> go_error option go option" where
  "RunNodeAgent sl lib getenv fs E w opts' cs =
     (case mode_scheme sl of Panic \<Rightarrow> Some Panic | Ret s \<Rightarrow> node_agent_up lib getenv fs E w s opts' cs)"

section \<open>The command\<close>

text \<open>The exit status of a mode that returned.\<close>

definition exit_of :: "go_error option go option \<Rightarrow> nat go option" where
  "exit_of r =
     (case r of
        None \<Rightarrow> None
      | Some Panic \<Rightarrow> Some Panic
      | Some (Ret None) \<Rightarrow> Some (Ret 0)
      | Some (Ret (Some _)) \<Rightarrow> Some (Ret 1))"

definition main ::
  "('b, 's) scheme_lib \<Rightarrow> ('s, 'm) manager_lib \<Rightarrow> 's agent_lib \<Rightarrow> (string \<Rightarrow> string) \<Rightarrow> node_fs \<Rightarrow>
   ('q, 'w) agent_env \<Rightarrow> 'w \<Rightarrow> 'q selected list \<Rightarrow> cli_flags \<Rightarrow> nat go option" where
  "main sl ml al getenv fs E w cs f =
     (if mode f = ''manager'' then
        exit_of (Some (go_bind (RunManager sl ml getenv
          \<lparr>MetricsAddr = metricsAddr f, ProbeAddr = probeAddr f, WebhookCertDir = webhookCertPath f,
           EnableLeaderElection = enableLeaderElection f, EnableWebhooks = enableWebhooks f\<rparr>) (\<lambda>r. Ret (snd r))))
      else if mode f = ''node-agent'' then
        exit_of (RunNodeAgent sl al getenv fs E w
          \<lparr>na_NodeName = nodeName f, na_CgroupRoot = cgroupRoot f, na_KubeletConfig = kubeletConfig f\<rparr> cs)
      else Some (Ret 2))"


section \<open>Exit status\<close>

lemma agent_Run_not_clean: "agent_Run E s cs \<noteq> Some (Ret None)"
  by (induction E s cs rule: agent_Run.induct) (auto split: go.split)

text \<open>
  The node agent never exits with status 0: \<open>Run\<close> returns the error of the cancelled
  context, so an orderly shutdown is reported like a failure, with status 1. The status is
  2 exactly for an unknown mode, in which nothing is started.
\<close>

theorem main_exit_status:
  "(mode f = ''node-agent'' \<longrightarrow> main sl ml al getenv fs E w cs f \<notin> {Some (Ret 0), Some (Ret 2)}) \<and>
   (mode f = ''manager'' \<longrightarrow>
      main sl ml al getenv fs E w cs f \<in> {Some (Ret 0), Some (Ret 1), Some Panic} \<and>
      (main sl ml al getenv fs E w cs f = Some Panic \<longleftrightarrow> mode_scheme sl = Panic)) \<and>
   (mode f \<notin> {''manager'', ''node-agent''} \<longrightarrow> main sl ml al getenv fs E w cs f = Some (Ret 2))"
proof -
  have "RunNodeAgent sl al getenv fs E w opts' cs \<noteq> Some (Ret None)" for opts'
    by (auto simp: RunNodeAgent_def node_agent_up_def agent_Run_not_clean split: option.split sum.split go.split)
  then show ?thesis
    by (cases "mode_scheme sl")
      (auto simp: main_def RunManager_def exit_of_def split: option.split_asm option.split go.split_asm)
qed

text \<open>A node agent that is told to stop right after it started.\<close>

theorem main_exit_status_witness:
  "main demo_scheme undefined \<lparr>al_kube = None, al_client = \<lambda>_. None\<rparr> (\<lambda>_. ''n1'') demo_fs demo_env 0 [Done]
     (default_flags\<lparr>mode := ''node-agent'', cgroupRoot := [], kubeletConfig := []\<rparr>) = Some (Ret 1) \<and>
   main demo_scheme undefined \<lparr>al_kube = None, al_client = \<lambda>_. None\<rparr> (\<lambda>_. ''n1'') demo_fs demo_env 0 [Done]
     (default_flags\<lparr>mode := ''node-agent'', cgroupRoot := [], kubeletConfig := []\<rparr>) \<notin> {Some (Ret 0), Some (Ret 2)}"
proof -
  let ?f = "default_flags\<lparr>mode := ''node-agent'', cgroupRoot := [], kubeletConfig := []\<rparr>"
  obtain s where "mode_scheme demo_scheme = Ret s" using demo_mode_scheme by blast
  then have "main demo_scheme undefined \<lparr>al_kube = None, al_client = \<lambda>_. None\<rparr> (\<lambda>_. ''n1'') demo_fs demo_env 0 [Done] ?f =
      Some (Ret 1)"
    by (simp add: main_def exit_of_def RunNodeAgent_def node_agent_up_def node_name_def agent_config_def default_flags_def
        agent_New_def ProbeNode_def demo_fs_def Let_def)
  then show ?thesis
    using main_exit_status [of ?f demo_scheme undefined "\<lparr>al_kube = None, al_client = \<lambda>_. None\<rparr>" "\<lambda>_. ''n1''" demo_fs demo_env 0 "[Done]"]
    by (simp add: default_flags_def)
qed

section \<open>Start-up\<close>

text \<open>
  What is relied on of the manager library, seen through whether the manager is started and
  which registrations and which scheme it holds: only \<open>Start\<close> starts it, an accepted
  registration is kept, and the scheme is the one it was created with.
\<close>

definition manager_laws :: "('s, 'm) manager_lib \<Rightarrow> ('m \<Rightarrow> bool) \<Rightarrow> ('m \<Rightarrow> string set) \<Rightarrow> ('m \<Rightarrow> 's) \<Rightarrow> bool" where
  "manager_laws lib started regs scheme \<longleftrightarrow>
     (\<forall>c mgr. ml_new lib c = Inr mgr \<longrightarrow> \<not> started mgr \<and> scheme mgr = mc_scheme c) \<and>
     (\<forall>mgr b mgr' e. ml_complete lib mgr b = (mgr', e) \<longrightarrow>
        started mgr' = started mgr \<and> scheme mgr' = scheme mgr \<and> regs mgr \<subseteq> regs mgr' \<and> (e = None \<longrightarrow> cb_named b \<in> regs mgr')) \<and>
     (\<forall>mgr k mgr' e. ml_webhook lib mgr k = (mgr', e) \<longrightarrow>
        started mgr' = started mgr \<and> scheme mgr' = scheme mgr \<and> regs mgr \<subseteq> regs mgr' \<and> (e = None \<longrightarrow> ''webhook/'' @ k \<in> regs mgr')) \<and>
     (\<forall>mgr n. started (fst (ml_healthz lib mgr n)) = started mgr \<and> scheme (fst (ml_healthz lib mgr n)) = scheme mgr \<and> regs mgr \<subseteq> regs (fst (ml_healthz lib mgr n))) \<and>
     (\<forall>mgr n. started (fst (ml_readyz lib mgr n)) = started mgr \<and> scheme (fst (ml_readyz lib mgr n)) = scheme mgr \<and> regs mgr \<subseteq> regs (fst (ml_readyz lib mgr n))) \<and>
     (\<forall>mgr. scheme (fst (ml_start lib mgr)) = scheme mgr \<and> regs mgr \<subseteq> regs (fst (ml_start lib mgr)))"

lemma manager_lawsD:
  assumes "manager_laws lib started regs scheme"
  shows "ml_new lib c = Inr mgr \<Longrightarrow> \<not> started mgr \<and> scheme mgr = mc_scheme c"
    and "ml_complete lib mgr b = (mgr', e) \<Longrightarrow>
           started mgr' = started mgr \<and> scheme mgr' = scheme mgr \<and> regs mgr \<subseteq> regs mgr' \<and> (e = None \<longrightarrow> cb_named b \<in> regs mgr')"
    and "ml_webhook lib mgr k = (mgr', e) \<Longrightarrow>
           started mgr' = started mgr \<and> scheme mgr' = scheme mgr \<and> regs mgr \<subseteq> regs mgr' \<and> (e = None \<longrightarrow> ''webhook/'' @ k \<in> regs mgr')"
    and "started (fst (ml_healthz lib mgr n)) = started mgr \<and> scheme (fst (ml_healthz lib mgr n)) = scheme mgr \<and> regs mgr \<subseteq> regs (fst (ml_healthz lib mgr n))"
    and "started (fst (ml_readyz lib mgr n)) = started mgr \<and> scheme (fst (ml_readyz lib mgr n)) = scheme mgr \<and> regs mgr \<subseteq> regs (fst (ml_readyz lib mgr n))"
    and "scheme (fst (ml_start lib mgr)) = scheme mgr \<and> regs mgr \<subseteq> regs (fst (ml_start lib mgr))"
  using assms by (simp_all add: manager_laws_def)

lemma manager_up_run:
  assumes "ml_new lib (manager_config_of s opts') = Inr m0"
    and "ppvpa_SetupWithManager lib m0 = (m1, e1)" "prr_SetupWithManager lib m1 = (m2, e2)"
    and "checkpoint_SetupWithManager lib m2 = (m3, e3)"
    and "(if EnableWebhooks opts' \<and> getenv ''ENABLE_WEBHOOKS'' \<noteq> ''false''
          then SetupPodWebhookWithManager lib m3 else (m3, None)) = (m4, e4)"
    and "ml_healthz lib m4 ''healthz'' = (m5, e5)" "ml_readyz lib m5 ''readyz'' = (m6, e6)" "ml_start lib m6 = (m7, e7)"
  shows "manager_up lib getenv s opts' =
    (if e1 \<noteq> None then (Some m1, map_option (Wrap ''ppvpa controller'') e1)
     else if e2 \<noteq> None then (Some m2, map_option (Wrap ''prr controller'') e2)
     else if e3 \<noteq> None then (Some m3, map_option (Wrap ''checkpoint controller'') e3)
     else if e4 \<noteq> None then (Some m4, map_option (Wrap ''pod webhook'') e4)
     else if e5 \<noteq> None then (Some m5, e5) else if e6 \<noteq> None then (Some m6, e6) else (Some m7, e7))"
  unfolding manager_up_def assms sum.case
  by (cases e1; cases e2; cases e3; cases e4; cases e5; cases e6) (simp_all add: assms)

lemma manager_up_complete:
  assumes "manager_laws lib started regs scheme" "manager_up lib getenv s opts' = (Some mgr, e)" "started mgr"
  shows "scheme mgr = s \<and>
    {''perpodverticalpodautoscaler'', ''podresourcerecommendation'', ''ppvpa-checkpoint''} \<subseteq> regs mgr \<and>
    (EnableWebhooks opts' \<and> getenv ''ENABLE_WEBHOOKS'' \<noteq> ''false'' \<longrightarrow> ''webhook/Pod'' \<in> regs mgr)"
proof -
  note L = manager_lawsD [OF assms(1)]
  obtain m0 where m0: "ml_new lib (manager_config_of s opts') = Inr m0"
    using assms(2) by (auto simp: manager_up_def split: sum.split_asm)
  obtain m1 e1 where m1: "ppvpa_SetupWithManager lib m0 = (m1, e1)" by fastforce
  obtain m2 e2 where m2: "prr_SetupWithManager lib m1 = (m2, e2)" by fastforce
  obtain m3 e3 where m3: "checkpoint_SetupWithManager lib m2 = (m3, e3)" by fastforce
  let ?on = "EnableWebhooks opts' \<and> getenv ''ENABLE_WEBHOOKS'' \<noteq> ''false''"
  obtain m4 e4 where m4: "(if ?on then SetupPodWebhookWithManager lib m3 else (m3, None)) = (m4, e4)" by fastforce
  obtain m5 e5 where m5: "ml_healthz lib m4 ''healthz'' = (m5, e5)" by fastforce
  obtain m6 e6 where m6: "ml_readyz lib m5 ''readyz'' = (m6, e6)" by fastforce
  obtain m7 e7 where m7: "ml_start lib m6 = (m7, e7)" by fastforce
  have s1: "\<not> started m1 \<and> scheme m1 = s \<and> (e1 = None \<longrightarrow> ''perpodverticalpodautoscaler'' \<in> regs m1)"
    using L(1) [OF m0] L(2) [OF m1 [unfolded ppvpa_SetupWithManager_def]]
    by (simp add: manager_config_of_def)
  have s2: "\<not> started m2 \<and> scheme m2 = s \<and> regs m1 \<subseteq> regs m2 \<and> (e2 = None \<longrightarrow> ''podresourcerecommendation'' \<in> regs m2)"
    using s1 L(2) [OF m2 [unfolded prr_SetupWithManager_def]] by simp
  have s3: "\<not> started m3 \<and> scheme m3 = s \<and> regs m2 \<subseteq> regs m3 \<and> (e3 = None \<longrightarrow> ''ppvpa-checkpoint'' \<in> regs m3)"
    using s2 L(2) [OF m3 [unfolded checkpoint_SetupWithManager_def]] by simp
  have s4: "\<not> started m4 \<and> scheme m4 = s \<and> regs m3 \<subseteq> regs m4 \<and> (?on \<longrightarrow> e4 = None \<longrightarrow> ''webhook/Pod'' \<in> regs m4)"
    using s3 m4 L(3) [of m3 "''Pod''" m4 e4] by (auto simp: SetupPodWebhookWithManager_def split: if_split_asm)
  have s5: "\<not> started m5 \<and> scheme m5 = s \<and> regs m4 \<subseteq> regs m5" using s4 L(4) [of m4 "''healthz''"] m5 by simp
  have s6: "\<not> started m6 \<and> scheme m6 = s \<and> regs m5 \<subseteq> regs m6" using s5 L(5) [of m5 "''readyz''"] m6 by simp
  have s7: "scheme m7 = s \<and> regs m6 \<subseteq> regs m7" using s6 L(6) [of m6] m7 by simp
  note run = manager_up_run [where getenv = getenv, OF m0 m1 m2 m3 m4 m5 m6 m7]
  have n: "\<not> started m1" "\<not> started m2" "\<not> started m3" "\<not> started m4" "\<not> started m5" "\<not> started m6"
    using s1 s2 s3 s4 s5 s6 by simp_all
  have "e1 = None \<and> e2 = None \<and> e3 = None \<and> e4 = None \<and> mgr = m7"
    using assms(2,3) n unfolding run by (auto split: if_split_asm)
  note ok = this
  have "regs m4 \<subseteq> regs m7" using s5 s6 s7 by (meson order_trans)
  moreover from this have "regs m3 \<subseteq> regs m7" "regs m2 \<subseteq> regs m7" "regs m1 \<subseteq> regs m7"
    using s2 s3 s4 by (meson order_trans)+
  moreover have "''perpodverticalpodautoscaler'' \<in> regs m1" "''podresourcerecommendation'' \<in> regs m2"
    "''ppvpa-checkpoint'' \<in> regs m3" "?on \<longrightarrow> ''webhook/Pod'' \<in> regs m4"
    using s1 s2 s3 s4 ok by simp_all
  moreover have "scheme m7 = s" using s7 by simp
  ultimately show ?thesis using ok by blast
qed

text \<open>
  (C26) The control plane only starts complete: when the manager has been started, its scheme
  knows the six types of the API group, all three controllers are registered, and the webhook
  too unless it is switched off by the option or the environment.
\<close>

theorem manager_starts_complete:
  assumes "scheme_laws sl objs known" "manager_laws lib started regs scheme"
    and "RunManager sl lib getenv opts' = Ret (Some mgr, e)" "started mgr"
  shows "api_types \<subseteq> known (scheme mgr) \<and>
    {''perpodverticalpodautoscaler'', ''podresourcerecommendation'', ''ppvpa-checkpoint''} \<subseteq> regs mgr \<and>
    (EnableWebhooks opts' \<and> getenv ''ENABLE_WEBHOOKS'' \<noteq> ''false'' \<longrightarrow> ''webhook/Pod'' \<in> regs mgr)"
proof -
  obtain s where s: "mode_scheme sl = Ret s" and up: "manager_up lib getenv s opts' = (Some mgr, e)"
    using assms(3) unfolding RunManager_def by (elim go_bind_RetE) simp
  from manager_up_complete [OF assms(2) up assms(4)] show ?thesis
    using mode_scheme_knows [OF assms(1) s] by simp
qed

text \<open>A manager that accepts everything and records it.\<close>

definition demo_manager :: "('s, bool \<times> 's \<times> string list) manager_lib" where
  "demo_manager =
     \<lparr>ml_new = (\<lambda>c. Inr (False, mc_scheme c, [])), ml_complete = (\<lambda>(s, k, xs) b. ((s, k, cb_named b # xs), None)),
      ml_webhook = (\<lambda>(s, k, xs) n. ((s, k, (''webhook/'' @ n) # xs), None)),
      ml_healthz = (\<lambda>mgr _. (mgr, None)), ml_readyz = (\<lambda>mgr _. (mgr, None)),
      ml_start = (\<lambda>(_, k, xs). ((True, k, xs), None))\<rparr>"

definition demo_manager_options :: manager_options where
  "demo_manager_options =
     \<lparr>MetricsAddr = ''0'', ProbeAddr = '':8081'', WebhookCertDir = [], EnableLeaderElection = False, EnableWebhooks = True\<rparr>"

theorem manager_starts_complete_witness:
  "\<exists>k xs. RunManager demo_scheme demo_manager (\<lambda>_. []) demo_manager_options = Ret (Some (True, k, xs), None) \<and>
     api_types \<subseteq> set k \<and> ''webhook/Pod'' \<in> set xs \<and>
     {''perpodverticalpodautoscaler'', ''podresourcerecommendation'', ''ppvpa-checkpoint''} \<subseteq> set xs"
proof -
  have l: "manager_laws demo_manager fst (\<lambda>mgr. set (snd (snd mgr))) (\<lambda>mgr. fst (snd mgr))"
    by (auto simp: manager_laws_def demo_manager_def)
  obtain k where "mode_scheme demo_scheme = Ret k" using demo_mode_scheme by blast
  then obtain xs where r: "RunManager demo_scheme demo_manager (\<lambda>_. []) demo_manager_options = Ret (Some (True, k, xs), None)"
    by (simp add: RunManager_def manager_up_def demo_manager_def demo_manager_options_def ppvpa_SetupWithManager_def
        prr_SetupWithManager_def checkpoint_SetupWithManager_def SetupPodWebhookWithManager_def manager_config_of_def)
  show ?thesis using manager_starts_complete [OF demo_scheme_laws l r] r by (simp add: demo_manager_options_def)
qed

end
