(* ===== verification/TestUtils.thy ===== *)
theory TestUtils
  imports GoText
begin

text \<open>
  The helpers of the end-to-end tests, \<open>test/utils/utils.go\<close>: running commands in the project
  directory, installing and detecting cert-manager, loading an image into a kind cluster, and
  uncommenting a block of a file. The operating system is the parameter \<open>os_api\<close>: working
  directory, environment, files, the combined output of a command and the test log. Messages
  of errors are the text of the format without its operands.
\<close>

section \<open>Strings\<close>

text \<open>\<open>strings.Index\<close>, \<open>strings.TrimPrefix\<close>, \<open>strings.ReplaceAll\<close> and \<open>strings.SplitSeq\<close> at newlines.\<close>

fun str_index :: "string \<Rightarrow> string \<Rightarrow> nat option" where
  "str_index [] p = (if p = [] then Some 0 else None)"
| "str_index (c # cs) p = (if has_prefix (c # cs) p then Some 0 else map_option Suc (str_index cs p))"

definition TrimPrefix :: "string \<Rightarrow> string \<Rightarrow> string" where
  "TrimPrefix s p = (if has_prefix s p then drop (length p) s else s)"

function replace_text :: "string \<Rightarrow> string \<Rightarrow> string \<Rightarrow> string" where
  "replace_text s old new =
     (case s of
        [] \<Rightarrow> []
      | c # cs \<Rightarrow>
          if old \<noteq> [] \<and> has_prefix s old then new @ replace_text (drop (length old) s) old new
          else c # replace_text cs old new)"
  by pat_completeness auto
termination
  by (relation "measure (\<lambda>(s, _, _). length s)") auto

declare replace_text.simps [simp del]

fun split_lines :: "string \<Rightarrow> string \<Rightarrow> string list" where
  "split_lines cur [] = [cur]"
| "split_lines cur (c # cs) = (if c = newline then cur # split_lines [] cs else split_lines (cur @ [c]) cs)"

section \<open>Commands\<close>

record cmd =
  cmd_Args :: "string list"
  cmd_Dir :: string
  cmd_Env :: "string list"

definition Command :: "string \<Rightarrow> string list \<Rightarrow> cmd" where
  "Command name args = \<lparr>cmd_Args = name # args, cmd_Dir = [], cmd_Env = []\<rparr>"

datatype log_line = Warning go_error | ChdirDir go_error | Running string

record 'w os_api =
  os_Getwd :: "'w \<Rightarrow> string \<times> go_error option"
  os_Chdir :: "'w \<Rightarrow> string \<Rightarrow> 'w \<times> go_error option"
  os_Environ :: "'w \<Rightarrow> string list"
  os_LookupEnv :: "'w \<Rightarrow> string \<Rightarrow> string option"
  os_CombinedOutput :: "'w \<Rightarrow> cmd \<Rightarrow> 'w \<times> string \<times> go_error option"
  os_ReadFile :: "'w \<Rightarrow> string \<Rightarrow> go_error + string"
  os_WriteFile :: "'w \<Rightarrow> string \<Rightarrow> string \<Rightarrow> 'w \<times> go_error option"
  os_log :: "'w \<Rightarrow> log_line \<Rightarrow> 'w"

definition warnError :: "'w os_api \<Rightarrow> 'w \<Rightarrow> go_error \<Rightarrow> 'w" where
  "warnError os w e = os_log os w (Warning e)"

definition GetProjectDir :: "'w os_api \<Rightarrow> 'w \<Rightarrow> string \<times> go_error option" where
  "GetProjectDir os w =
     (case os_Getwd os w of
        (wd, Some e) \<Rightarrow> (wd, Some (Wrap ''failed to get current working directory'' e))
      | (wd, None) \<Rightarrow> (replace_text wd ''/test/e2e'' [], None))"

definition Run :: "'w os_api \<Rightarrow> 'w \<Rightarrow> cmd \<Rightarrow> 'w \<times> string \<times> go_error option" where
  "Run os w c =
     (let (dir, _) = GetProjectDir os w;
          c1 = c\<lparr>cmd_Dir := dir\<rparr>;
          w1 = (case os_Chdir os w (cmd_Dir c1) of (w', None) \<Rightarrow> w' | (w', Some e) \<Rightarrow> os_log os w' (ChdirDir e));
          c2 = c1\<lparr>cmd_Env := os_Environ os w1 @ [''GO111MODULE=on'']\<rparr>;
          command = unwords (cmd_Args c2);
          w2 = os_log os w1 (Running command)
      in case os_CombinedOutput os w2 c2 of
           (w3, output, Some e) \<Rightarrow> (w3, output, Some (Wrap ''failed with error'' e))
         | (w3, output, None) \<Rightarrow> (w3, output, None))"

section \<open>cert-manager and kind\<close>

definition certmanagerVersion :: string where "certmanagerVersion = ''v1.20.2''"

definition certmanagerURL :: string where
  "certmanagerURL =
     ''https://github.com/cert-manager/cert-manager/releases/download/'' @ certmanagerVersion @ ''/cert-manager.yaml''"

definition defaultKindBinary :: string where "defaultKindBinary = ''kind''"

definition defaultKindCluster :: string where "defaultKindCluster = ''kind''"

definition run_warn :: "'w os_api \<Rightarrow> 'w \<Rightarrow> cmd \<Rightarrow> 'w" where
  "run_warn os w c = (case Run os w c of (w', _, None) \<Rightarrow> w' | (w', _, Some e) \<Rightarrow> warnError os w' e)"

definition UninstallCertManager :: "'w os_api \<Rightarrow> 'w \<Rightarrow> 'w" where
  "UninstallCertManager os w =
     (let w1 = run_warn os w (Command ''kubectl'' [''delete'', ''-f'', certmanagerURL])
      in foldl (\<lambda>w' lease. run_warn os w' (Command ''kubectl'' [''delete'', ''lease'', lease, ''-n'', ''kube-system'',
             ''--ignore-not-found'', ''--force'', ''--grace-period=0'']))
           w1 [''cert-manager-cainjector-leader-election'', ''cert-manager-controller''])"

definition InstallCertManager :: "'w os_api \<Rightarrow> 'w \<Rightarrow> 'w \<times> go_error option" where
  "InstallCertManager os w =
     (case Run os w (Command ''kubectl'' [''apply'', ''-f'', certmanagerURL]) of
        (w1, _, Some e) \<Rightarrow> (w1, Some e)
      | (w1, _, None) \<Rightarrow>
          (case Run os w1 (Command ''kubectl'' [''wait'', ''deployment.apps/cert-manager-webhook'', ''--for'',
                  ''condition=Available'', ''--namespace'', ''cert-manager'', ''--timeout'', ''5m'']) of
             (w2, _, e) \<Rightarrow> (w2, e)))"

definition certManagerCRDs :: "string list" where
  "certManagerCRDs =
     [''certificates.cert-manager.io'', ''issuers.cert-manager.io'', ''clusterissuers.cert-manager.io'',
      ''certificaterequests.cert-manager.io'', ''orders.acme.cert-manager.io'', ''challenges.acme.cert-manager.io'']"

definition GetNonEmptyLines :: "string \<Rightarrow> string list" where
  "GetNonEmptyLines output = filter (\<lambda>element. element \<noteq> []) (split_lines [] output)"

definition IsCertManagerCRDsInstalled :: "'w os_api \<Rightarrow> 'w \<Rightarrow> 'w \<times> bool" where
  "IsCertManagerCRDsInstalled os w =
     (case Run os w (Command ''kubectl'' [''get'', ''crds'']) of
        (w', _, Some _) \<Rightarrow> (w', False)
      | (w', output, None) \<Rightarrow>
          (let crdList = GetNonEmptyLines output
           in (w', list_ex (\<lambda>crd. list_ex (\<lambda>line. Contains line crd) crdList) certManagerCRDs)))"

definition LoadImageToKindClusterWithName :: "'w os_api \<Rightarrow> 'w \<Rightarrow> string \<Rightarrow> 'w \<times> go_error option" where
  "LoadImageToKindClusterWithName os w name =
     (let cluster = (case os_LookupEnv os w ''KIND_CLUSTER'' of None \<Rightarrow> defaultKindCluster | Some v \<Rightarrow> v);
          kindOptions = [''load'', ''docker-image'', name, ''--name'', cluster];
          kindBinary = (case os_LookupEnv os w ''KIND'' of None \<Rightarrow> defaultKindBinary | Some v \<Rightarrow> v)
      in case Run os w (Command kindBinary kindOptions) of (w', _, e) \<Rightarrow> (w', e))"

section \<open>Uncommenting\<close>

text \<open>
  The loop over the scanned lines: each without the prefix, newlines only between lines. The
  error of the scanner is not looked at, and writing to a \<open>bytes.Buffer\<close> does not fail.
\<close>

fun uncomment_loop :: "string \<Rightarrow> string \<Rightarrow> string list \<Rightarrow> string" where
  "uncomment_loop prefix l [] = TrimPrefix l prefix"
| "uncomment_loop prefix l (l' # ls) = TrimPrefix l prefix @ [newline] @ uncomment_loop prefix l' ls"

definition UncommentCode :: "'w os_api \<Rightarrow> 'w \<Rightarrow> string \<Rightarrow> string \<Rightarrow> string \<Rightarrow> 'w \<times> go_error option" where
  "UncommentCode os w filename target prefix =
     (case os_ReadFile os w filename of
        Inl e \<Rightarrow> (w, Some (Wrap ''failed to read file'' e))
      | Inr content \<Rightarrow>
          (case str_index content target of
             None \<Rightarrow> (w, Some (Err ''unable to find the code to be uncommented''))
           | Some idx \<Rightarrow>
               (case fst (scan_lines target) of
                  [] \<Rightarrow> (w, None)
                | l # ls \<Rightarrow>
                    (case os_WriteFile os w filename
                            (take idx content @ uncomment_loop prefix l ls @ drop (idx + length target) content) of
                       (w', None) \<Rightarrow> (w', None)
                     | (w', Some e) \<Rightarrow> (w', Some (Wrap ''failed to write file'' e))))))"

section \<open>Searching\<close>

lemma has_prefix_append [simp]: "has_prefix (p @ s) p"
  by (induction p) simp_all

lemma has_prefix_iff: "has_prefix s p \<longleftrightarrow> (\<exists>r. s = p @ r)"
  by (induction s p rule: has_prefix.induct) auto

lemma Contains_iff: "Contains s p \<longleftrightarrow> (\<exists>u v. s = u @ p @ v)"
proof (induction s)
  case (Cons c cs)
  have "(\<exists>u v. c # cs = u @ p @ v) \<longleftrightarrow> (\<exists>v. c # cs = p @ v) \<or> (\<exists>u v. cs = u @ p @ v)"
    by (metis append_Cons append_Nil list.exhaust list.inject)
  then show ?case using Cons by (simp add: has_prefix_iff)
qed simp

lemma str_index_Some: "str_index s p = Some i \<Longrightarrow> \<exists>r. s = take i s @ p @ r \<and> i \<le> length s"
proof (induction s arbitrary: i)
  case (Cons c cs)
  then show ?case by (fastforce simp: has_prefix_iff split: if_splits)
qed (simp split: if_splits)

lemma str_index_None: "str_index s p = None \<longleftrightarrow> \<not> Contains s p"
  by (induction s) simp_all

text \<open>A text without newlines occurs in some line exactly when it occurs in the whole.\<close>

lemma Contains_newline:
  assumes "newline \<notin> set p"
  shows "Contains (a @ newline # b) p \<longleftrightarrow> Contains a p \<or> Contains b p"
proof
  assume "Contains (a @ newline # b) p"
  then obtain u v where e: "a @ newline # b = u @ p @ v" by (auto simp: Contains_iff)
  show "Contains a p \<or> Contains b p"
  proof (cases "length u \<le> length a")
    case True
    then obtain x where x: "a = u @ x" using e by (auto simp: append_eq_append_conv2)
    then have "x @ newline # b = p @ v" using e by simp
    moreover have "length p \<le> length x"
      using assms calculation by (cases "length p \<le> length x") (auto simp: append_eq_append_conv2 Cons_eq_append_conv)
    ultimately obtain y where "x = p @ y" by (auto simp: append_eq_append_conv2)
    then show ?thesis using x by (auto simp: Contains_iff)
  next
    case False
    then obtain x where "u = a @ newline # x" using e by (auto simp: append_eq_append_conv2 Cons_eq_append_conv)
    then show ?thesis using e by (auto simp: Contains_iff)
  qed
next
  assume "Contains a p \<or> Contains b p"
  then show "Contains (a @ newline # b) p" unfolding Contains_iff by (metis append.assoc append_Cons)
qed

lemma split_lines_Contains:
  "newline \<notin> set p \<Longrightarrow> newline \<notin> set cur \<Longrightarrow>
   (\<exists>m \<in> set (split_lines cur s). Contains m p) \<longleftrightarrow> Contains (cur @ s) p"
  by (induction s arbitrary: cur) (auto simp: Contains_newline)

lemma non_empty_lines_Contains:
  assumes "newline \<notin> set p" "p \<noteq> []"
  shows "list_ex (\<lambda>l. Contains l p) (GetNonEmptyLines s) \<longleftrightarrow> Contains s p"
proof -
  have "list_ex (\<lambda>l. Contains l p) (GetNonEmptyLines s) \<longleftrightarrow> (\<exists>m \<in> set (split_lines [] s). Contains m p)"
    using assms(2) by (auto simp: GetNonEmptyLines_def list_ex_iff Contains_iff)
  then show ?thesis using split_lines_Contains [OF assms(1), of "[]" s] by simp
qed

section \<open>Lines\<close>

fun join_lines :: "string list \<Rightarrow> string" where
  "join_lines [] = []"
| "join_lines [l] = l"
| "join_lines (l # m # ls) = l @ newline # join_lines (m # ls)"

lemma scan_lines_last:
  assumes "line_ok l" "l \<noteq> []"
  shows "scan_lines l = ([l], None)"
proof -
  have t: "takeWhile (\<lambda>c. c \<noteq> newline) l = l" "dropWhile (\<lambda>c. c \<noteq> newline) l = []"
    using assms(1) by (auto simp: line_ok_def takeWhile_eq_all_conv dropWhile_eq_Nil_conv)
  show ?thesis
    using assms by (subst scan_lines.simps) (simp add: t line_ok_def drop_cr_def Let_def scan_lines.simps [of "[]"])
qed

lemma scan_join_lines:
  "list_all (\<lambda>l. line_ok l \<and> l \<noteq> []) ls \<Longrightarrow> scan_lines (join_lines ls) = (ls, None)"
  by (induction ls rule: join_lines.induct) (simp_all add: scan_lines_last scan_lines_step, simp add: scan_lines.simps)

lemma uncomment_lines:
  "uncomment_loop prefix (prefix @ l) (map (\<lambda>l. prefix @ l) ls) = join_lines (l # ls)"
  by (induction ls arbitrary: l) (simp_all add: TrimPrefix_def)

section \<open>Properties\<close>

text \<open>Writing the file, with the error wrapped.\<close>

abbreviation written :: "'w os_api \<Rightarrow> 'w \<Rightarrow> string \<Rightarrow> string \<Rightarrow> 'w \<times> go_error option" where
  "written os w f text \<equiv> (case os_WriteFile os w f text of (w', e) \<Rightarrow> (w', map_option (Wrap ''failed to write file'') e))"

lemma UncommentCode_lines:
  assumes "os_ReadFile os w f = Inr content" "str_index content target = Some i"
    and "fst (scan_lines target) = map (\<lambda>l. prefix @ l) ls" "ls \<noteq> []"
  shows "\<exists>post. content = take i content @ target @ post \<and>
    UncommentCode os w f target prefix = written os w f (take i content @ join_lines ls @ post)"
proof -
  obtain post where p: "content = take i content @ target @ post" "i \<le> length content"
    using str_index_Some [OF assms(2)] by blast
  then have d: "drop (i + length target) content = post"
    by (metis add.commute append_eq_conv_conj drop_drop length_take min.absorb2)
  obtain l ls' where "ls = l # ls'" using assms(4) by (cases ls) auto
  then show ?thesis using p(1) assms d uncomment_lines [of prefix l ls']
    by (intro exI [of _ post]) (auto simp: UncommentCode_def split: prod.split option.split)
qed

text \<open>
  (C40) Uncommenting a block of commented lines: when the lines with the prefix before each of
  them, joined by newlines, occur in the file, the file is written with the first such
  occurrence replaced by the lines themselves and nothing else changed.
\<close>

theorem uncomment_round_trip:
  assumes "os_ReadFile os w f = Inr content"
    and "str_index content (join_lines (map (\<lambda>l. prefix @ l) ls)) = Some i"
    and "ls \<noteq> []" "prefix \<noteq> []" "list_all (\<lambda>l. line_ok (prefix @ l)) ls"
  shows "\<exists>post. content = take i content @ join_lines (map (\<lambda>l. prefix @ l) ls) @ post \<and>
    UncommentCode os w f (join_lines (map (\<lambda>l. prefix @ l) ls)) prefix =
      written os w f (take i content @ join_lines ls @ post)"
proof (rule UncommentCode_lines [OF assms(1,2) _ assms(3)])
  show "fst (scan_lines (join_lines (map (\<lambda>l. prefix @ l) ls))) = map (\<lambda>l. prefix @ l) ls"
    using assms(4,5) by (subst scan_join_lines) (simp_all add: list_all_iff)
qed

text \<open>A file system with one file, and a command that prints one line.\<close>

definition demo_os :: "string os_api" where
  "demo_os =
     \<lparr>os_Getwd = (\<lambda>w. (''/r/test/e2e'', None)), os_Chdir = (\<lambda>w d. (w, None)), os_Environ = (\<lambda>w. []),
      os_LookupEnv = (\<lambda>w k. None), os_CombinedOutput = (\<lambda>w c. (w, ''NAME'' @ [newline] @ ''issuers.cert-manager.io'', None)),
      os_ReadFile = (\<lambda>w f. Inr w), os_WriteFile = (\<lambda>w f t. (t, None)), os_log = (\<lambda>w l. w)\<rparr>"

theorem uncomment_round_trip_witness:
  "UncommentCode demo_os (''a'' @ [newline] @ ''#b'' @ [newline] @ ''#c'' @ [newline] @ ''d'') ''f'' (''#b'' @ [newline] @ ''#c'') ''#'' =
     (''a'' @ [newline] @ ''b'' @ [newline] @ ''c'' @ [newline] @ ''d'', None)"
proof -
  let ?t = "''a'' @ [newline] @ ''#b'' @ [newline] @ ''#c'' @ [newline] @ ''d''"
  have "os_ReadFile demo_os ?t ''f'' = Inr ?t" by (simp add: demo_os_def)
  from uncomment_round_trip [OF this, of "''#''" "[''b'', ''c'']" 2] show ?thesis
    by (auto simp: demo_os_def line_ok_def)
qed

text \<open>
  A target that ends in a newline: the newline is dropped with the comments, so that the last
  line runs into what follows it in the file.
\<close>

lemma uncomment_drops_newline:
  assumes "os_ReadFile os w f = Inr content"
    and "str_index content (unlines (map (\<lambda>l. prefix @ l) ls)) = Some i"
    and "ls \<noteq> []" "list_all (\<lambda>l. line_ok (prefix @ l)) ls"
  shows "\<exists>post. content = take i content @ unlines (map (\<lambda>l. prefix @ l) ls) @ post \<and>
    UncommentCode os w f (unlines (map (\<lambda>l. prefix @ l) ls)) prefix =
      written os w f (take i content @ join_lines ls @ post)"
proof (rule UncommentCode_lines [OF assms(1,2) _ assms(3)])
  show "fst (scan_lines (unlines (map (\<lambda>l. prefix @ l) ls))) = map (\<lambda>l. prefix @ l) ls"
    using assms(4) by (subst scan_lines_unlines) (simp_all add: list_all_iff)
qed

text \<open>
  cert-manager is reported as installed exactly when listing the custom resources succeeds
  and the output names one of its resources; looking at the lines one by one, empty ones left
  out, misses none and finds no more than a search of the whole output.
\<close>

theorem certmanager_detected:
  "snd (IsCertManagerCRDsInstalled os w) \<longleftrightarrow>
     (case Run os w (Command ''kubectl'' [''get'', ''crds'']) of
        (_, output, e) \<Rightarrow> e = None \<and> (\<exists>crd \<in> set certManagerCRDs. Contains output crd))"
proof -
  have "list_all (\<lambda>p. newline \<notin> set p \<and> p \<noteq> []) certManagerCRDs" by (simp add: certManagerCRDs_def)
  then have "list_ex (\<lambda>crd. list_ex (\<lambda>l. Contains l crd) (GetNonEmptyLines s)) certManagerCRDs \<longleftrightarrow>
      (\<exists>crd \<in> set certManagerCRDs. Contains s crd)" for s
    using non_empty_lines_Contains by (auto simp: list_ex_iff list_all_iff)
  then show ?thesis by (simp add: IsCertManagerCRDsInstalled_def Let_def split: prod.split option.split)
qed

end
