(* ===== verification/Spec2Isabelle.thy ===== *)
theory Spec2Isabelle
  imports Handover Surge HeapPatches Modes TestUtils
begin

text \<open>
  Verification development of pp-vpa, a per-pod vertical pod autoscaler for Kubernetes.

  \<^bold>\<open>The program.\<close> One binary (\<open>cmd/main.go\<close>) runs in one of two modes (\<open>internal/modes\<close>). The
  \<^emph>\<open>node agent\<close> (\<open>internal/nodeagent\<close>) samples memory peaks and pressure files of the pods of
  its node into decaying histograms, writes each histogram as a checkpoint into the status of
  the pod's \<open>PodResourceRecommendation\<close> and submits in-place resize patches from a priority
  queue. The \<^emph>\<open>manager\<close> runs three controllers (\<open>internal/controller\<close>) and an admission webhook
  (\<open>internal/webhook/v1\<close>): the workload controller keeps one recommendation object per pod of
  the target deployment, aggregates their checkpoints with \<open>internal/recommender\<close> into the
  default recommendation of the \<open>PerPodVerticalPodAutoscaler\<close> and keeps the deployment at
  target plus temporary replicas; the recommendation controller hands flagged pods to the
  handlers of \<open>internal/eviction\<close>; the checkpoint controller stores the aggregate; the webhook
  writes the recommendation into new pods.

  \<^bold>\<open>Theories, bottom up.\<close>

  \<^item> \<open>Prelude\<close>: wrap-around integers, Go errors (\<open>go_error\<close>, wrapping included) and panics (the
    type \<open>'a go\<close>), slices, the rule collections.
  \<^item> \<open>Float64\<close>: binary64 arithmetic as rounding of exact rationals, with infinities and NaN; the
    locale \<open>monotone_rounding\<close> carries the monotonicity lemmas and is interpreted by the model's
    own rounding. The sign of zero and NaN payloads are not represented. \<open>math.Pow\<close>, \<open>math.Log\<close>
    and the conversion of out-of-range floats are fields of \<open>go_math\<close>.
  \<^item> \<open>Clock\<close>: instants and durations in nanoseconds; \<open>GoText\<close>: \<open>strings.Fields\<close>, \<open>bufio\<close> lines,
    \<open>strconv\<close> and \<open>fmt.Sscanf\<close> as far as they are called.
  \<^item> \<open>Histogram\<close> (\<open>recommender/histogram\<close>): buckets, samples, ageing, percentiles, merging and the
    codec; gob and base64 are the parameter \<open>codec\<close>.
  \<^item> \<open>Api\<close> (\<open>api/v1alpha1\<close>): the custom resources as records; \<open>resource.Quantity\<close> is a type
    parameter with its operations.
  \<^item> \<open>Recommender\<close>, \<open>RecommenderProps\<close> (\<open>recommender\<close>): aggregation, percentiles, confidence,
    margin, clamping, the recommendation and the workload checkpoint.
  \<^item> \<open>PressureFiles\<close> (\<open>psi\<close>, \<open>oom\<close>), \<open>Ingest\<close> (\<open>ingest\<close>, \<open>watermark\<close>, \<open>trigger\<close>), \<open>NodeProbe\<close>
    (\<open>cgroup\<close>, \<open>internal/compat\<close>): the parsers on the bytes of the files, the peak extractor,
    watermarks, scaling decisions, paths and capability probes.
  \<^item> \<open>Patcher\<close> (\<open>patcher\<close>): \<open>container/heap\<close> on arrays, the queue and the resize call. The locale
    \<open>heap_order\<close> holds the sifting lemmas, the locale \<open>priority_queue\<close> the contract the agent
    relies on; both are interpreted by the patch queue.
  \<^item> \<open>Agent\<close> (\<open>nodeagent\<close>): registration, sampling, draining, checkpointing and the event loop, with
    the inductive predicate \<open>reachable\<close> and its invariant. Methods hold the agent's mutex, so each
    is one step, and steps interleave in any order.
  \<^item> \<open>Kube\<close>: the API client as a record of functions on the server's state, in-place filtering of
    slices on the shared array, and an in-memory server used to evaluate the theorems.
  \<^item> \<open>Eviction\<close> (\<open>eviction\<close>): the handlers, the surge state machine \<open>decide\<close>/\<open>perform\<close> they refine,
    and the inductive predicate \<open>burst\<close> of the states a surge can reach. The locale
    \<open>eviction_handler\<close> is the contract the recommendation controller relies on, interpreted by
    both handlers.
  \<^item> \<open>Controllers\<close>, \<open>ControllerProps\<close> (\<open>controller\<close>): the three reconcilers with every early return.
  \<^item> \<open>Workload\<close>: a whole pass of the workload controller, with the contract of a server that
    merges patches.
  \<^item> \<open>ControlPlane\<close>: the three controllers on one server, as the inductive predicate \<open>plane\<close> of the
    states their steps reach on stale reads, and as schedules of whole passes (\<open>serve\<close>). The
    locale \<open>control_pass\<close> is the contract of a reconciler, interpreted by all three. \<open>Surge\<close>: a
    surge from the first temporary replica to the last, and a cluster on which it happens.
  \<^item> \<open>Handover\<close>: the histogram checkpoint on its way from the node agent to a restarted agent and
    to the recommender.
  \<^item> \<open>GoHeap\<close>: a store of cells, references into it, and the locale \<open>copier\<close>, the contract of a
    copying function (same value, nothing shared, nothing overwritten), closed under pointers,
    slices, maps and structs. \<open>DeepCopy\<close> (\<open>api/v1alpha1/zz_generated.deepcopy.go\<close>): the structs
    with their pointers as records \<open>g_...\<close>, every generated function, and the contract for each;
    the locale is interpreted by those that need no code of other packages. \<open>HeapPatches\<close>: the
    copy-assign-patch sequences of the handlers and controllers on the heap.
  \<^item> \<open>Webhook\<close> (\<open>webhook/v1\<close>) and \<open>Modes\<close> (\<open>modes\<close>, \<open>cmd\<close>): admission; start-up, dispatch and exit
    status. \<open>Scheme\<close> (\<open>groupversion_info.go\<close> and the \<open>init\<close> functions): the registration of the
    API types with the scheme both modes start from. \<open>TestUtils\<close> (\<open>test/utils\<close>): the helpers of the end-to-end tests.
  \<^item> This theory: the properties that span components.

  \<^bold>\<open>What is shown.\<close> For the histogram: operations never panic and keep
  well-formedness, ageing halves per half-life, percentiles equal a reference search and are monotone,
  merging and checkpoints behave. For the recommender: aggregates are well formed and ignore unusable
  checkpoints, the bounds stay ordered down to the quantities written when the percentiles of the
  policy are ordered, the memory floor holds,
  clamping respects agreeing limits, quantities round up. For the node agent: parsers read back
  the kernel's formats, the extractor refines a window specification, the queue pops the highest
  priority, a drain terminates and loses nothing, and in a reachable state an event panics exactly
  when it decodes a checkpoint whose valid options ask for too many buckets. For the control
  plane: one recommendation per pod, replicas settle, the surge stays in its budget across
  handlers and controllers, only flagged pods are acted on, which errors
  surface and how long each failing step is waited for, what the webhook writes and that it fails open, that the stored checkpoint restores the
  aggregate, and that in a whole pass of the workload controller no step undoes what another achieved.
  For the controllers together: the deployment stays between the smallest requested size (an unset
  target counts as zero, so this may be one replica) and the largest plus the surge budget,
  whatever the order of steps and the age of what they read; a surge
  adds one replica, evicts only behind a Ready pod and ends at the size it began with; and the
  manager starts only with its types, controllers and webhook registered.
  Between agent and manager: a stored histogram is what a restarted agent and the recommender continue
  with, but for a reference time that does not fit Unix nanoseconds. For the heap: a deep copy has the value of the original and shares nothing with it, and each
  patch made from one refines the record update by which the other theories model it, its base
  unchanged. For the test helpers: uncommenting is exact on commented lines, and cert-manager is found
  exactly when the output names it. Several theorems state behaviour the code has and its comments do
  not promise: the empty checkpoint that loses its zero time, inverted bounds after clamping, the
  refused patch that blocks the queue, the OOM bump that never fires, the surge that oscillates,
  the deployment that shrinks when a surge begins before its target is seeded, the CPU histogram
  that never receives a sample, the checkpoint whose decoding panics, bounds inverted by
  unordered percentiles, resources dropped at admission.

  \<^bold>\<open>Bounds and termination.\<close> Loops over slices are structural recursions, sifting, draining and
  in-place filtering are total functions with a measure, so no fuel is used. A bucket array
  longer than \<open>max_slice_len\<close> panics in \<open>make\<close>. Replica counts wrap at 32 bits, durations and
  Unix times at 64. Go's map iteration order is an argument (a permutation) of the operations
  that range over maps.

  \<^bold>\<open>Assumptions.\<close> Statements about code outside the repository are named predicates:
  \<open>codec_ok\<close>, \<open>pow_ratio_law\<close>, \<open>pow_conf_law\<close>, \<open>prr_server\<close>, \<open>deployment_server\<close>,
  \<open>checkpoint_server\<close>, \<open>temp_server\<close>, \<open>manager_laws\<close>, \<open>scheme_laws\<close>, \<open>workload_server\<close> (merge patches), \<open>plane_server\<close>
  (a request changes only what it names), \<open>eviction_server\<close>, \<open>status_server\<close>, \<open>copy_lib_ok\<close>
  (copies of quantities, times, conditions and metadata); each theorem that uses one has a witness
  with a concrete instance.

  \<^bold>\<open>Not modelled.\<close> The comment-only package \<open>scale\<close>, flag parsing, logging and the texts that \<open>%q\<close> and \<open>%v\<close> put into messages. Quantities and
  conditions are values on the heap: what their own copying code shares inside is hidden in
  \<open>copy_lib\<close>. The capacity of slices is not represented. The manager runs reconcilers of
  different kinds concurrently; \<open>plane\<close> interleaves them at the granularity of the functions a
  pass is made of.
\<close>

section \<open>From the recommender to the admitted pod\<close>

lemma resourceList_dom: "dom (resourceList m q c b) = {ResourceCPU, ResourceMemory}"
  by (auto simp: resourceList_def Let_def)

lemma Recommend_entry:
  assumes "Recommend m c q prrs spec age = Ret (Inr rec)" "r \<in> set (rec_ContainerRecommendations rec)"
  shows "cr_Target r = rec_PodLevelTarget rec \<and> cr_UpperBound r = pl_UpperBound (rec_PodLevel rec) \<and>
    dom (cr_Target r) = {ResourceCPU, ResourceMemory} \<and> dom (cr_UpperBound r) = {ResourceCPU, ResourceMemory}"
proof -
  obtain b n where "r = container_rec m q b n" "rec_PodLevelTarget rec = podLevelList m q b"
    "pl_UpperBound (rec_PodLevel rec) = resourceList m q (CPUUpper b) (MemoryUpper b)"
    using assms by (auto simp: Recommend_def Let_def elim!: go_bind_RetE split: sum.split_asm)
  then show ?thesis by (simp add: container_rec_def podLevelList_def resourceList_dom)
qed

lemma Recommend_names:
  assumes "Recommend m c q prrs spec age = Ret (Inr rec)"
  shows "cr_ContainerName ` set (rec_ContainerRecommendations rec) = set (uniqueContainerNames prrs)"
  using assms
  by (force simp: Recommend_def container_rec_def Let_def elim!: go_bind_RetE split: sum.split_asm)

text \<open>
  (C12) What a computed recommendation does to an admitted pod: every container the
  recommender has seen gets, as requests and as limits, the figures of the whole pod (the
  upper bound during a surge or after trouble, the target otherwise), and nothing else: a
  request or limit for any resource besides CPU and memory that the pod was created with is
  gone.
\<close>

theorem admitted_container_resources:
  assumes "Recommend m c q prrs spec age = Ret (Inr rec)" "DefaultRecommendation (ppvpa_Status v) = Some rec"
    and "findPPVPA cl w p = Inr (Some v)" "\<not> surge_annotated p"
    and "k \<in> set (pod_containers p)" "k_name k \<in> set (uniqueContainerNames prrs)"
  shows "\<exists>p' k'. Default cl w (Some p) = (Some p', None) \<and> k' \<in> set (pod_containers p') \<and> k_name k' = k_name k \<and>
    k_limits k' = k_requests k' \<and> k_requests k' \<in> {rec_PodLevelTarget rec, pl_UpperBound (rec_PodLevel rec)} \<and>
    (\<forall>r. r \<notin> {ResourceCPU, ResourceMemory} \<longrightarrow> k_requests k' r = None)"
proof -
  let ?find = "\<lambda>k. List.find (\<lambda>r. cr_ContainerName r = k_name k) (rec_ContainerRecommendations rec)"
  let ?inject = "\<lambda>k. case ?find k of None \<Rightarrow> k
      | Some r \<Rightarrow> k\<lparr>k_requests := inherited cl w v r, k_limits := inherited cl w v r\<rparr>"
  have "k_name k \<in> cr_ContainerName ` set (rec_ContainerRecommendations rec)"
    using assms(6) Recommend_names [OF assms(1)] by simp
  then have "?find k \<noteq> None" by (auto simp: find_None_all)
  then obtain r where r: "?find k = Some r" by blast
  then have mem: "r \<in> set (rec_ContainerRecommendations rec)" using find_Some_set by fast
  note e = Recommend_entry [OF assms(1) mem]
  define x where "x = inherited cl w v r"
  have q: "?inject k = k\<lparr>k_requests := x, k_limits := x\<rparr>" using r by (simp add: x_def)
  have "x = cr_Target r \<or> x = cr_UpperBound r" by (simp add: x_def inherited_def)
  then have x: "x \<in> {rec_PodLevelTarget rec, pl_UpperBound (rec_PodLevel rec)}" "dom x = {ResourceCPU, ResourceMemory}"
    using e by (metis insertCI, metis)
  have "\<forall>y. y \<notin> {ResourceCPU, ResourceMemory} \<longrightarrow> x y = None" using x(2) by blast
  moreover have "?inject k \<in> set (pod_containers (p\<lparr>pod_containers := map ?inject (pod_containers p)\<rparr>))"
    using assms(5) by simp
  ultimately show ?thesis
    using Default_injects [OF assms(4,3,2)] x(1) unfolding q
    by (intro exI [of _ "p\<lparr>pod_containers := map ?inject (pod_containers p)\<rparr>"]
        exI [of _ "k\<lparr>k_requests := x, k_limits := x\<rparr>"]) simp
qed

theorem admitted_container_resources_witness:
  "\<exists>rec p' k'. Recommend flat_math demo_codec demo_quantity [demo_prr [] [''app''] None] demo_spec Hour = Ret (Inr rec) \<and>
     k_requests (hd (pod_containers (hd (cl_pods demo_cluster)))) ''gpu'' = Some 1 \<and>
     Default mem_client (demo_advised_cluster rec 0) (Some (hd (cl_pods demo_cluster))) = (Some p', None) \<and>
     k' \<in> set (pod_containers p') \<and> k_name k' = ''app'' \<and> k_requests k' ''gpu'' = None"
proof -
  obtain wh where "NewWorkloadHistograms flat_math = Ret (Inr wh)"
    using NewWorkloadHistograms_wf [of flat_math] by (auto simp: flat_buckets max_slice_len_def)
  then obtain rec where r: "Recommend flat_math demo_codec demo_quantity [demo_prr [] [''app''] None] demo_spec Hour = Ret (Inr rec)"
    by (simp add: Recommend_def Aggregate_def aggregate_step_def demo_prr_def demo_status_def Let_def)
  let ?p = "hd (cl_pods demo_cluster)"
  have d: "DefaultRecommendation (ppvpa_Status (demo_advised rec 0)) = Some rec" by (simp add: demo_advised_def)
  have s: "\<not> surge_annotated ?p" by (simp add: surge_annotated_def demo_cluster_def demo_meta_def)
  have k: "hd (pod_containers ?p) \<in> set (pod_containers ?p)" by (simp add: demo_cluster_def)
  have n: "k_name (hd (pod_containers ?p)) \<in> set (uniqueContainerNames [demo_prr [] [''app''] None])"
    by (simp add: demo_cluster_def uniqueContainerNames_def demo_prr_def demo_status_def)
  have g: "k_name (hd (pod_containers ?p)) = ''app''" "k_requests (hd (pod_containers ?p)) ''gpu'' = Some 1"
    by (simp_all add: demo_cluster_def)
  obtain p' k' where p': "Default mem_client (demo_advised_cluster rec 0) (Some ?p) = (Some p', None)"
    "k' \<in> set (pod_containers p')" "k_name k' = ''app''"
    "\<forall>r. r \<notin> {ResourceCPU, ResourceMemory} \<longrightarrow> k_requests k' r = None"
    using admitted_container_resources [OF r d demo_found s k n] g(1) by auto
  have "k_requests k' ''gpu'' = None" using p'(4) by simp
  then show ?thesis using r g(2) p'(1-3) by blast
qed

section \<open>From the aggregate to the restored checkpoint\<close>

text \<open>What survives a checkpoint of the reference times: nanoseconds since 1970 in 64 bits.\<close>

definition unix_times :: "workload_histograms \<Rightarrow> workload_histograms" where
  "unix_times wh =
     \<lparr>wh_CPU = (wh_CPU wh)\<lparr>referenceTime := time_Unix (UnixNano (referenceTime (wh_CPU wh)))\<rparr>,
      wh_Memory = (wh_Memory wh)\<lparr>referenceTime := time_Unix (UnixNano (referenceTime (wh_Memory wh)))\<rparr>\<rparr>"

text \<open>
  What is relied on of the server: the status of a checkpoint patch that it accepts is what
  it reads back.
\<close>

definition checkpoint_server :: "('q, 'w) client \<Rightarrow> bool" where
  "checkpoint_server cl \<longleftrightarrow>
     (\<forall>w d d0 w' ns n. k_get_checkpoint cl w ns n = Inr d0 \<longrightarrow> checkpoint_meta d = checkpoint_meta d0 \<longrightarrow>
        k_patch_checkpoint_status cl w d d0 = (w', None) \<longrightarrow>
        (\<exists>d'. k_get_checkpoint cl w' ns n = Inr d' \<and>
           AggregateHistogramCheckpoint (checkpoint_Status d') = AggregateHistogramCheckpoint (checkpoint_Status d)))"

lemma store_checkpoint_reads_back:
  assumes "checkpoint_server cl" "store_checkpoint cl w cp enc now = (w', r, None)"
  shows "r = requeue_after (5 * Minute) \<and>
    (\<exists>cp'. k_get_checkpoint cl w' (om_namespace (checkpoint_meta cp)) (om_name (checkpoint_meta cp)) = Inr cp' \<and>
       AggregateHistogramCheckpoint (checkpoint_Status cp') = enc)"
proof -
  obtain w1 x where w1: "k_create_checkpoint cl w cp = (w1, x)" by fastforce
  obtain cp0 where g: "k_get_checkpoint cl w1 (om_namespace (checkpoint_meta cp)) (om_name (checkpoint_meta cp)) = Inr cp0"
    and p: "k_patch_checkpoint_status cl w1 (with_aggregate cp0 enc now) cp0 = (w', None)"
    and r: "r = requeue_after (5 * Minute)"
    using assms(2) w1 by (auto simp: store_checkpoint_def split: if_split_asm sum.split_asm prod.split_asm option.split_asm)
  from assms(1) [unfolded checkpoint_server_def, rule_format, OF g _ p]
  show ?thesis using r by (auto simp: with_aggregate_def)
qed

text \<open>The two codecs invert each other on what an aggregate is written as.\<close>

definition workload_codecs_ok ::
  "checkpoint codec \<Rightarrow> workload_checkpoint codec \<Rightarrow> workload_histograms \<Rightarrow> time \<Rightarrow> bool" where
  "workload_codecs_ok c cw wh now \<longleftrightarrow>
     codec_ok c (checkpoint_of (wh_CPU wh)) \<and> codec_ok c (checkpoint_of (wh_Memory wh)) \<and>
     (\<forall>s t. Encode c (wh_CPU wh) = Inr s \<longrightarrow> Encode c (wh_Memory wh) = Inr t \<longrightarrow>
        codec_ok cw \<lparr>wc_CPU = s, wc_Memory = t, wc_Time = UnixNano now\<rparr>)"

lemma EncodeWorkload_restores:
  assumes "wf_workload m wh" "numBuckets m DefaultCPUOptions \<le> max_slice_len"
    and "numBuckets m DefaultMemoryOptions \<le> max_slice_len" "workload_codecs_ok c cw wh now"
    and "EncodeWorkload c cw wh now = Inr enc"
  shows "DecodeWorkload m c cw enc = Ret (Inr (unix_times wh))"
proof -
  have n: "h_n (wh_CPU wh) \<le> max_slice_len" "h_n (wh_Memory wh) \<le> max_slice_len"
    "Validate (opts (wh_CPU wh)) = None" "Validate (opts (wh_Memory wh)) = None"
    using assms(1-3) Validate_defaults by (auto simp: wf_workload_def wf_hist_def)
  have w: "wf_hist m (wh_CPU wh)" "wf_hist m (wh_Memory wh)" using assms(1) by (auto simp: wf_workload_def)
  have k: "codec_ok c (checkpoint_of (wh_CPU wh))" "codec_ok c (checkpoint_of (wh_Memory wh))"
    using assms(4) by (auto simp: workload_codecs_ok_def)
  obtain s where s: "Encode c (wh_CPU wh) = Inr s"
    "Decode m c s = Ret (Inr ((wh_CPU wh)\<lparr>referenceTime := time_Unix (UnixNano (referenceTime (wh_CPU wh)))\<rparr>))"
    using Decode_Encode [OF w(1) n(3,1) k(1)] by blast
  obtain t where t: "Encode c (wh_Memory wh) = Inr t"
    "Decode m c t = Ret (Inr ((wh_Memory wh)\<lparr>referenceTime := time_Unix (UnixNano (referenceTime (wh_Memory wh)))\<rparr>))"
    using Decode_Encode [OF w(2) n(4,2) k(2)] by blast
  have "codec_ok cw \<lparr>wc_CPU = s, wc_Memory = t, wc_Time = UnixNano now\<rparr>"
    using assms(4) s(1) t(1) by (simp add: workload_codecs_ok_def)
  then show ?thesis using s t assms(5)
    by (auto simp: EncodeWorkload_def DecodeWorkload_def unix_times_def codec_ok_def)
qed

text \<open>
  (C13) Restart resilience: after a successful pass of the checkpoint controller the stored
  checkpoint object decodes to the aggregate of the workload's recommendations, up to the 64
  bits of the reference times, and the next pass is due in five minutes.
\<close>

theorem checkpoint_restores_aggregate:
  assumes "checkpoint_server (ce_client e)" "k_get_ppvpa (ce_client e) w ns name = Inr v" "\<not> is_deleting (ppvpa_meta v)"
    and "k_list_prrs (ce_client e) w (om_namespace (ppvpa_meta v)) = Inr ps"
    and "Aggregate (ce_math e) (ce_codec e)
           (filter (\<lambda>p. owned_by (om_uid (ppvpa_meta v)) (om_ownerRefs (prr_meta p))) ps) = Ret (Inr wh)"
    and "numBuckets (ce_math e) DefaultCPUOptions \<le> max_slice_len"
    and "numBuckets (ce_math e) DefaultMemoryOptions \<le> max_slice_len"
    and "workload_codecs_ok (ce_codec e) (ce_workload_codec e) wh now"
    and "checkpoint_Reconcile e w ns name now now' = (w', Ret (r, None))"
  shows "r = requeue_after (5 * Minute) \<and>
    (\<exists>cp. k_get_checkpoint (ce_client e) w' (om_namespace (ppvpa_meta v)) (om_name (ppvpa_meta v) @ ''-checkpoint'') = Inr cp \<and>
       DecodeWorkload (ce_math e) (ce_codec e) (ce_workload_codec e) (AggregateHistogramCheckpoint (checkpoint_Status cp)) =
         Ret (Inr (unix_times wh)))"
proof -
  obtain enc where enc: "EncodeWorkload (ce_codec e) (ce_workload_codec e) wh now = Inr enc"
    and st: "store_checkpoint (ce_client e) w (new_checkpoint v) enc now' = (w', r, None)"
    using assms(2-5,9) by (auto simp: checkpoint_Reconcile_def owned_prrs_def compact_filter
        split: sum.split_asm prod.split_asm)
  show ?thesis
    using store_checkpoint_reads_back [OF assms(1) st]
      EncodeWorkload_restores [OF Aggregate_wf [OF assms(5)] assms(6-8) enc]
    by (auto simp: new_checkpoint_def child_meta_def)
qed

text \<open>The demo workload, whose recommendations carry no checkpoint yet.\<close>

definition demo_aggregate :: workload_histograms where
  "demo_aggregate =
     \<lparr>wh_CPU = \<lparr>opts = DefaultCPUOptions, h_n = 1, buckets = [0], totalWeight = 0, referenceTime = zero_time\<rparr>,
      wh_Memory = \<lparr>opts = DefaultMemoryOptions, h_n = 1, buckets = [0], totalWeight = 0, referenceTime = zero_time\<rparr>\<rparr>"

definition demo_checkpointing :: "(int, int cluster) controller_env" where
  "demo_checkpointing =
     demo_control\<lparr>ce_codec :=
        \<lparr>gob_encode = (\<lambda>x. Inr (if x = checkpoint_of (wh_CPU demo_aggregate) then ''c'' else ''m'')),
         gob_decode = (\<lambda>b. Inr (checkpoint_of (if b = ''c'' then wh_CPU demo_aggregate else wh_Memory demo_aggregate))),
         base64_encode = (\<lambda>b. b), base64_decode = Inr\<rparr>,
       ce_workload_codec :=
        \<lparr>gob_encode = (\<lambda>_. Inr ''w''), gob_decode = (\<lambda>_. Inr \<lparr>wc_CPU = ''c'', wc_Memory = ''m'', wc_Time = 7\<rparr>),
         base64_encode = (\<lambda>b. b), base64_decode = Inr\<rparr>\<rparr>"

lemma demo_histograms_differ: "checkpoint_of (wh_Memory demo_aggregate) \<noteq> checkpoint_of (wh_CPU demo_aggregate)"
  by (simp add: demo_aggregate_def checkpoint_of_def DefaultCPUOptions_def DefaultMemoryOptions_def f64_consts)

lemma mem_checkpoint_server: "checkpoint_server mem_client"
  using get_replaced [of checkpoint_meta] by (fastforce simp: checkpoint_server_def mem_client_def)

theorem checkpoint_restores_aggregate_witness:
  "\<exists>w' cp. checkpoint_Reconcile demo_checkpointing demo_cluster ''ns'' ''vpa'' 7 9 = (w', Ret (requeue_after (5 * Minute), None)) \<and>
     k_get_checkpoint mem_client w' ''ns'' ''vpa-checkpoint'' = Inr cp \<and>
     DecodeWorkload flat_math (ce_codec demo_checkpointing) (ce_workload_codec demo_checkpointing)
       (AggregateHistogramCheckpoint (checkpoint_Status cp)) = Ret (Inr (unix_times demo_aggregate))"
proof -
  have ag: "Aggregate (ce_math demo_checkpointing) (ce_codec demo_checkpointing)
      (filter (\<lambda>p. owned_by (om_uid (ppvpa_meta (demo_ppvpa 1))) (om_ownerRefs (prr_meta p))) ([] :: int prr list)) =
      Ret (Inr demo_aggregate)"
    by (simp add: Aggregate_def NewWorkloadHistograms_def New_def Validate_defaults flat_buckets max_slice_len_def
        demo_checkpointing_def demo_control_def demo_aggregate_def)
  have g: "k_get_ppvpa (ce_client demo_checkpointing) demo_cluster ''ns'' ''vpa'' = Inr (demo_ppvpa 1)"
    "\<not> is_deleting (ppvpa_meta (demo_ppvpa 1))"
    "k_list_prrs (ce_client demo_checkpointing) demo_cluster (om_namespace (ppvpa_meta (demo_ppvpa 1))) = Inr []"
    by (simp_all add: demo_checkpointing_def demo_control_def mem_client_def get_object_def list_objects_def
        demo_cluster_def demo_ppvpa_def demo_meta_def named_def is_deleting_def)
  have ok: "workload_codecs_ok (ce_codec demo_checkpointing) (ce_workload_codec demo_checkpointing) demo_aggregate 7"
    using demo_histograms_differ
    by (simp add: workload_codecs_ok_def codec_ok_def demo_checkpointing_def Encode_def UnixNano_def wrap_def)
  have enc: "EncodeWorkload (ce_codec demo_checkpointing) (ce_workload_codec demo_checkpointing) demo_aggregate 7 = Inr ''w''"
    by (simp add: EncodeWorkload_def Encode_def demo_checkpointing_def)
  obtain w' where r: "checkpoint_Reconcile demo_checkpointing demo_cluster ''ns'' ''vpa'' 7 9 =
      (w', Ret (requeue_after (5 * Minute), None))"
    using g ag enc
    by (simp add: checkpoint_Reconcile_def owned_prrs_def compact_filter store_checkpoint_def demo_checkpointing_def
        demo_control_def mem_client_def has_object_def get_object_def named_def demo_cluster_def new_checkpoint_def
        child_meta_def)
  have m: "ce_client demo_checkpointing = mem_client" "ce_math demo_checkpointing = flat_math"
    by (simp_all add: demo_checkpointing_def demo_control_def)
  show ?thesis
    using checkpoint_restores_aggregate [OF _ g ag _ _ ok r] r mem_checkpoint_server
    by (simp add: m flat_buckets max_slice_len_def demo_ppvpa_def demo_meta_def)
qed

end
